(* ===== verification/Prelude.thy ===== *)
theory Prelude
  imports Main "HOL-Library.AList" "HOL-Library.Char_ord" "HOL-Library.List_Lexorder"
    "HOL-Library.Product_Lexorder"
begin

text \<open>
  The shared vocabulary of the development: the errors the packages of the ticket service
  return, operations that read and write a state and may fail (a Go method returning
  \<open>(value, error)\<close>), the rules that reason about their composition, and tables (the Go
  maps keyed by id) as association lists.

  An operation runs to completion in both cases: a Go method that returns an error may have
  written before, so the state is returned beside the error, never dropped.
\<close>

section \<open>Errors\<close>

text \<open>
  One constructor per sentinel error or error type of the packages under \<open>internal/\<close>.
  Errors that wrap another one keep it (\<open>Retry\<close> is \<open>inbound.errRetry\<close>,
  \<open>Wrapped\<close> is \<open>fmt.Errorf("...: %w", err)\<close>); \<open>err_is\<close> is \<open>errors.Is\<close>,
  which looks through the wrapping.
\<close>

datatype err =
    RepoNotFound | RepoConflict | RepoNotEmpty
  | Injected string
  | Forbidden string
  | Validation string string string
  | TkNotFound | TkInvalidStatus | TkInvalidAssignee | TkDirectoryUnavailable
  | TkAttachmentNotFound | TkNoObjectStore
  | CmCommentNotFound | CmReplyUnavailable string | CmDeliveryFailed | CmUnsafeHeader
  | TgNotFound | TgConflict | TgTicketNotFound | TgUnknownTag
  | MbNotFound | MbConflict | MbInUse
  | RuNotFound | RuInvalidAssignee | RuDirectoryUnavailable | RuInvalid string string
  | RuEvaluate string
  | AgUnknownUser | AgNotAssignable | AgUnavailable
  | MailDisabled | MailHeader | MailAddress | MailRelay
  | MailConfig | MailPlaintext string | MailAuthTLS | MailAuth string | MailNet string
  | BkBadSchema string | BkTooLarge string
  | StTooMany | StType | StPayload | StTargets | StReserved | StClosed | StClient string
  | SealKEK | SealTampered | SealTooLarge | SealSettings | SealKEKSource string
  | BlobError string
  | ThreadTenant
  | InTicketGone
  | AuditInvalid string | AuditClosed
  | Wrapped string err
  | Retry err
  | Joined "err list"

fun err_is :: "err \<Rightarrow> err \<Rightarrow> bool" where
  "err_is (Wrapped s e) x \<longleftrightarrow> Wrapped s e = x \<or> err_is e x"
| "err_is (Retry e) x \<longleftrightarrow> Retry e = x \<or> err_is e x"
| "err_is (Joined es) x \<longleftrightarrow> Joined es = x \<or> (\<exists>e \<in> set es. err_is e x)"
| "err_is e x \<longleftrightarrow> e = x"

lemma err_is_refl [simp]: "err_is e e"
  by (cases e) auto

section \<open>Operations\<close>

type_synonym 'a res = "err + 'a"
type_synonym ('w, 'a) op = "'w \<Rightarrow> 'a res \<times> 'w"

definition ret :: "'a \<Rightarrow> ('w, 'a) op" where
  "ret x w = (Inr x, w)"

definition throw :: "err \<Rightarrow> ('w, 'a) op" where
  "throw e w = (Inl e, w)"

text \<open>\<open>x, err := f(); if err != nil { return err }\<close>, then the rest of the function.\<close>

definition bnd :: "('w, 'a) op \<Rightarrow> ('a \<Rightarrow> ('w, 'b) op) \<Rightarrow> ('w, 'b) op" where
  "bnd f g w = (case f w of (Inl e, w') \<Rightarrow> (Inl e, w') | (Inr x, w') \<Rightarrow> g x w')"

text \<open>\<open>x, err := f()\<close> with the error inspected by the code that follows.\<close>

definition attempt :: "('w, 'a) op \<Rightarrow> ('w, 'a res) op" where
  "attempt f w = (Inr (fst (f w)), snd (f w))"

definition map_err :: "(err \<Rightarrow> err) \<Rightarrow> ('w, 'a) op \<Rightarrow> ('w, 'a) op" where
  "map_err h f w = (case f w of (Inl e, w') \<Rightarrow> (Inl (h e), w') | (Inr x, w') \<Rightarrow> (Inr x, w'))"

definition fetch :: "('w \<Rightarrow> 'a) \<Rightarrow> ('w, 'a) op" where
  "fetch f w = (Inr (f w), w)"

definition modify :: "('w \<Rightarrow> 'w) \<Rightarrow> ('w, unit) op" where
  "modify f w = (Inr (), f w)"

definition of_res :: "'a res \<Rightarrow> ('w, 'a) op" where
  "of_res r w = (r, w)"

lemmas op_defs = ret_def throw_def bnd_def attempt_def map_err_def fetch_def modify_def of_res_def

lemma bnd_ret [simp]: "bnd (ret x) g = g x"
  by (rule ext) (simp add: op_defs)

lemma bnd_throw [simp]: "bnd (throw e) g = throw e"
  by (rule ext) (simp add: op_defs)

lemma bnd_assoc: "bnd (bnd f g) h = bnd f (\<lambda>x. bnd (g x) h)"
  by (rule ext) (auto simp: op_defs split: prod.splits sum.splits)

lemma bnd_of_res [simp]: "bnd (of_res (Inr x)) g = g x" "bnd (of_res (Inl e)) g = throw e"
  by (rule ext, simp add: op_defs)+

lemma bnd_cong [fundef_cong]:
  assumes "f w = f' w'" and "\<And>x w''. f' w' = (Inr x, w'') \<Longrightarrow> g x w'' = g' x w''"
  shows "bnd f g w = bnd f' g' w'"
  using assms by (auto simp: bnd_def split: prod.splits sum.splits)

lemma bnd_Inr_iff:
  "bnd f g w = (Inr y, w'') \<longleftrightarrow> (\<exists>x w'. f w = (Inr x, w') \<and> g x w' = (Inr y, w''))"
  by (auto simp: bnd_def split: prod.splits sum.splits)

lemma bnd_Inl_iff:
  "bnd f g w = (Inl e, w'') \<longleftrightarrow>
     f w = (Inl e, w'') \<or> (\<exists>x w'. f w = (Inr x, w') \<and> g x w' = (Inl e, w''))"
  by (auto simp: bnd_def split: prod.splits sum.splits)

lemma map_err_iff:
  "map_err h f w = (Inr x, w') \<longleftrightarrow> f w = (Inr x, w')"
  "map_err h f w = (Inl e, w') \<longleftrightarrow> (\<exists>e'. f w = (Inl e', w') \<and> e = h e')"
  by (auto simp: map_err_def split: prod.splits sum.splits)

lemma simple_op_iff:
  "ret x w = (r, w') \<longleftrightarrow> r = Inr x \<and> w' = w"
  "throw e w = (r, w') \<longleftrightarrow> r = Inl e \<and> w' = w"
  "of_res r' w = (r, w') \<longleftrightarrow> r = r' \<and> w' = w"
  "fetch f w = (rf, w') \<longleftrightarrow> rf = Inr (f w) \<and> w' = w"
  "modify u w = (ru, w') \<longleftrightarrow> ru = Inr () \<and> w' = u w"
  by (auto simp: op_defs)

lemma attempt_iff:
  "attempt f w = (r, w') \<longleftrightarrow> (\<exists>r'. f w = (r', w') \<and> r = Inr r')"
  by (cases "f w") (auto simp: attempt_def)

lemmas op_iffs = bnd_Inr_iff bnd_Inl_iff map_err_iff simple_op_iff attempt_iff

section \<open>Triples\<close>

text \<open>
  \<open>triple P f Q E\<close>: from a state satisfying \<open>P\<close> the operation ends with a value and a
  state satisfying \<open>Q\<close>, or with an error and a state satisfying \<open>E\<close>. Operations are
  total functions, so this is total correctness.
\<close>

definition triple ::
  "('w \<Rightarrow> bool) \<Rightarrow> ('w, 'a) op \<Rightarrow> ('a \<Rightarrow> 'w \<Rightarrow> bool) \<Rightarrow> (err \<Rightarrow> 'w \<Rightarrow> bool) \<Rightarrow> bool" where
  "triple P f Q E \<longleftrightarrow>
     (\<forall>w. P w \<longrightarrow> (case f w of (Inr x, w') \<Rightarrow> Q x w' | (Inl e, w') \<Rightarrow> E e w'))"

definition preserves :: "('w \<Rightarrow> bool) \<Rightarrow> ('w, 'a) op \<Rightarrow> bool" where
  "preserves I f \<longleftrightarrow> triple I f (\<lambda>_. I) (\<lambda>_. I)"

named_theorems keeps \<open>operations that preserve an invariant\<close>

lemma preserves_iff: "preserves I f \<longleftrightarrow> (\<forall>w. I w \<longrightarrow> I (snd (f w)))"
  unfolding preserves_def triple_def case_prod_beta by (auto split: sum.splits)

lemma preservesI: "(\<And>w. I w \<Longrightarrow> I (snd (f w))) \<Longrightarrow> preserves I f"
  by (simp add: preserves_iff)

lemma preservesD: "preserves I f \<Longrightarrow> I w \<Longrightarrow> I (snd (f w))"
  by (simp add: preserves_iff)

lemma preservesE: "preserves I f \<Longrightarrow> I w \<Longrightarrow> f w = (r, w') \<Longrightarrow> I w'"
  by (metis preserves_iff snd_conv)

lemma tripleD:
  assumes "triple P f Q E" and "P w"
  shows "f w = (Inr x, w') \<Longrightarrow> Q x w'" and "f w = (Inl e, w') \<Longrightarrow> E e w'"
  using assms by (force simp: triple_def)+

lemma triple_bnd:
  assumes "triple P f R E" and "\<And>x. triple (R x) (g x) Q E"
  shows "triple P (bnd f g) Q E"
  using assms unfolding triple_def bnd_def
  by (fastforce split: prod.splits sum.splits)

lemma triple_conseq:
  assumes "triple P' f Q' E'" and "\<And>w. P w \<Longrightarrow> P' w"
    and "\<And>x w. Q' x w \<Longrightarrow> Q x w" and "\<And>e w. E' e w \<Longrightarrow> E e w"
  shows "triple P f Q E"
  using assms unfolding triple_def by (fastforce split: prod.splits sum.splits)

lemma preserves_ret [keeps, intro]: "preserves I (ret x)"
  and preserves_throw [keeps, intro]: "preserves I (throw e)"
  and preserves_fetch [keeps, intro]: "preserves I (fetch f)"
  and preserves_of_res [keeps, intro]: "preserves I (of_res r)"
  by (simp_all add: preserves_iff op_defs)

lemma preserves_bnd [keeps, intro]:
  "preserves I f \<Longrightarrow> (\<And>x. preserves I (g x)) \<Longrightarrow> preserves I (bnd f g)"
  unfolding preserves_iff bnd_def case_prod_beta by (auto split: sum.splits)

lemma preserves_attempt [keeps, intro]: "preserves I f \<Longrightarrow> preserves I (attempt f)"
  by (simp add: preserves_iff attempt_def)

lemma preserves_map_err [keeps, intro]: "preserves I f \<Longrightarrow> preserves I (map_err h f)"
  unfolding preserves_iff map_err_def case_prod_beta by (auto split: sum.splits)

lemma preserves_modify [intro]: "(\<And>w. I w \<Longrightarrow> I (u w)) \<Longrightarrow> preserves I (modify u)"
  by (simp add: preserves_iff op_defs)

lemma preserves_if [keeps, intro]:
  "(b \<Longrightarrow> preserves I f) \<Longrightarrow> (\<not> b \<Longrightarrow> preserves I g) \<Longrightarrow> preserves I (if b then f else g)"
  by simp

lemma preserves_case_option [keeps, intro]:
  "(x = None \<Longrightarrow> preserves I f) \<Longrightarrow> (\<And>y. x = Some y \<Longrightarrow> preserves I (g y)) \<Longrightarrow>
   preserves I (case x of None \<Rightarrow> f | Some y \<Rightarrow> g y)"
  by (cases x) auto

lemma preserves_case_sum [keeps, intro]:
  "(\<And>e. x = Inl e \<Longrightarrow> preserves I (f e)) \<Longrightarrow> (\<And>y. x = Inr y \<Longrightarrow> preserves I (g y)) \<Longrightarrow>
   preserves I (case x of Inl e \<Rightarrow> f e | Inr y \<Rightarrow> g y)"
  by (cases x) auto

lemma preserves_case_prod [keeps, intro]:
  "(\<And>a b. x = (a, b) \<Longrightarrow> preserves I (f a b)) \<Longrightarrow> preserves I (case x of (a, b) \<Rightarrow> f a b)"
  by (cases x) auto

lemma preserves_let [keeps, intro]: "preserves I (f x) \<Longrightarrow> preserves I (let y = x in f y)"
  by simp

text \<open>Steps of a triple: an operation that keeps the precondition, one that establishes the invariant.\<close>

lemma preserves_conj: "preserves A f \<Longrightarrow> preserves B f \<Longrightarrow> preserves (\<lambda>w. A w \<and> B w) f"
  by (simp add: preserves_iff)

lemma triple_then:
  "preserves I f \<Longrightarrow> (\<And>w. I w \<Longrightarrow> F w) \<Longrightarrow> (\<And>x. triple I (g x) (\<lambda>_. F) (\<lambda>_. F)) \<Longrightarrow>
   triple I (bnd f g) (\<lambda>_. F) (\<lambda>_. F)"
  by (rule triple_bnd [where R = "\<lambda>_. I"]) (auto simp: preserves_def intro: triple_conseq)

lemma triple_of_keeps: "preserves I f \<Longrightarrow> (\<And>w. I w \<Longrightarrow> F w) \<Longrightarrow> triple I f (\<lambda>_. F) (\<lambda>_. F)"
  by (auto simp: preserves_def intro: triple_conseq)

lemma triple_enter:
  "triple I f (\<lambda>_. J) (\<lambda>_. J) \<Longrightarrow> (\<And>x. preserves J (g x)) \<Longrightarrow> triple I (bnd f g) (\<lambda>_. J) (\<lambda>_. J)"
  by (rule triple_bnd) (simp_all add: preserves_def)

lemma triple_map_err: "triple P f Q (\<lambda>_. E) \<Longrightarrow> triple P (map_err h f) Q (\<lambda>_. E)"
  unfolding triple_def map_err_def case_prod_beta by (auto split: sum.splits)

lemma triple_pure: "(A \<Longrightarrow> triple P f Q E) \<Longrightarrow> triple (\<lambda>w. A \<and> P w) f Q E"
  by (auto simp: triple_def)

lemma bnd_step: "f w = (Inr x, w') \<Longrightarrow> bnd f g w = g x w'"
  by (simp add: bnd_def)

lemma triple_keep_bnd:
  "preserves I f \<Longrightarrow> (\<And>x. triple I (g x) Q (\<lambda>_. I)) \<Longrightarrow> triple I (bnd f g) Q (\<lambda>_. I)"
  by (rule triple_bnd) (simp_all add: preserves_def)

lemma preserves_bnd_of_res:
  "(\<And>x. r = Inr x \<Longrightarrow> preserves I (g x)) \<Longrightarrow> preserves I (bnd (of_res r) g)"
  by (cases r) auto

text \<open>A loop over a slice whose body may fail: the first error ends it.\<close>

fun each :: "('x \<Rightarrow> ('w, unit) op) \<Rightarrow> 'x list \<Rightarrow> ('w, unit) op" where
  "each f [] = ret ()"
| "each f (x # xs) = bnd (f x) (\<lambda>_. each f xs)"

text \<open>A loop that accumulates: the slice built so far is threaded through the body.\<close>

fun fold_op :: "('x \<Rightarrow> 'acc \<Rightarrow> ('w, 'acc) op) \<Rightarrow> 'x list \<Rightarrow> 'acc \<Rightarrow> ('w, 'acc) op" where
  "fold_op f [] acc = ret acc"
| "fold_op f (x # xs) acc = bnd (f x acc) (fold_op f xs)"

lemma preserves_each [keeps, intro]:
  "(\<And>x. x \<in> set xs \<Longrightarrow> preserves I (f x)) \<Longrightarrow> preserves I (each f xs)"
  by (induction xs) (auto intro: keeps)

lemma preserves_fold_op [keeps, intro]:
  "(\<And>x a. x \<in> set xs \<Longrightarrow> preserves I (f x a)) \<Longrightarrow> preserves I (fold_op f xs acc)"
  by (induction xs arbitrary: acc) (auto intro!: preserves_bnd)

section \<open>Tables\<close>

text \<open>
  A Go map keyed by id is an association list with distinct keys: \<open>map_of\<close> looks a key up,
  \<open>AList.update\<close> stores a row, \<open>AList.delete\<close> removes one, and the order of the list is
  the order in which a \<open>range\<close> loop visits the map. Go leaves that order open; the
  theorems hold for every list, hence for every order.
\<close>

type_synonym 'v table = "(string \<times> 'v) list"

definition rows :: "'v table \<Rightarrow> 'v list" where
  "rows tb = map snd tb"

definition table_ok :: "('v \<Rightarrow> string) \<Rightarrow> 'v table \<Rightarrow> bool" where
  "table_ok idof tb \<longleftrightarrow> distinct (map fst tb) \<and> (\<forall>(k, v) \<in> set tb. idof v = k)"

lemma rows_simps [simp]: "rows [] = []" "rows ((k, v) # tb) = v # rows tb"
  by (simp_all add: rows_def)

lemma set_rows: "set (rows tb) = snd ` set tb"
  by (simp add: rows_def)

lemma table_okD:
  assumes "table_ok idof tb"
  shows "distinct (map fst tb)" and "(k, v) \<in> set tb \<Longrightarrow> idof v = k"
  using assms by (auto simp: table_ok_def)

lemma table_ok_Nil [simp]: "table_ok idof []"
  by (simp add: table_ok_def)

lemma lookup_mem_rows: "map_of tb k = Some v \<Longrightarrow> v \<in> set (rows tb)"
  by (force simp: set_rows dest: map_of_SomeD)

lemma rows_lookup_iff:
  assumes "table_ok idof tb"
  shows "v \<in> set (rows tb) \<longleftrightarrow> map_of tb (idof v) = Some v"
  using assms by (force simp: table_ok_def set_rows dest: map_of_SomeD)

lemma table_lookup_id: "table_ok idof tb \<Longrightarrow> map_of tb k = Some v \<Longrightarrow> idof v = k"
  by (auto simp: table_ok_def dest: map_of_SomeD)

lemma set_update_table:
  assumes "distinct (map fst tb)"
  shows "set (AList.update k v tb) = insert (k, v) {p \<in> set tb. fst p \<noteq> k}"
  using assms by (induction tb) (auto simp: image_iff split: if_splits)

lemma table_ok_update [intro]:
  "table_ok idof tb \<Longrightarrow> idof v = k \<Longrightarrow> table_ok idof (AList.update k v tb)"
  by (auto simp: table_ok_def distinct_update set_update_table)

lemma table_ok_filter [intro]: "table_ok idof tb \<Longrightarrow> table_ok idof (filter P tb)"
  by (auto simp: table_ok_def distinct_map_filter)

lemma table_ok_delete [intro]: "table_ok idof tb \<Longrightarrow> table_ok idof (AList.delete k tb)"
  by (simp add: AList.delete_eq table_ok_filter)

lemma table_ok_map_ran:
  "table_ok idof tb \<Longrightarrow> (\<And>v. idof (f v) = idof v) \<Longrightarrow> table_ok idof (map (map_prod id f) tb)"
  by (auto simp: table_ok_def)

lemma rows_update:
  assumes "distinct (map fst tb)"
  shows "set (rows (AList.update k v tb)) = insert v (snd ` {p \<in> set tb. fst p \<noteq> k})"
  using assms by (auto simp: set_rows set_update_table)

lemma rows_update_ok:
  assumes "table_ok idof tb" and "idof v = k"
  shows "set (rows (AList.update k v tb)) = insert v {x \<in> set (rows tb). idof x \<noteq> k}"
  using assms by (force simp: set_rows set_update_table table_ok_def)

lemma rows_delete_ok:
  assumes "table_ok idof tb"
  shows "set (rows (AList.delete k tb)) = {x \<in> set (rows tb). idof x \<noteq> k}"
  using assms by (force simp: set_rows table_ok_def AList.delete_eq)

lemma map_of_filter_table:
  assumes "table_ok idof tb"
  shows "map_of (filter (\<lambda>(_, v). P v) tb) k =
    (case map_of tb k of None \<Rightarrow> None | Some v \<Rightarrow> if P v then Some v else None)"
proof -
  have d: "distinct (map fst tb)" using assms by (rule table_okD)
  then show ?thesis
    by (induction tb) (auto split: option.splits dest: map_of_SomeD, (force dest: map_of_SomeD)+)
qed

lemma rows_filter_table: "rows (filter (\<lambda>(_, v). P v) tb) = filter P (rows tb)"
  by (induction tb) auto

lemma update_new: "k \<notin> fst ` set tb \<Longrightarrow> AList.update k v tb = tb @ [(k, v)]"
  by (induction tb) auto

lemma rows_update_new: "map_of tb k = None \<Longrightarrow> rows (AList.update k v tb) = rows tb @ [v]"
  by (simp add: update_new map_of_eq_None_iff rows_def)

lemma delete_append: "AList.delete k (xs @ ys) = AList.delete k xs @ AList.delete k ys"
  by (simp add: AList.delete_eq)

lemma update_decomp:
  assumes "map_of tb k = Some v" and "distinct (map fst tb)"
  obtains xs ys where "tb = xs @ (k, v) # ys" and "\<And>v'. AList.update k v' tb = xs @ (k, v') # ys"
    and "AList.delete k tb = xs @ ys"
proof -
  from assms(1) have "(k, v) \<in> set tb" by (rule map_of_SomeD)
  then obtain xs ys where tb: "tb = xs @ (k, v) # ys" by (auto dest: split_list)
  with assms(2) have nin: "k \<notin> fst ` set xs" "k \<notin> fst ` set ys" by auto
  have "AList.update k v' tb = xs @ (k, v') # ys" for v'
    using nin(1) unfolding tb by (induction xs) auto
  moreover have "AList.delete k tb = xs @ ys"
    using nin by (simp add: tb delete_append)
  ultimately show ?thesis using that tb by blast
qed

end
