(* ===== verification/GoStrings.thy ===== *)
theory GoStrings
  imports Prelude
begin

text \<open>
  The parts of Go's \<open>strings\<close>, \<open>unicode\<close> and \<open>unicode/utf8\<close> packages the service
  uses. A Go string is a sequence of bytes, and so is an Isabelle \<open>string\<close> (a \<open>char\<close> is
  a byte). A \<open>range\<close> loop over a string decodes UTF-8 and yields the replacement rune, one
  byte wide, for every byte that is not part of a valid encoding: \<open>chunks\<close> lists the
  runes of a string together with the bytes each was read from.

  Unicode case tables are data of the Go runtime. They enter the model as the record
  \<open>unicode\<close>, whose fields are the rune functions \<open>unicode.ToLower\<close>, the
  representative of a rune under \<open>unicode.SimpleFold\<close>, and \<open>unicode.IsPrint\<close>;
  it also holds which texts \<open>net.ParseIP\<close> accepts.
\<close>

section \<open>Runes\<close>

type_synonym rune = nat

definition byte :: "char \<Rightarrow> nat" where
  "byte c = of_char c"

definition RuneError :: rune where
  "RuneError = 0xFFFD"

definition cont :: "nat \<Rightarrow> bool" where
  "cont b \<longleftrightarrow> 0x80 \<le> b \<and> b \<le> 0xBF"

text \<open>\<open>utf8.DecodeRuneInString\<close>: the first rune and its width.\<close>

definition second_ok :: "nat \<Rightarrow> nat \<Rightarrow> bool" where
  "second_ok b0 b1 \<longleftrightarrow>
     (if b0 = 0xE0 then 0xA0 \<le> b1 \<and> b1 \<le> 0xBF
      else if b0 = 0xED then 0x80 \<le> b1 \<and> b1 \<le> 0x9F
      else if b0 = 0xF0 then 0x90 \<le> b1 \<and> b1 \<le> 0xBF
      else if b0 = 0xF4 then 0x80 \<le> b1 \<and> b1 \<le> 0x8F
      else cont b1)"

fun decode :: "nat list \<Rightarrow> rune \<times> nat" where
  "decode [] = (RuneError, 0)"
| "decode (b0 # bs) =
     (if b0 < 0x80 then (b0, 1)
      else if 0xC2 \<le> b0 \<and> b0 \<le> 0xDF then
        (case bs of
           b1 # _ \<Rightarrow> if second_ok b0 b1 then ((b0 - 0xC0) * 64 + (b1 - 0x80), 2) else (RuneError, 1)
         | _ \<Rightarrow> (RuneError, 1))
      else if 0xE0 \<le> b0 \<and> b0 \<le> 0xEF then
        (case bs of
           b1 # b2 # _ \<Rightarrow>
             if second_ok b0 b1 \<and> cont b2
             then ((b0 - 0xE0) * 4096 + (b1 - 0x80) * 64 + (b2 - 0x80), 3) else (RuneError, 1)
         | _ \<Rightarrow> (RuneError, 1))
      else if 0xF0 \<le> b0 \<and> b0 \<le> 0xF4 then
        (case bs of
           b1 # b2 # b3 # _ \<Rightarrow>
             if second_ok b0 b1 \<and> cont b2 \<and> cont b3
             then ((b0 - 0xF0) * 262144 + (b1 - 0x80) * 4096 + (b2 - 0x80) * 64 + (b3 - 0x80), 4)
             else (RuneError, 1)
         | _ \<Rightarrow> (RuneError, 1))
      else (RuneError, 1))"

lemma decode_width: "bs \<noteq> [] \<Longrightarrow> 0 < snd (decode bs) \<and> snd (decode bs) \<le> length bs"
  by (cases bs) (auto split: list.splits)

definition DecodeRune :: "string \<Rightarrow> rune \<times> nat" where
  "DecodeRune s = decode (map byte s)"

lemma DecodeRune_width: "s \<noteq> [] \<Longrightarrow> 0 < snd (DecodeRune s) \<and> snd (DecodeRune s) \<le> length s"
  using decode_width [of "map byte s"] by (simp add: DecodeRune_def)

text \<open>\<open>utf8.EncodeRune\<close>; runes that are not code points encode as the replacement rune.\<close>

definition enc_bytes :: "rune \<Rightarrow> nat list" where
  "enc_bytes r =
     (if r < 0x80 then [r]
      else if r < 0x800 then [0xC0 + r div 64, 0x80 + r mod 64]
      else if (0xD800 \<le> r \<and> r \<le> 0xDFFF) \<or> 0x110000 \<le> r then [0xEF, 0xBF, 0xBD]
      else if r < 0x10000 then [0xE0 + r div 4096, 0x80 + r div 64 mod 64, 0x80 + r mod 64]
      else [0xF0 + r div 262144, 0x80 + r div 4096 mod 64, 0x80 + r div 64 mod 64, 0x80 + r mod 64])"

definition EncodeRune :: "rune \<Rightarrow> string" where
  "EncodeRune r = map char_of (enc_bytes r)"

function chunks :: "string \<Rightarrow> (rune \<times> string) list" where
  "chunks [] = []"
| "chunks (c # s) =
     (let (r, n) = DecodeRune (c # s) in (r, take n (c # s)) # chunks (drop n (c # s)))"
  by pat_completeness auto
termination
proof (relation "measure length")
  fix c :: char and s x r n
  assume "x = DecodeRune (c # s)" and "(r, n) = x"
  then have "0 < n" using DecodeRune_width [of "c # s"] by (metis list.distinct(1) snd_conv)
  then show "(drop n (c # s), c # s) \<in> measure length" by simp
qed simp

lemma chunks_concat [simp]: "concat (map snd (chunks s)) = s"
  by (induction s rule: chunks.induct) (auto simp: Let_def split: prod.splits)

lemma chunks_ne: "(r, b) \<in> set (chunks s) \<Longrightarrow> b \<noteq> []"
proof (induction s rule: chunks.induct)
  case (2 c s)
  obtain q n where qn: "DecodeRune (c # s) = (q, n)" by fastforce
  then have "0 < n" using DecodeRune_width [of "c # s"] by simp
  with 2 qn show ?case by (auto simp: Let_def)
qed simp

definition runes :: "string \<Rightarrow> rune list" where
  "runes s = map fst (chunks s)"

definition RuneCountInString :: "string \<Rightarrow> nat" where
  "RuneCountInString s = length (chunks s)"

text \<open>\<open>utf8.ValidString\<close>: no byte decodes to a replacement rune of width one.\<close>

definition ValidString :: "string \<Rightarrow> bool" where
  "ValidString s \<longleftrightarrow> (\<forall>(r, b) \<in> set (chunks s). \<not> (r = RuneError \<and> length b = 1))"

definition ascii :: "string \<Rightarrow> bool" where
  "ascii s \<longleftrightarrow> (\<forall>c \<in> set s. byte c < 0x80)"

lemma chunks_ascii_Cons: "byte c < 0x80 \<Longrightarrow> chunks (c # s) = (byte c, [c]) # chunks s"
  by (simp add: DecodeRune_def chunks.simps(2))

declare chunks.simps(2) [simp del]

lemma chunks_ascii: "ascii s \<Longrightarrow> chunks s = map (\<lambda>c. (byte c, [c])) s"
  by (induction s) (simp_all add: ascii_def chunks_ascii_Cons)

lemma ValidString_ascii: "ascii s \<Longrightarrow> ValidString s"
  by (auto simp: ValidString_def chunks_ascii ascii_def RuneError_def)

lemma byte_char_of [simp]: "n < 256 \<Longrightarrow> byte (char_of n) = n"
  by (simp add: byte_def)

lemma byte_inj: "byte c = byte d \<longleftrightarrow> c = d"
  by (simp add: byte_def)

lemma byte_less: "byte c < 256"
  by (simp add: byte_def)

text \<open>\<open>strings.Map\<close>: every rune mapped, dropped when the mapping is negative (here \<open>None\<close>).\<close>

definition Map :: "(rune \<Rightarrow> rune option) \<Rightarrow> string \<Rightarrow> string" where
  "Map f s = concat (map (\<lambda>r. case f r of None \<Rightarrow> [] | Some r' \<Rightarrow> EncodeRune r') (runes s))"

section \<open>Unicode properties\<close>

record unicode =
  uToLower :: "rune \<Rightarrow> rune"
  uFold :: "rune \<Rightarrow> rune"
  uIsPrint :: "rune \<Rightarrow> bool"
  uParseIP :: "string \<Rightarrow> bool"

definition IsControl :: "rune \<Rightarrow> bool" where
  "IsControl r \<longleftrightarrow> r < 0x20 \<or> (0x7F \<le> r \<and> r \<le> 0x9F)"

definition IsSpace :: "rune \<Rightarrow> bool" where
  "IsSpace r \<longleftrightarrow> (0x09 \<le> r \<and> r \<le> 0x0D) \<or> r = 0x20 \<or> r = 0x85 \<or> r = 0xA0 \<or> r = 0x1680 \<or>
     (0x2000 \<le> r \<and> r \<le> 0x200A) \<or> r = 0x2028 \<or> r = 0x2029 \<or> r = 0x202F \<or> r = 0x205F \<or> r = 0x3000"

definition lower_ascii :: "rune \<Rightarrow> rune" where
  "lower_ascii r = (if 0x41 \<le> r \<and> r \<le> 0x5A then r + 0x20 else r)"

text \<open>The runtime tables restricted to ASCII, used to evaluate the model on concrete inputs.\<close>

definition ascii_tables :: unicode where
  "ascii_tables = \<lparr>uToLower = lower_ascii, uFold = lower_ascii,
     uIsPrint = (\<lambda>r. 0x20 \<le> r \<and> r < 0x7F), uParseIP = (\<lambda>_. False)\<rparr>"

definition lower_byte :: "char \<Rightarrow> char" where
  "lower_byte c = char_of (lower_ascii (byte c))"

text \<open>\<open>strings.ToLower\<close>: bytewise on ASCII, rune by rune through the tables otherwise.\<close>

definition ToLower :: "unicode \<Rightarrow> string \<Rightarrow> string" where
  "ToLower u s = (if ascii s then map lower_byte s else Map (\<lambda>r. Some (uToLower u r)) s)"

text \<open>\<open>strings.EqualFold\<close>: equal runes up to simple case folding.\<close>

definition EqualFold :: "unicode \<Rightarrow> string \<Rightarrow> string \<Rightarrow> bool" where
  "EqualFold u s t \<longleftrightarrow> map (uFold u) (runes s) = map (uFold u) (runes t)"

lemma EqualFold_refl [simp]: "EqualFold u s s"
  and EqualFold_sym: "EqualFold u s t \<Longrightarrow> EqualFold u t s"
  and EqualFold_trans: "EqualFold u s t \<Longrightarrow> EqualFold u t v \<Longrightarrow> EqualFold u s v"
  by (simp_all add: EqualFold_def)

lemma lower_byte_idem [simp]: "lower_byte (lower_byte c) = lower_byte c"
proof -
  have "lower_ascii (byte c) < 256" using byte_less [of c] by (auto simp: lower_ascii_def)
  then show ?thesis by (simp add: lower_byte_def) (simp add: lower_ascii_def)
qed

lemma ascii_lower_byte [simp]: "ascii s \<Longrightarrow> ascii (map lower_byte s)"
  by (auto simp: ascii_def lower_byte_def lower_ascii_def)

lemma ToLower_ascii_idem: "ascii s \<Longrightarrow> ToLower u (ToLower u s) = ToLower u s"
  by (simp add: ToLower_def)

section \<open>Trimming and splitting\<close>

definition trim_list :: "('a \<Rightarrow> bool) \<Rightarrow> 'a list \<Rightarrow> 'a list" where
  "trim_list P xs = rev (dropWhile P (rev (dropWhile P xs)))"

definition TrimSpace :: "string \<Rightarrow> string" where
  "TrimSpace s = concat (map snd (trim_list (IsSpace \<circ> fst) (chunks s)))"

definition TrimRight :: "string \<Rightarrow> string \<Rightarrow> string" where
  "TrimRight s cutset = rev (dropWhile (\<lambda>c. c \<in> set cutset) (rev s))"

definition TrimLeft :: "string \<Rightarrow> string \<Rightarrow> string" where
  "TrimLeft s cutset = dropWhile (\<lambda>c. c \<in> set cutset) s"

definition Trim :: "string \<Rightarrow> string \<Rightarrow> string" where
  "Trim s cutset = TrimRight (TrimLeft s cutset) cutset"

fun HasPrefix :: "string \<Rightarrow> string \<Rightarrow> bool" where
  "HasPrefix s [] = True"
| "HasPrefix [] (p # ps) = False"
| "HasPrefix (c # s) (p # ps) = (c = p \<and> HasPrefix s ps)"

lemma HasPrefix_iff: "HasPrefix s p \<longleftrightarrow> (\<exists>t. s = p @ t)"
  by (induction s p rule: HasPrefix.induct) auto

fun Contains :: "string \<Rightarrow> string \<Rightarrow> bool" where
  "Contains [] sub = (sub = [])"
| "Contains (c # s) sub = (HasPrefix (c # s) sub \<or> Contains s sub)"

lemma Contains_iff: "Contains s sub \<longleftrightarrow> (\<exists>a b. s = a @ sub @ b)"
proof (induction s)
  case (Cons c s)
  have "(\<exists>a b. c # s = a @ sub @ b) \<longleftrightarrow>
      (\<exists>b. c # s = sub @ b) \<or> (\<exists>a b. s = a @ sub @ b)" (is "?l \<longleftrightarrow> ?r")
  proof
    assume ?l
    then obtain a b where "c # s = a @ sub @ b" by blast
    then show ?r by (cases a) auto
  next
    assume ?r
    then show ?l by (metis append_Nil append_Cons)
  qed
  with Cons show ?case by (simp add: HasPrefix_iff)
qed simp

lemma Contains_appendI1: "Contains s sub \<Longrightarrow> Contains (s @ t) sub"
  unfolding Contains_iff by (metis append.assoc)

lemma Contains_appendI2: "Contains t sub \<Longrightarrow> Contains (s @ t) sub"
  unfolding Contains_iff by (metis append.assoc)

lemma Contains_self [simp]: "Contains s s"
  by (metis Contains_iff append_Nil append_Nil2)

text \<open>\<open>strings.ReplaceAll\<close> for a non-empty \<open>old\<close>: occurrences from the left, not overlapping.\<close>

function ReplaceAll :: "string \<Rightarrow> string \<Rightarrow> string \<Rightarrow> string" where
  "ReplaceAll [] old new = []"
| "ReplaceAll (c # s) old new =
     (if old \<noteq> [] \<and> HasPrefix (c # s) old
      then new @ ReplaceAll (drop (length old) (c # s)) old new
      else c # ReplaceAll s old new)"
  by pat_completeness auto
termination
  by (relation "measure (\<lambda>(s, old, new). length s)") (auto simp: neq_Nil_conv)

text \<open>\<open>strings.Fields\<close>: the maximal runs of non-space runes.\<close>

function fields_of :: "(rune \<times> string) list \<Rightarrow> string list" where
  "fields_of cs =
     (let rest = dropWhile (IsSpace \<circ> fst) cs
      in if rest = [] then []
         else concat (map snd (takeWhile (Not \<circ> IsSpace \<circ> fst) rest))
              # fields_of (dropWhile (Not \<circ> IsSpace \<circ> fst) rest))"
  by pat_completeness auto
termination
proof (relation "measure length")
  fix cs rest :: "(rune \<times> string) list"
  assume rest: "rest = dropWhile (IsSpace \<circ> fst) cs" and ne: "rest \<noteq> []"
  obtain x xs where x: "rest = x # xs" using ne by (metis neq_Nil_conv)
  then have "\<not> IsSpace (fst x)"
    using hd_dropWhile [of "IsSpace \<circ> fst" cs] rest by simp
  then have "length (dropWhile (Not \<circ> IsSpace \<circ> fst) rest) < length rest"
    using length_dropWhile_le [of _ xs] by (simp add: x less_Suc_eq_le)
  also have "\<dots> \<le> length cs" by (simp add: rest length_dropWhile_le)
  finally show "(dropWhile (Not \<circ> IsSpace \<circ> fst) rest, cs) \<in> measure length" by simp
qed simp

declare fields_of.simps [simp del]

lemma fields_eval:
  "fields_of [] = []"
  "IsSpace r \<Longrightarrow> fields_of ((r, b) # cs) = fields_of cs"
  "\<not> IsSpace r \<Longrightarrow> fields_of ((r, b) # cs) =
     concat (map snd (takeWhile (Not \<circ> IsSpace \<circ> fst) ((r, b) # cs))) # fields_of (dropWhile (Not \<circ> IsSpace \<circ> fst) ((r, b) # cs))"
proof -
  show "fields_of [] = []" by (subst fields_of.simps) simp
  show "fields_of ((r, b) # cs) = fields_of cs" if "IsSpace r"
    unfolding fields_of.simps [of "(r, b) # cs"] fields_of.simps [of cs] using that by simp
  show "fields_of ((r, b) # cs) =
     concat (map snd (takeWhile (Not \<circ> IsSpace \<circ> fst) ((r, b) # cs))) # fields_of (dropWhile (Not \<circ> IsSpace \<circ> fst) ((r, b) # cs))"
    if "\<not> IsSpace r"
    unfolding fields_of.simps [of "(r, b) # cs"] using that by (simp add: Let_def)
qed

definition Fields :: "string \<Rightarrow> string list" where
  "Fields s = fields_of (chunks s)"

fun Join :: "string list \<Rightarrow> string \<Rightarrow> string" where
  "Join [] sep = []"
| "Join [x] sep = x"
| "Join (x # y # xs) sep = x @ sep @ Join (y # xs) sep"

text \<open>\<open>strings.LastIndexByte\<close> and \<open>strings.Index\<close> of a single byte, as the split at it.\<close>

definition after_last :: "char \<Rightarrow> string \<Rightarrow> string option" where
  "after_last c s = (if c \<in> set s then Some (rev (takeWhile (\<lambda>x. x \<noteq> c) (rev s))) else None)"

definition before_first :: "char \<Rightarrow> string \<Rightarrow> string" where
  "before_first c s = takeWhile (\<lambda>x. x \<noteq> c) s"

section \<open>Control characters\<close>

text \<open>
  The \<open>hasControl\<close> helpers of \<open>tickets\<close>, \<open>tags\<close>, \<open>mailboxes\<close> and
  \<open>mailparse\<close>: a loop over the runes of the string.
\<close>

definition hasControl :: "string \<Rightarrow> bool \<Rightarrow> bool" where
  "hasControl v allowNewlines \<longleftrightarrow>
     (\<exists>r \<in> set (runes v). \<not> (allowNewlines \<and> (r = 10 \<or> r = 13 \<or> r = 9)) \<and> IsControl r)"

lemma TrimSpace_Nil [simp]: "TrimSpace [] = []"
  by (simp add: TrimSpace_def trim_list_def)

lemma set_trim_list: "set (trim_list P xs) \<subseteq> set xs"
  by (metis set_rev set_dropWhileD subsetI trim_list_def)

lemma trim_list_idem [simp]: "trim_list P (trim_list P xs) = trim_list P xs"
proof -
  let ?a = "dropWhile P (rev (dropWhile P xs))"
  have "dropWhile P (rev ?a) = rev ?a"
  proof (cases "rev ?a")
    case (Cons y ys)
    obtain zs where "rev (dropWhile P xs) = zs @ ?a" by (metis takeWhile_dropWhile_id)
    then have "dropWhile P xs = rev ?a @ rev zs" by (metis rev_append rev_rev_ident)
    with Cons have "hd (dropWhile P xs) = y" "dropWhile P xs \<noteq> []" by auto
    then have "\<not> P y" using hd_dropWhile by metis
    with Cons show ?thesis by simp
  next
    case Nil
    then show ?thesis by (simp only: dropWhile.simps)
  qed
  moreover have "dropWhile P ?a = ?a" by (rule dropWhile_idem)
  ultimately show ?thesis by (simp add: trim_list_def)
qed

section \<open>Mail addresses\<close>

text \<open>
  \<open>net/mail.ParseAddress\<close> as the services use it: they accept an input only when it parses
  and the parsed address is the input itself. A display name, angle brackets, quotes, comments and
  blanks all make the parsed address shorter than the input, so the test accepts exactly the bare
  \<open>local@domain\<close> forms: dot-atoms on both sides, or a domain literal holding an IP address.
\<close>

definition isAtext :: "rune \<Rightarrow> bool" where
  "isAtext r \<longleftrightarrow> r = 0x2E \<or>
     (r \<notin> {0x28, 0x29, 0x3C, 0x3E, 0x5B, 0x5D, 0x3A, 0x3B, 0x40, 0x5C, 0x2C, 0x22} \<and>
      (0x21 \<le> r \<and> r \<le> 0x7E \<or> 0x80 \<le> r))"

definition dotAtom :: "string \<Rightarrow> bool" where
  "dotAtom s \<longleftrightarrow> s \<noteq> [] \<and> ValidString s \<and> (\<forall>r \<in> set (runes s). isAtext r) \<and>
     hd s \<noteq> CHR ''.'' \<and> last s \<noteq> CHR ''.'' \<and> \<not> Contains s ''..''"

definition dtext :: "string \<Rightarrow> bool" where
  "dtext s \<longleftrightarrow> ValidString s \<and>
     (\<forall>r \<in> set (runes s). r \<notin> {0x5B, 0x5C, 0x5D} \<and> (0x21 \<le> r \<and> r \<le> 0x7E \<or> 0x80 \<le> r))"

definition bareAddress :: "unicode \<Rightarrow> string \<Rightarrow> bool" where
  "bareAddress u a \<longleftrightarrow>
     (let local = before_first CHR ''@'' a; rest = drop (Suc (length local)) a
      in CHR ''@'' \<in> set a \<and> dotAtom local \<and>
         (dotAtom rest \<or>
          (2 \<le> length rest \<and> hd rest = CHR ''['' \<and> last rest = CHR '']'' \<and>
           dtext (butlast (tl rest)) \<and> uParseIP u (butlast (tl rest)))))"

section \<open>ASCII text\<close>

text \<open>On ASCII text runes are bytes; these rules evaluate the functions above on literals.\<close>

lemma runes_ascii: "ascii s \<Longrightarrow> runes s = map byte s"
  by (simp add: runes_def chunks_ascii)

lemma trim_list_map: "trim_list P (map f xs) = map f (trim_list (P \<circ> f) xs)"
  by (simp add: trim_list_def dropWhile_map rev_map comp_def)

lemma concat_singletons: "concat (map (\<lambda>x. [x]) xs) = xs"
  by (induction xs) auto

lemma TrimSpace_ascii: "ascii s \<Longrightarrow> TrimSpace s = trim_list (IsSpace \<circ> byte) s"
  by (simp add: TrimSpace_def chunks_ascii trim_list_map comp_def concat_singletons)

lemma ascii_trim: "ascii s \<Longrightarrow> ascii (trim_list P s)"
  using set_trim_list [of P s] by (auto simp: ascii_def)

lemma ascii_Cons [simp]: "ascii (c # s) \<longleftrightarrow> byte c < 0x80 \<and> ascii s"
  by (simp add: ascii_def)

lemma ascii_Nil [simp]: "ascii []"
  by (simp add: ascii_def)

lemma ascii_append [simp]: "ascii (s @ t) \<longleftrightarrow> ascii s \<and> ascii t"
  by (auto simp: ascii_def)

lemma ToLower_ascii: "ascii s \<Longrightarrow> ToLower u s = map lower_byte s"
  by (simp add: ToLower_def)

lemmas str_eval = byte_def TrimSpace_ascii ToLower_ascii runes_ascii trim_list_def IsSpace_def
  lower_byte_def lower_ascii_def char_of_def bit_0

end
