(* ===== verification/StoreModel.thy ===== *)
theory StoreModel
  imports GoStrings "HOL-Library.Word"
begin

text \<open>
  The domain types of \<open>internal/store/models.go\<close> and the sort keys of
  \<open>internal/store/lists.go\<close>: one record per struct, one constant per enumerated string,
  and the validity checks over them. Times are nanoseconds since 1 January of year 1, UTC (so
  the zero \<open>time.Time\<close> is \<open>0\<close>); \<open>nil\<close>-able pointers are options.
\<close>

section \<open>Enumerated strings\<close>

definition StatusOpen :: string where "StatusOpen = ''open''"
definition StatusInProgress :: string where "StatusInProgress = ''in_progress''"
definition StatusPending :: string where "StatusPending = ''pending''"
definition StatusResolved :: string where "StatusResolved = ''resolved''"
definition StatusClosed :: string where "StatusClosed = ''closed''"

definition PriorityLow :: string where "PriorityLow = ''low''"
definition PriorityNormal :: string where "PriorityNormal = ''normal''"
definition PriorityHigh :: string where "PriorityHigh = ''high''"
definition PriorityUrgent :: string where "PriorityUrgent = ''urgent''"

definition SourceManual :: string where "SourceManual = ''manual''"
definition SourceEmail :: string where "SourceEmail = ''email''"

definition AuthorAgent :: string where "AuthorAgent = ''agent''"
definition AuthorRequester :: string where "AuthorRequester = ''requester''"
definition AuthorSystem :: string where "AuthorSystem = ''system''"

definition DeliveryNone :: string where "DeliveryNone = ''none''"
definition DeliverySent :: string where "DeliverySent = ''sent''"
definition DeliveryFailed :: string where "DeliveryFailed = ''failed''"

definition KindTag :: string where "KindTag = ''tag''"
definition KindCategory :: string where "KindCategory = ''category''"

definition MatchAll :: string where "MatchAll = ''all''"
definition MatchAny :: string where "MatchAny = ''any''"

definition ActionTag :: string where "ActionTag = ''tag''"
definition ActionAssign :: string where "ActionAssign = ''assign''"
definition ActionStatus :: string where "ActionStatus = ''status''"
definition ActionPriority :: string where "ActionPriority = ''priority''"
definition ActionDrop :: string where "ActionDrop = ''drop''"

definition FieldStatus :: string where "FieldStatus = ''status''"
definition FieldPriority :: string where "FieldPriority = ''priority''"
definition FieldAssignee :: string where "FieldAssignee = ''assignee''"

definition ActorAgent :: string where "ActorAgent = ''agent''"
definition ActorRule :: string where "ActorRule = ''rule''"
definition ActorInbound :: string where "ActorInbound = ''inbound''"
definition ActorSystem :: string where "ActorSystem = ''system''"

definition CreatedByInbound :: string where "CreatedByInbound = ''inbound-mail''"
definition AssigneeNone :: string where "AssigneeNone = ''none''"

lemmas store_consts =
  StatusOpen_def StatusInProgress_def StatusPending_def StatusResolved_def StatusClosed_def
  PriorityLow_def PriorityNormal_def PriorityHigh_def PriorityUrgent_def
  SourceManual_def SourceEmail_def AuthorAgent_def AuthorRequester_def AuthorSystem_def
  DeliveryNone_def DeliverySent_def DeliveryFailed_def KindTag_def KindCategory_def
  MatchAll_def MatchAny_def ActionTag_def ActionAssign_def ActionStatus_def ActionPriority_def
  ActionDrop_def FieldStatus_def FieldPriority_def FieldAssignee_def ActorAgent_def
  ActorRule_def ActorInbound_def ActorSystem_def CreatedByInbound_def AssigneeNone_def

lemma status_neq [simp]:
  "StatusOpen \<noteq> StatusInProgress" "StatusInProgress \<noteq> StatusOpen"
  "StatusOpen \<noteq> StatusPending" "StatusPending \<noteq> StatusOpen"
  "StatusOpen \<noteq> StatusResolved" "StatusResolved \<noteq> StatusOpen"
  "StatusOpen \<noteq> StatusClosed" "StatusClosed \<noteq> StatusOpen"
  "StatusInProgress \<noteq> StatusPending" "StatusPending \<noteq> StatusInProgress"
  "StatusInProgress \<noteq> StatusResolved" "StatusResolved \<noteq> StatusInProgress"
  "StatusInProgress \<noteq> StatusClosed" "StatusClosed \<noteq> StatusInProgress"
  "StatusPending \<noteq> StatusResolved" "StatusResolved \<noteq> StatusPending"
  "StatusPending \<noteq> StatusClosed" "StatusClosed \<noteq> StatusPending"
  "StatusResolved \<noteq> StatusClosed" "StatusClosed \<noteq> StatusResolved"
  by (simp_all add: store_consts)

lemma priority_neq [simp]:
  "PriorityLow \<noteq> PriorityNormal" "PriorityNormal \<noteq> PriorityLow"
  "PriorityLow \<noteq> PriorityHigh" "PriorityHigh \<noteq> PriorityLow"
  "PriorityLow \<noteq> PriorityUrgent" "PriorityUrgent \<noteq> PriorityLow"
  "PriorityNormal \<noteq> PriorityHigh" "PriorityHigh \<noteq> PriorityNormal"
  "PriorityNormal \<noteq> PriorityUrgent" "PriorityUrgent \<noteq> PriorityNormal"
  "PriorityHigh \<noteq> PriorityUrgent" "PriorityUrgent \<noteq> PriorityHigh"
  by (simp_all add: store_consts)

lemma const_neq [simp]:
  "SourceManual \<noteq> SourceEmail" "SourceEmail \<noteq> SourceManual"
  "KindTag \<noteq> KindCategory" "KindCategory \<noteq> KindTag"
  "MatchAll \<noteq> MatchAny" "MatchAny \<noteq> MatchAll"
  "DeliveryNone \<noteq> DeliverySent" "DeliverySent \<noteq> DeliveryNone"
  "DeliveryNone \<noteq> DeliveryFailed" "DeliveryFailed \<noteq> DeliveryNone"
  "DeliverySent \<noteq> DeliveryFailed" "DeliveryFailed \<noteq> DeliverySent"
  "AuthorAgent \<noteq> AuthorRequester" "AuthorRequester \<noteq> AuthorAgent"
  "AuthorAgent \<noteq> AuthorSystem" "AuthorSystem \<noteq> AuthorAgent"
  "AuthorRequester \<noteq> AuthorSystem" "AuthorSystem \<noteq> AuthorRequester"
  "FieldStatus \<noteq> FieldPriority" "FieldPriority \<noteq> FieldStatus"
  "FieldStatus \<noteq> FieldAssignee" "FieldAssignee \<noteq> FieldStatus"
  "FieldPriority \<noteq> FieldAssignee" "FieldAssignee \<noteq> FieldPriority"
  by (simp_all add: store_consts)

lemma action_neq [simp]:
  "ActionTag \<noteq> ActionAssign" "ActionAssign \<noteq> ActionTag"
  "ActionTag \<noteq> ActionStatus" "ActionStatus \<noteq> ActionTag"
  "ActionTag \<noteq> ActionPriority" "ActionPriority \<noteq> ActionTag"
  "ActionTag \<noteq> ActionDrop" "ActionDrop \<noteq> ActionTag"
  "ActionAssign \<noteq> ActionStatus" "ActionStatus \<noteq> ActionAssign"
  "ActionAssign \<noteq> ActionPriority" "ActionPriority \<noteq> ActionAssign"
  "ActionAssign \<noteq> ActionDrop" "ActionDrop \<noteq> ActionAssign"
  "ActionStatus \<noteq> ActionPriority" "ActionPriority \<noteq> ActionStatus"
  "ActionStatus \<noteq> ActionDrop" "ActionDrop \<noteq> ActionStatus"
  "ActionPriority \<noteq> ActionDrop" "ActionDrop \<noteq> ActionPriority"
  by (simp_all add: store_consts)

lemma const_nonempty [simp]:
  "StatusOpen \<noteq> []" "StatusInProgress \<noteq> []" "StatusPending \<noteq> []" "StatusResolved \<noteq> []"
  "StatusClosed \<noteq> []" "PriorityLow \<noteq> []" "PriorityNormal \<noteq> []" "PriorityHigh \<noteq> []"
  "PriorityUrgent \<noteq> []" "SourceManual \<noteq> []" "SourceEmail \<noteq> []" "KindTag \<noteq> []"
  "KindCategory \<noteq> []" "MatchAll \<noteq> []" "MatchAny \<noteq> []" "DeliveryNone \<noteq> []"
  "DeliverySent \<noteq> []" "DeliveryFailed \<noteq> []" "AssigneeNone \<noteq> []"
  by (simp_all add: store_consts)

definition Statuses :: "string list" where
  "Statuses = [StatusOpen, StatusInProgress, StatusPending, StatusResolved, StatusClosed]"

definition Priorities :: "string list" where
  "Priorities = [PriorityLow, PriorityNormal, PriorityHigh, PriorityUrgent]"

fun contains :: "string list \<Rightarrow> string \<Rightarrow> bool" where
  "contains [] v = False"
| "contains (x # xs) v = (x = v \<or> contains xs v)"

definition ValidStatus :: "string \<Rightarrow> bool" where
  "ValidStatus s = contains Statuses s"

definition ValidPriority :: "string \<Rightarrow> bool" where
  "ValidPriority p = contains Priorities p"

definition ValidKind :: "string \<Rightarrow> bool" where
  "ValidKind k \<longleftrightarrow> k = KindTag \<or> k = KindCategory"

definition Active :: "string \<Rightarrow> bool" where
  "Active status \<longleftrightarrow> status \<noteq> StatusResolved \<and> status \<noteq> StatusClosed"

lemma contains_iff: "contains xs v \<longleftrightarrow> v \<in> set xs"
  by (induction xs) auto

lemma ValidStatus_iff: "ValidStatus s \<longleftrightarrow> s \<in> set Statuses"
  by (simp add: ValidStatus_def contains_iff)

lemma ValidPriority_iff: "ValidPriority s \<longleftrightarrow> s \<in> set Priorities"
  by (simp add: ValidPriority_def contains_iff)

section \<open>Entities\<close>

type_synonym time = int

record ticket =
  tkID :: string
  tkTenantID :: string
  tkSubject :: string
  tkDescription :: string
  tkBodyHTML :: string
  tkStatus :: string
  tkPriority :: string
  tkSource :: string
  tkRequesterEmail :: string
  tkRequesterName :: string
  tkRecipient :: string
  tkMailboxID :: string
  tkExternalID :: string
  tkAssigneeID :: string
  tkAssigneeName :: string
  tkCommentCount :: int
  tkLastMessageID :: string
  tkCreatedBy :: string
  tkCreatedAt :: time
  tkUpdatedAt :: time
  tkResolvedAt :: "time option"

definition HasHTML :: "ticket \<Rightarrow> bool" where
  "HasHTML t \<longleftrightarrow> tkBodyHTML t \<noteq> []"

record comment =
  cmID :: string
  cmTenantID :: string
  cmTicketID :: string
  cmBody :: string
  cmInternal :: bool
  cmAuthorKind :: string
  cmAuthorID :: string
  cmAuthorName :: string
  cmAuthorEmail :: string
  cmMessageID :: string
  cmDelivery :: string
  cmCreatedAt :: time

record attachment =
  atID :: string
  atTenantID :: string
  atTicketID :: string
  atCommentID :: string
  atFilename :: string
  atContentType :: string
  atSize :: int
  atContentID :: string
  atInline :: bool
  atStorageKey :: string
  atChecksum :: string
  atCreatedAt :: time

definition AttachmentKey :: "string \<Rightarrow> string \<Rightarrow> string \<Rightarrow> string" where
  "AttachmentKey tenantID ticketID attachmentID =
     ''tenants/'' @ tenantID @ ''/tickets/'' @ ticketID @ ''/'' @ attachmentID"

record tag =
  tgID :: string
  tgTenantID :: string
  tgName :: string
  tgKind :: string
  tgColor :: string
  tgDescription :: string
  tgCreatedAt :: time

record taglink =
  tlTenantID :: string
  tlTicketID :: string
  tlTagID :: string

record condition =
  cnField :: string
  cnOperator :: string
  cnValue :: string

record action =
  acType :: string
  acTagKind :: string
  acTagNames :: "string list"
  acAssigneeID :: string
  acStatus :: string
  acPriority :: string

record rule =
  ruID :: string
  ruTenantID :: string
  ruName :: string
  ruEnabled :: bool
  ruSortOrder :: int
  ruMatch :: string
  ruConditions :: "condition list"
  ruExpression :: string
  ruActions :: "action list"
  ruVersion :: int
  ruCreatedAt :: time
  ruUpdatedAt :: time

record mailbox =
  mbID :: string
  mbTenantID :: string
  mbAddress :: string
  mbDisplayName :: string
  mbActive :: bool
  mbAutoAck :: bool
  mbAutoAckTemplate :: string
  mbCreatedAt :: time
  mbUpdatedAt :: time

record mailbox_route =
  rtTenantID :: string
  rtMailboxID :: string
  rtDisplayName :: string
  rtActive :: bool
  rtAutoAck :: bool
  rtAutoAckTemplate :: string

record history =
  hiID :: string
  hiTenantID :: string
  hiTicketID :: string
  hiField :: string
  hiOldValue :: string
  hiNewValue :: string
  hiActorKind :: string
  hiActorID :: string
  hiCreatedAt :: time

text \<open>The values a \<open>map[string]any\<close> holds: JSON data and error values.\<close>

datatype any =
    VNil
  | VStr string
  | VInt int
  | VBool bool
  | VList "any list"
  | VMap "(string \<times> any) list"
  | VErr string
  | VFloat "64 word"

record audit_row =
  auID :: string
  auTenantID :: string
  auAt :: time
  auActorKind :: string
  auActorID :: string
  auAction :: string
  auSubjectKind :: string
  auSubjectID :: string
  auOutcome :: string
  auReason :: string
  auDetail :: "(string \<times> any) list"

record ticket_filter =
  tfStatus :: string
  tfPriority :: string
  tfAssigneeID :: string
  tfTagID :: string
  tfQuery :: string

record ticket_patch =
  tpSubject :: "string option"
  tpDescription :: "string option"
  tpPriority :: "string option"

section \<open>Sort keys\<close>

definition StatusRank :: "string \<Rightarrow> int" where
  "StatusRank s =
     (if s = StatusOpen then 1 else if s = StatusInProgress then 2 else if s = StatusPending then 3
      else if s = StatusResolved then 4 else if s = StatusClosed then 5 else 0)"

definition PriorityRank :: "string \<Rightarrow> int" where
  "PriorityRank p =
     (if p = PriorityLow then 1 else if p = PriorityNormal then 2 else if p = PriorityHigh then 3
      else if p = PriorityUrgent then 4 else 0)"

text \<open>The dynamic type of a sort key: a string, an integer, a time, or \<open>nil\<close>.\<close>

datatype sort_val = KStr string | KInt int | KTime time | KNil

definition TicketSortKey :: "ticket \<Rightarrow> string \<Rightarrow> sort_val" where
  "TicketSortKey t field =
     (if field = ''subject'' then KStr (tkSubject t)
      else if field = ''status'' then KInt (StatusRank (tkStatus t))
      else if field = ''priority'' then KInt (PriorityRank (tkPriority t))
      else if field = ''assignee'' then
        (if tkAssigneeName t = [] then KNil else KStr (tkAssigneeName t))
      else if field = ''updated_at'' then KTime (tkUpdatedAt t)
      else KTime (tkCreatedAt t))"

lemma StatusRank_pos_iff: "0 < StatusRank s \<longleftrightarrow> ValidStatus s"
  by (auto simp: StatusRank_def ValidStatus_iff Statuses_def)

lemma StatusRank_inj: "ValidStatus s \<Longrightarrow> ValidStatus t \<Longrightarrow> StatusRank s = StatusRank t \<Longrightarrow> s = t"
  by (auto simp: StatusRank_def ValidStatus_iff Statuses_def split: if_splits)

lemma PriorityRank_pos_iff: "0 < PriorityRank s \<longleftrightarrow> ValidPriority s"
  by (auto simp: PriorityRank_def ValidPriority_iff Priorities_def)

text \<open>
  Object keys never collide across tenants: a tenant id without a slash is determined by the key.
\<close>

lemma AttachmentKey_tenant:
  assumes "CHR ''/'' \<notin> set a" and "CHR ''/'' \<notin> set b"
    and "AttachmentKey a t x = AttachmentKey b u y"
  shows "a = b"
proof -
  from assms(3) have "a @ CHR ''/'' # ''tickets/'' @ t @ ''/'' @ x = b @ CHR ''/'' # ''tickets/'' @ u @ ''/'' @ y"
    by (simp add: AttachmentKey_def)
  then have "takeWhile (\<lambda>c. c \<noteq> CHR ''/'') (a @ CHR ''/'' # ''tickets/'' @ t @ ''/'' @ x) =
      takeWhile (\<lambda>c. c \<noteq> CHR ''/'') (b @ CHR ''/'' # ''tickets/'' @ u @ ''/'' @ y)"
    by (rule arg_cong)
  then show ?thesis
    using assms(1,2) by (simp add: takeWhile_append takeWhile_eq_all_conv [THEN iffD2] split: if_splits)
qed

end
