(* ===== verification/StoreIds.thy ===== *)
theory StoreIds
  imports StoreModel "HOL-Library.Word"
begin

text \<open>
  The runtime a ticket service reads: the wall clock, \<open>crypto/rand\<close>, the Unicode tables and
  the package variables of \<open>internal/store/ids.go\<close>, with the identifier generator
  \<open>NewID\<close> over them. The clock and the random source are arbitrary sequences; every read
  advances a position, so two reads may see different values and the clock may step backwards.
\<close>

unbundle bit_operations_syntax

section \<open>The runtime\<close>

record rt =
  clock :: "nat \<Rightarrow> time"
  ticks :: nat
  entropy :: "nat \<Rightarrow> nat \<Rightarrow> 8 word"
  draws :: nat
  idLast :: "64 word"
  idSeq :: "16 word"
  ucd :: unicode

definition Now :: "('a rt_scheme, time) op" where
  "Now w = (Inr (clock w (ticks w)), w\<lparr>ticks := Suc (ticks w)\<rparr>)"

definition RandRead :: "('a rt_scheme, nat \<Rightarrow> 8 word) op" where
  "RandRead w = (Inr (entropy w (draws w)), w\<lparr>draws := Suc (draws w)\<rparr>)"

definition unixEpoch :: time where
  "unixEpoch = 62135596800 * 1000000000"

definition UnixMilli :: "time \<Rightarrow> 64 word" where
  "UnixMilli t = word_of_int ((t - unixEpoch) div 1000000)"

section \<open>Hexadecimal text\<close>

definition hexDigit :: "nat \<Rightarrow> char" where
  "hexDigit n = char_of (if n < 10 then 48 + n else 87 + n)"

definition hexByte :: "8 word \<Rightarrow> string" where
  "hexByte b = [hexDigit (unat b div 16), hexDigit (unat b mod 16)]"

definition EncodeToString :: "8 word list \<Rightarrow> string" where
  "EncodeToString bs = concat (map hexByte bs)"

section \<open>The generator\<close>

text \<open>
  The critical section of \<open>NewID\<close>: the new values of \<open>idLast\<close> and \<open>idSeq\<close>, the
  first of which is also the timestamp used.
\<close>

definition nextStamp :: "64 word \<Rightarrow> (nat \<Rightarrow> 8 word) \<Rightarrow> 64 word \<Rightarrow> 16 word \<Rightarrow> 64 word \<times> 16 word" where
  "nextStamp ms b lst sq =
     (if sint ms \<le> sint lst then
        (let sq' = sq + 1
         in if push_bit 12 1 \<le> sq' then (lst + 1, 0) else (lst, sq'))
      else (ms, push_bit 8 (ucast (b 6 AND 0x07)) OR ucast (b 7)))"

definition idBytes :: "64 word \<Rightarrow> 16 word \<Rightarrow> (nat \<Rightarrow> 8 word) \<Rightarrow> 8 word list" where
  "idBytes u seq b =
     [ucast (drop_bit 40 u), ucast (drop_bit 32 u), ucast (drop_bit 24 u), ucast (drop_bit 16 u),
      ucast (drop_bit 8 u), ucast u,
      0x70 OR (ucast (drop_bit 8 seq) AND 0x0f), ucast (seq AND 0xff),
      (b 8 AND 0x3f) OR 0x80, b 9, b 10, b 11, b 12, b 13, b 14, b 15]"

definition slice :: "nat \<Rightarrow> nat \<Rightarrow> 'a list \<Rightarrow> 'a list" where
  "slice i j xs = take (j - i) (drop i xs)"

definition idText :: "8 word list \<Rightarrow> string" where
  "idText bs =
     (let h = EncodeToString bs
      in slice 0 8 h @ ''-'' @ slice 8 12 h @ ''-'' @ slice 12 16 h @ ''-'' @ slice 16 20 h @ ''-''
         @ slice 20 32 h)"

definition NewID :: "('a rt_scheme, string) op" where
  "NewID =
     bnd RandRead (\<lambda>b.
     bnd Now (\<lambda>t.
     bnd (fetch (\<lambda>w. nextStamp (UnixMilli t) b (idLast w) (idSeq w))) (\<lambda>(ms, seq).
     bnd (modify (\<lambda>w. w\<lparr>idLast := ms, idSeq := seq\<rparr>)) (\<lambda>_.
     ret (idText (idBytes ms seq b))))))"

lemma Now_eq: "Now w = (Inr (clock w (ticks w)), w\<lparr>ticks := Suc (ticks w)\<rparr>)"
  by (simp add: Now_def)

text \<open>\<open>NewID\<close> always returns an id and touches only the generator, the clock and the source.\<close>

definition mintID :: "'a rt_scheme \<Rightarrow> string" where
  "mintID w = (let (ms, seq) = nextStamp (UnixMilli (clock w (ticks w))) (entropy w (draws w)) (idLast w) (idSeq w)
     in idText (idBytes ms seq (entropy w (draws w))))"

definition afterID :: "'a rt_scheme \<Rightarrow> 'a rt_scheme" where
  "afterID w = (let (ms, seq) = nextStamp (UnixMilli (clock w (ticks w))) (entropy w (draws w)) (idLast w) (idSeq w)
     in w\<lparr>ticks := Suc (ticks w), draws := Suc (draws w), idLast := ms, idSeq := seq\<rparr>)"

lemma NewID_eq: "NewID w = (Inr (mintID w), afterID w)"
  by (simp add: NewID_def mintID_def afterID_def op_defs RandRead_def Now_def Let_def
      split: prod.splits)

section \<open>Order of the identifiers\<close>

lemma lex_append_less: "length xs = length ys \<Longrightarrow> xs < ys \<Longrightarrow> xs @ us < ys @ (vs :: 'a::linorder list)"
  by (induction xs ys rule: list_induct2) auto

lemma lex_same_prefix: "xs @ us < xs @ vs \<longleftrightarrow> us < (vs :: 'a::linorder list)"
  by (induction xs) auto

lemma hexDigit_less: "m < n \<Longrightarrow> n < 16 \<Longrightarrow> hexDigit m < hexDigit n"
  by (simp add: hexDigit_def less_char_def)

lemma hexByte_less: "unat a < unat b \<Longrightarrow> hexByte a < hexByte b"
proof -
  assume ab: "unat a < unat b"
  have b: "unat b < 256" using unsigned_less [of b, where 'a = nat] by simp
  show ?thesis
  proof (cases "unat a div 16 = unat b div 16")
    case True
    then have "unat a mod 16 < unat b mod 16"
      using ab by (metis div_mult_mod_eq nat_add_left_cancel_less)
    then show ?thesis by (simp add: hexByte_def True hexDigit_less)
  next
    case False
    then have "unat a div 16 < unat b div 16" using ab by (simp add: div_le_mono le_neq_implies_less)
    moreover have "unat b div 16 < 16" using b by (simp add: less_mult_imp_div_less)
    ultimately show ?thesis by (simp add: hexByte_def hexDigit_less)
  qed
qed

lemma length_hexByte [simp]: "length (hexByte b) = 2"
  by (simp add: hexByte_def)

lemma EncodeToString_Cons: "EncodeToString (b # bs) = hexByte b @ EncodeToString bs"
  by (simp add: EncodeToString_def)

lemma idText_16:
  "idText [a,b,c,d,e,f,g,h,i,j,k,l,m,n,p,q] =
     hexByte a @ hexByte b @ hexByte c @ hexByte d @ ''-'' @ hexByte e @ hexByte f @ ''-'' @
     hexByte g @ hexByte h @ ''-'' @ hexByte i @ hexByte j @ ''-'' @
     hexByte k @ hexByte l @ hexByte m @ hexByte n @ hexByte p @ hexByte q"
  by (simp add: idText_def EncodeToString_def slice_def hexByte_def Let_def)

lemma idText_less:
  assumes "map unat [a,b,c,d,e,f,g,h] < map unat [a',b',c',d',e',f',g',h']"
  shows "idText [a,b,c,d,e,f,g,h,i,j,k,l,m,n,p,q] < idText [a',b',c',d',e',f',g',h',i',j',k',l',m',n',p',q']"
  using assms unfolding idText_16 list.map Cons_less_Cons
  by (elim disjE conjE) (simp_all add: lex_same_prefix lex_append_less hexByte_less word_eq_iff_unsigned [symmetric])

text \<open>The bytes of a number, most significant first.\<close>

fun be :: "nat \<Rightarrow> nat \<Rightarrow> nat list" where
  "be 0 x = []"
| "be (Suc n) x = be n (x div 256) @ [x mod 256]"

lemma length_be [simp]: "length (be n x) = n"
  by (induction n arbitrary: x) auto

lemma be_less: "x < y \<Longrightarrow> y < 256 ^ n \<Longrightarrow> be n x < be n y"
proof (induction n arbitrary: x y)
  case (Suc n)
  show ?case
  proof (cases "x div 256 = y div 256")
    case True
    then have "x mod 256 < y mod 256"
      using Suc.prems(1) by (metis div_mult_mod_eq nat_add_left_cancel_less)
    with True show ?thesis by (simp add: lex_same_prefix)
  next
    case False
    then have "x div 256 < y div 256" using Suc.prems(1) by (simp add: div_le_mono le_neq_implies_less)
    moreover have "y div 256 < 256 ^ n" using Suc.prems(2) by (simp add: less_mult_imp_div_less mult.commute)
    ultimately show ?thesis using Suc.IH by (simp add: lex_append_less)
  qed
qed simp

lemma unat_shr: "unat (drop_bit n (u :: 'l::len word)) = unat u div 2 ^ n"
  unfolding unat_drop_bit_eq by (rule drop_bit_eq_div)

lemma unat_byte_of [simp]:
  "unat (ucast (drop_bit n (u :: 64 word)) :: 8 word) = unat u div 2 ^ n mod 256"
  "unat (ucast (u :: 64 word) :: 8 word) = unat u mod 256"
  by (simp_all only: unsigned_ucast_eq unat_shr take_bit_eq_mod) simp_all

lemma be_6:
  "be 6 x = [x div 2 ^ 40 mod 256, x div 2 ^ 32 mod 256, x div 2 ^ 24 mod 256,
     x div 2 ^ 16 mod 256, x div 2 ^ 8 mod 256, x mod 256]"
proof -
  have "6 = Suc (Suc (Suc (Suc (Suc (Suc (0 :: nat))))))" by simp
  then have "be 6 x = be (Suc (Suc (Suc (Suc (Suc (Suc 0)))))) x" by (rule arg_cong)
  also have "\<dots> = [x div 2 ^ 40 mod 256, x div 2 ^ 32 mod 256, x div 2 ^ 24 mod 256,
     x div 2 ^ 16 mod 256, x div 2 ^ 8 mod 256, x mod 256]"
    by (simp add: div_mult2_eq [symmetric])
  finally show ?thesis .
qed

lemma stamp_bytes: "map unat (take 6 (idBytes u seq b)) = be 6 (unat u)"
  unfolding be_6 by (simp add: idBytes_def unat_shr)

lemma version_byte:
  "unat (0x70 OR (x AND 0x0f) :: 8 word) = 0x70 + unat x mod 16"
proof -
  have x: "x AND 0x0f = take_bit 4 x" by (simp add: take_bit_eq_mask mask_eq_exp_minus_1)
  have "\<not> bit (0x70 :: 8 word) n" if "n < 4" for n
  proof -
    from that have "n = 0 \<or> n = 1 \<or> n = 2 \<or> n = 3" by linarith
    then show ?thesis by auto
  qed
  then have "0x70 AND take_bit 4 x = (0 :: 8 word)"
    by (intro bit_eqI) (auto simp: bit_simps)
  then have "0x70 OR take_bit 4 x = 0x70 + take_bit 4 x" by (simp add: disjunctive_add_eq_or)
  moreover have t: "unat (take_bit 4 x) = unat x mod 16"
    unfolding unsigned_take_bit_eq by (simp add: take_bit_eq_mod)
  moreover have "unat (0x70 :: 8 word) + unat (take_bit 4 x) < 2 ^ LENGTH(8)"
  proof -
    have "unat x mod 16 < 16" by simp
    then show ?thesis unfolding t by simp
  qed
  then have "unat (0x70 + take_bit 4 x) = unat (0x70 :: 8 word) + unat (take_bit 4 x)"
    by (rule unat_add_lem [THEN iffD1])
  ultimately show ?thesis by (simp add: x)
qed

lemma seq_bytes:
  assumes "unat seq < 4096"
  shows "unat (0x70 OR (ucast (drop_bit 8 (seq :: 16 word)) AND 0x0f) :: 8 word) = 0x70 + unat seq div 256"
    and "unat (ucast (seq AND 0xff) :: 8 word) = unat seq mod 256"
proof -
  have "unat (ucast (drop_bit 8 seq) :: 8 word) = unat seq div 256 mod 256"
    by (simp only: unsigned_ucast_eq unat_shr take_bit_eq_mod) simp
  moreover have "unat seq div 256 < 16" using assms by (simp add: less_mult_imp_div_less)
  ultimately show "unat (0x70 OR (ucast (drop_bit 8 (seq :: 16 word)) AND 0x0f) :: 8 word) = 0x70 + unat seq div 256"
    by (simp add: version_byte)
  have "seq AND 0xff = take_bit 8 seq" by (simp add: take_bit_eq_mask mask_eq_exp_minus_1)
  then show "unat (ucast (seq AND 0xff) :: 8 word) = unat seq mod 256"
    by (simp only: unsigned_ucast_eq unsigned_take_bit_eq) (simp add: take_bit_eq_mod)
qed

text \<open>The order of two ids is the order of their stamps, whatever the random bytes.\<close>

lemma idText_stamp_less:
  assumes "unat u < unat u' \<or> u = u' \<and> unat s < unat s'"
    and "unat u' < 2 ^ 48" and "unat s < 4096" and "unat s' < 4096"
  shows "idText (idBytes u s b) < idText (idBytes u' s' b')"
proof -
  have arith: "(0x7000 + n) div 256 = 0x70 + n div 256" "(0x7000 + n) mod 256 = n mod 256" for n :: nat
    using div_mult_self1 [of 256 n "0x70"] mod_mult_self1 [of n "0x70" 256] by (simp_all add: add.commute)
  have hi: "map unat (take 8 (idBytes u s b)) = be 6 (unat u) @ be 2 (0x7000 + unat s)"
    if "unat s < 4096" for u :: "64 word" and s :: "16 word" and b
    using seq_bytes [OF that] that stamp_bytes [of u s b] by (simp add: idBytes_def numeral_2_eq_2 arith)
  have "be 6 (unat u) @ be 2 (0x7000 + unat s) < be 6 (unat u') @ be 2 (0x7000 + unat s')"
    using assms be_less [of "unat u" "unat u'" 6] be_less [of "0x7000 + unat s" "0x7000 + unat s'" 2]
    by (auto simp: lex_same_prefix intro: lex_append_less)
  then have "map unat (take 8 (idBytes u s b)) < map unat (take 8 (idBytes u' s' b'))"
    using assms(3,4) by (simp add: hi)
  then show ?thesis
    unfolding idBytes_def by (intro idText_less) simp
qed

lemma unat_sint: "0 \<le> sint (x :: 'l::len word) \<Longrightarrow> int (unat x) = sint x"
proof -
  assume "0 \<le> sint x"
  moreover have "sint x < 2 ^ LENGTH('l)"
    using sint_lt [of x] by (rule less_le_trans) (simp add: power_increasing)
  ultimately have "uint x = sint x" by (simp add: uint_sint take_bit_int_eq_self)
  then show ?thesis by simp
qed

lemma start_seq_less: "unat (push_bit 8 (ucast ((x :: 8 word) AND 0x07)) OR ucast (y :: 8 word) :: 16 word) < 4096"
proof -
  let ?a = "push_bit 8 (ucast (x AND 0x07)) :: 16 word" and ?b = "ucast y :: 16 word"
  have "x AND 0x07 = take_bit 3 x" by (simp add: take_bit_eq_mask mask_eq_exp_minus_1)
  then have "take_bit 12 (?a OR ?b) = ?a OR ?b"
    by (intro bit_eqI) (auto simp: bit_simps dest: bit_imp_le_length)
  then have "unat (?a OR ?b) = unat (take_bit 12 (?a OR ?b))" by simp
  also have "\<dots> = unat (?a OR ?b) mod 4096"
    unfolding unsigned_take_bit_eq by (simp add: take_bit_eq_mod)
  also have "\<dots> < 4096" by simp
  finally show ?thesis .
qed

lemma sint_succ:
  assumes "0 \<le> sint (x :: 64 word)" and "sint x < 2 ^ 48"
  shows "sint (x + 1) = sint x + 1"
  using assms by (simp add: sint_word_add signed_take_bit_int_eq_self)

lemma nextStamp_less:
  fixes lst ms :: "64 word" and sq :: "16 word"
  assumes lst: "0 \<le> sint lst" "sint lst < M" and ms: "sint ms < M" and M: "M < 2 ^ 48"
    and sq: "unat sq < 4096" and st: "nextStamp ms b lst sq = (lst', sq')"
  shows "unat lst < unat lst' \<or> lst' = lst \<and> unat sq < unat sq'"
    and "0 \<le> sint lst'" and "sint lst' < M + 1" and "unat sq' < 4096"
proof -
  have le: "4096 \<le> v \<longleftrightarrow> 4096 \<le> unat v" for v :: "16 word"
    by (simp add: word_le_nat_alt)
  have s1: "unat (sq + 1) = unat sq + 1"
    using sq unat_add_lem [of sq 1] by simp
  have lst1: "sint (lst + 1) = sint lst + 1" using lst M by (simp add: sint_succ)
  have up: "unat u < unat v" if "0 \<le> sint u" "sint u < sint v" for u v :: "64 word"
    using unat_sint [of u] unat_sint [of v] that by linarith
  consider (old) "sint ms \<le> sint lst" "unat sq + 1 < 4096" "lst' = lst" "sq' = sq + 1"
    | (borrow) "sint ms \<le> sint lst" "lst' = lst + 1" "sq' = 0"
    | (fresh) "sint lst < sint ms" "lst' = ms" "sq' = push_bit 8 (ucast (b 6 AND 0x07)) OR ucast (b 7)"
    using st s1 by (auto simp: nextStamp_def Let_def le split: if_splits)
  then have "(unat lst < unat lst' \<or> lst' = lst \<and> unat sq < unat sq') \<and> 0 \<le> sint lst' \<and>
      sint lst' < M + 1 \<and> unat sq' < 4096"
  proof cases
    case old
    with lst s1 show ?thesis by simp
  next
    case borrow
    with lst lst1 up [of lst "lst + 1"] show ?thesis by simp
  next
    case fresh
    with lst ms up [of lst ms] start_seq_less show ?thesis by simp
  qed
  then show "unat lst < unat lst' \<or> lst' = lst \<and> unat sq < unat sq'"
    and "0 \<le> sint lst'" and "sint lst' < M + 1" and "unat sq' < 4096" by blast+
qed

text \<open>The generator's package variables and a bound on the clock, in milliseconds.\<close>

definition ids_ok :: "int \<Rightarrow> 'a rt_scheme \<Rightarrow> bool" where
  "ids_ok M w \<longleftrightarrow> 0 \<le> sint (idLast w) \<and> sint (idLast w) < M \<and> unat (idSeq w) < 4096 \<and>
     (\<forall>k. sint (UnixMilli (clock w k)) < M)"

text \<open>\<open>n\<close> ids minted in a row.\<close>

fun NewIDs :: "nat \<Rightarrow> ('a rt_scheme, string list) op" where
  "NewIDs 0 = ret []"
| "NewIDs (Suc n) = bnd NewID (\<lambda>i. bnd (NewIDs n) (\<lambda>is. ret (i # is)))"

definition stamp_lt :: "'a rt_scheme \<Rightarrow> 'b rt_scheme \<Rightarrow> bool" where
  "stamp_lt w v \<longleftrightarrow>
     unat (idLast w) < unat (idLast v) \<or> idLast w = idLast v \<and> unat (idSeq w) < unat (idSeq v)"

lemma stamp_lt_trans: "stamp_lt u v \<Longrightarrow> stamp_lt v w \<Longrightarrow> stamp_lt u w"
  by (auto simp: stamp_lt_def)

lemma afterID_step:
  assumes "ids_ok M w" and "M < 2 ^ 48"
  shows "stamp_lt w (afterID w)" and "ids_ok (M + 1) (afterID w)"
    and "\<exists>b. mintID w = idText (idBytes (idLast (afterID w)) (idSeq (afterID w)) b)"
proof -
  obtain ms seq where st:
    "nextStamp (UnixMilli (clock w (ticks w))) (entropy w (draws w)) (idLast w) (idSeq w) = (ms, seq)"
    by fastforce
  then have w': "idLast (afterID w) = ms" "idSeq (afterID w) = seq" "clock (afterID w) = clock w"
    by (simp_all add: afterID_def)
  have pre: "0 \<le> sint (idLast w)" "sint (idLast w) < M" "sint (UnixMilli (clock w (ticks w))) < M"
    "unat (idSeq w) < 4096" using assms(1) by (simp_all add: ids_ok_def)
  note less = nextStamp_less [OF pre(1,2,3) assms(2) pre(4) st]
  then show "stamp_lt w (afterID w)" "ids_ok (M + 1) (afterID w)"
    using assms(1) by (auto simp: stamp_lt_def ids_ok_def w' intro: less_imp_le)
  show "\<exists>b. mintID w = idText (idBytes (idLast (afterID w)) (idSeq (afterID w)) b)"
    by (auto simp: mintID_def st w')
qed

lemma ids_ok_mono: "ids_ok M w \<Longrightarrow> M \<le> N \<Longrightarrow> ids_ok N w"
  unfolding ids_ok_def by (meson order_less_le_trans)

lemma NewIDs_stamps:
  fixes w :: "'a rt_scheme"
  assumes "ids_ok M w" and "M + int n \<le> 2 ^ 48" and "NewIDs n w = (Inr is, w')"
  shows "\<forall>i \<in> set is. \<exists>v b. i = idText (idBytes (idLast v) (idSeq v) b) \<and>
      stamp_lt w (v :: 'a rt_scheme) \<and> ids_ok (2 ^ 48) v"
    and "sorted_wrt (<) is"
  using assms
proof (induction n arbitrary: M w "is" w')
  case (Suc n)
  { case 1
    then obtain is' where is': "is = mintID w # is'" "NewIDs n (afterID w) = (Inr is', w')"
      by (auto simp: op_iffs NewID_eq)
    have M: "M < 2 ^ 48" "M + 1 + int n \<le> 2 ^ 48" using 1 by simp_all
    note step = afterID_step [OF 1(1) M(1)]
    have "ids_ok (2 ^ 48) (afterID w)" using step(2) M by (auto intro: ids_ok_mono)
    with step(1,3) have "\<exists>v b. mintID w = idText (idBytes (idLast v) (idSeq v) b) \<and>
        stamp_lt w (v :: 'a rt_scheme) \<and> ids_ok (2 ^ 48) v" by blast
    moreover have "\<exists>v b. i = idText (idBytes (idLast v) (idSeq v) b) \<and>
        stamp_lt w (v :: 'a rt_scheme) \<and> ids_ok (2 ^ 48) v" if "i \<in> set is'" for i
      using Suc.IH(1) [OF step(2) M(2) is'(2)] that stamp_lt_trans [OF step(1)] by blast
    ultimately show ?case by (simp only: is'(1) list.set ball_simps) blast
  next
    case 2
    then obtain is' where is': "is = mintID w # is'" "NewIDs n (afterID w) = (Inr is', w')"
      by (auto simp: op_iffs NewID_eq)
    have M: "M < 2 ^ 48" "M + 1 + int n \<le> 2 ^ 48" using 2 by simp_all
    note step = afterID_step [OF 2(1) M(1)]
    have sq: "unat (idSeq (afterID w)) < 4096" using step(2) by (simp add: ids_ok_def)
    have "mintID w < i" if "i \<in> set is'" for i
    proof -
      from Suc.IH(1) [OF step(2) M(2) is'(2)] that obtain v :: "'a rt_scheme" and b
        where i: "i = idText (idBytes (idLast v) (idSeq v) b)" and
          lt: "stamp_lt (afterID w) v" and v: "ids_ok (2 ^ 48) v" by blast
      have "int (unat (idLast v)) < 2 ^ 48" using v unat_sint unfolding ids_ok_def by metis
      then have "unat (idLast v) < 2 ^ 48" by (metis of_nat_less_iff of_nat_numeral of_nat_power)
      then show ?thesis
        using step(3) lt v sq unfolding i stamp_lt_def
        by (auto simp: ids_ok_def intro!: idText_stamp_less)
    qed
    then show ?case using Suc.IH(2) [OF step(2) M(2) is'(2)] by (simp add: is'(1))
  }
qed (auto simp: op_iffs)

text \<open>
  C28: identifiers are creation-ordered. However the clock behaves (standing still or stepping
  back) and whatever the random bytes are, the ids minted one after the other are strictly
  increasing as text, as long as the timestamp stays within its 48 bits.
\<close>

theorem NewID_increasing:
  fixes w :: "'a rt_scheme"
  assumes "ids_ok M w" and "M + int n \<le> 2 ^ 48" and "NewIDs n w = (r, w')"
  shows "\<exists>is. r = Inr is \<and> length is = n \<and> sorted_wrt (<) is"
proof -
  have tot: "\<exists>is v. NewIDs n (w :: 'a rt_scheme) = (Inr is, v) \<and> length is = n" for w
  proof (induction n arbitrary: w)
    case (Suc n)
    obtain is' v where "NewIDs n (afterID w) = (Inr is', v)" "length is' = n" using Suc by blast
    then show ?case by (simp add: op_defs NewID_eq)
  qed (simp add: op_defs)
  then obtain "is" v where "NewIDs n w = (Inr is, v)" "length is = n" by blast
  then show ?thesis using assms NewIDs_stamps(2) [OF assms(1,2)] by fastforce
qed

definition demo_rt :: rt where
  "demo_rt = \<lparr>clock = (\<lambda>_. unixEpoch + 1700000000000000000), ticks = 0,
     entropy = (\<lambda>_ _. 0xff), draws = 0, idLast = 0, idSeq = 0, ucd = ascii_tables\<rparr>"

theorem NewID_increasing_witness:
  "\<exists>is. fst (NewIDs 3 demo_rt) = Inr is \<and> length is = 3 \<and> sorted_wrt (<) is"
proof -
  have "ids_ok (2 ^ 47) demo_rt"
    by (simp add: ids_ok_def demo_rt_def UnixMilli_def sint_uint signed_take_bit_int_eq_self)
  moreover have "(2 :: int) ^ 47 + int 3 \<le> 2 ^ 48" by simp
  ultimately show ?thesis
    using NewID_increasing [of "2 ^ 47" demo_rt 3 "fst (NewIDs 3 demo_rt)" "snd (NewIDs 3 demo_rt)"] by simp
qed

lemma variant_byte: "unat ((x AND 0x3f) OR 0x80 :: 8 word) = 0x80 + unat x mod 64"
proof -
  have x: "x AND 0x3f = take_bit 6 x" by (simp add: take_bit_eq_mask mask_eq_exp_minus_1)
  have "\<not> bit (0x80 :: 8 word) n" if "n < 6" for n
  proof -
    from that have "n = 0 \<or> n = 1 \<or> n = 2 \<or> n = 3 \<or> n = 4 \<or> n = 5" by linarith
    then show ?thesis by auto
  qed
  then have "take_bit 6 x AND 0x80 = (0 :: 8 word)"
    by (intro bit_eqI) (auto simp: bit_simps)
  then have "take_bit 6 x OR 0x80 = take_bit 6 x + 0x80" by (simp add: disjunctive_add_eq_or)
  moreover have t: "unat (take_bit 6 x) = unat x mod 64"
    unfolding unsigned_take_bit_eq by (simp add: take_bit_eq_mod)
  moreover have "unat (take_bit 6 x) + unat (0x80 :: 8 word) < 2 ^ LENGTH(8)"
  proof -
    have "unat x mod 64 < 64" by simp
    then show ?thesis unfolding t by simp
  qed
  then have "unat (take_bit 6 x + 0x80) = unat (take_bit 6 x) + unat (0x80 :: 8 word)"
    by (rule unat_add_lem [THEN iffD1])
  ultimately show ?thesis by (simp add: x)
qed

lemma hexDigit_eval:
  "hexDigit 7 = CHR ''7''" "hexDigit 8 = CHR ''8''" "hexDigit 9 = CHR ''9''"
  "hexDigit 10 = CHR ''a''" "hexDigit 11 = CHR ''b''"
  by code_simp+

lemma version_digit: "hexDigit (unat (0x70 OR (x AND 0x0f) :: 8 word) div 16) = CHR ''7''"
proof -
  have "(0x70 + unat x mod 16) div 16 = 7" by (simp add: div_add1_eq)
  then show ?thesis unfolding version_byte by (simp add: hexDigit_eval)
qed

lemma variant_digit: "hexDigit (unat ((x AND 0x3f) OR 0x80 :: 8 word) div 16) \<in> set ''89ab''"
proof -
  have "(0x80 + unat x mod 64) div 16 = 8 + unat x mod 64 div 16" by (simp add: div_add1_eq)
  moreover have "unat x mod 64 div 16 < 4" by (simp add: less_mult_imp_div_less)
  then have "unat x mod 64 div 16 \<in> {0, 1, 2, 3}" by auto
  ultimately show ?thesis unfolding variant_byte by (auto simp: hexDigit_eval)
qed

text \<open>
  Every id is canonical UUIDv7 text: thirty-six characters, dashes at 8, 13, 18 and 23, the
  version digit 7 and one of the four variant digits.
\<close>

theorem NewID_layout:
  "\<exists>i. fst (NewID w) = Inr i \<and> length i = 36 \<and> i ! 8 = CHR ''-'' \<and> i ! 13 = CHR ''-'' \<and>
     i ! 18 = CHR ''-'' \<and> i ! 23 = CHR ''-'' \<and> i ! 14 = CHR ''7'' \<and> i ! 19 \<in> set ''89ab''"
proof -
  have "fst (NewID w) = Inr (mintID w)" by (simp add: NewID_eq)
  moreover obtain u s b where "mintID w = idText (idBytes u s b)"
    unfolding mintID_def Let_def case_prod_beta by blast
  ultimately show ?thesis
    using version_digit [of "ucast (drop_bit 8 s)"] variant_digit [of "b 8"]
    unfolding idBytes_def idText_16 by (simp add: hexByte_def)
qed

end
