(* ===== verification/MemState.thy ===== *)
theory MemState
  imports StoreIds
begin

text \<open>
  The state of the in-memory store (\<open>memstore.Mem\<close>) and the helpers its methods share. The
  maps and slices the mutex guards are grouped in the record \<open>tables\<close>; \<open>mem\<close> adds the
  armed failures and extends the runtime, so the store sees the same clock and id generator as the
  services above it. \<open>mem\<close> is itself extensible: a service that also publishes events or
  writes objects extends it, and every store operation applies to the extension unchanged.

  Every method holds the mutex from start to end, so a method is one step of the model.
\<close>

record tables =
  tickets :: "ticket table"
  comments :: "comment table"
  attachments :: "attachment table"
  tags :: "tag table"
  links :: "string list table"
  rules :: "rule table"
  mailboxes :: "mailbox table"
  history :: "history list"
  audit :: "audit_row list"

record mem = rt +
  db :: tables
  failNext :: "string list"

definition empty_tables :: tables where
  "empty_tables = \<lparr>tickets = [], comments = [], attachments = [], tags = [], links = [],
     rules = [], mailboxes = [], history = [], audit = []\<rparr>"

text \<open>\<open>New\<close>: an empty store over a runtime.\<close>

definition New :: "rt \<Rightarrow> mem" where
  "New r = rt.extend r (mem.fields empty_tables [])"

definition FailNext :: "string \<Rightarrow> ('a mem_scheme, unit) op" where
  "FailNext method = modify (\<lambda>w. w\<lparr>failNext := method # failNext w\<rparr>)"

definition fail :: "string \<Rightarrow> ('a mem_scheme, unit) op" where
  "fail method w =
     (if method \<in> set (failNext w)
      then (Inl (Injected method), w\<lparr>failNext := removeAll method (failNext w)\<rparr>)
      else (Inr (), w))"

definition failLocked :: "string \<Rightarrow> ('a mem_scheme, unit) op" where
  "failLocked method = fail method"

definition orNow :: "time \<Rightarrow> time \<Rightarrow> time" where
  "orNow t now = (if t = 0 then now else t)"

text \<open>Reading and writing the guarded tables.\<close>

definition look :: "(tables \<Rightarrow> 'b) \<Rightarrow> ('a mem_scheme, 'b) op" where
  "look f = fetch (\<lambda>w. f (db w))"

definition save :: "(tables \<Rightarrow> tables) \<Rightarrow> ('a mem_scheme, unit) op" where
  "save u = modify (db_update u)"

text \<open>
  \<open>x, ok := table[id]; !ok || x.TenantID != tenantID\<close>: the lookup every tenant-scoped
  method starts with.
\<close>

definition scoped :: "('v \<Rightarrow> string) \<Rightarrow> 'v table \<Rightarrow> string \<Rightarrow> string \<Rightarrow> 'v res" where
  "scoped tenantOf tb tenantID ident =
     (case map_of tb ident of
        None \<Rightarrow> Inl RepoNotFound
      | Some v \<Rightarrow> if tenantOf v \<noteq> tenantID then Inl RepoNotFound else Inr v)"

lemma scoped_iff:
  "scoped tenantOf tb tenantID ident = Inr v \<longleftrightarrow> map_of tb ident = Some v \<and> tenantOf v = tenantID"
  "scoped tenantOf tb tenantID ident = Inl e \<longleftrightarrow>
     e = RepoNotFound \<and> (\<forall>v. map_of tb ident = Some v \<longrightarrow> tenantOf v \<noteq> tenantID)"
  by (auto simp: scoped_def split: option.splits)

section \<open>Running an operation\<close>

text \<open>
  Symbolic execution: each rule runs the first step of a method on a state. The collection
  \<open>run\<close> turns an applied method into its nested conditional over the initial state.
\<close>

named_theorems run \<open>symbolic execution of operations\<close>

lemma run_bnd_fail [run]:
  "bnd (fail m) g w =
     (if m \<in> set (failNext w)
      then (Inl (Injected m), w\<lparr>failNext := removeAll m (failNext w)\<rparr>) else g () w)"
  by (simp add: bnd_def fail_def)

lemma run_Now [run]:
  "bnd Now g w = g (clock w (ticks w)) (w\<lparr>ticks := Suc (ticks w)\<rparr>)"
  "Now w = (Inr (clock w (ticks w)), w\<lparr>ticks := Suc (ticks w)\<rparr>)"
  by (simp_all add: bnd_def Now_def)

lemma run_basic [run]:
  "bnd (fetch f) g1 w = g1 (f w) w"
  "bnd (modify u) g2 w = g2 () (u w)"
  "ret x w = (Inr x, w)"
  "throw e w = (Inl e, w)"
  "bnd (of_res r) g3 w = (case r of Inl e \<Rightarrow> (Inl e, w) | Inr y \<Rightarrow> g3 y w)"
  "modify u w = (Inr (), u w)"
  "fetch f w = (Inr (f w), w)"
  "of_res r w = (r, w)"
  by (auto simp: op_defs split: sum.splits)

lemma run_db [run]:
  "bnd (look h) k w' = k (h (db w')) (w' :: 'a mem_scheme)"
  "bnd (save v) k' w' = k' () (db_update v w')"
  "look h w' = (Inr (h (db w')), w')"
  "save v w' = (Inr (), db_update v w')"
  by (auto simp: op_defs look_def save_def split: sum.splits)

lemma run_if [run]:
  "bnd (if b then f else f') g w = (if b then bnd f g w else bnd f' g w)"
  "(if b then f else f') w = (if b then f w else f' w)"
  by simp_all

lemma run_option [run]:
  "bnd (case x of None \<Rightarrow> f | Some y \<Rightarrow> h y) g w = (case x of None \<Rightarrow> bnd f g w | Some y \<Rightarrow> bnd (h y) g w)"
  "(case x of None \<Rightarrow> f | Some y \<Rightarrow> h y) w = (case x of None \<Rightarrow> f w | Some y \<Rightarrow> h y w)"
  by (auto split: option.splits)

lemma run_assoc [run]: "bnd (bnd f k) g w = bnd f (\<lambda>z. bnd (k z) g) w"
  by (simp add: bnd_assoc)

lemma run_NewID [run]:
  "bnd NewID g w = g (mintID w) (afterID w)"
  "NewID w = (Inr (mintID w), afterID w)"
  by (simp_all add: bnd_def NewID_eq)

lemma afterID_frame [simp]:
  "db (afterID w) = db w" "failNext (afterID w) = failNext w" "ucd (afterID w) = ucd w"
  "mem.more (afterID w) = mem.more w"
  by (simp_all add: afterID_def split: prod.splits)

text \<open>
  What no store method touches: the Unicode tables, the clock, and the state of the services that
  extend the store.
\<close>

definition frame :: "(unicode \<Rightarrow> (nat \<Rightarrow> time) \<Rightarrow> 'a \<Rightarrow> bool) \<Rightarrow> 'a mem_scheme \<Rightarrow> bool" where
  "frame P w = P (ucd w) (clock w) (mem.more w)"

lemma frame_steps [keeps]:
  "preserves (frame P) (fail m)" "preserves (frame P) Now" "preserves (frame P) NewID"
  "preserves (frame P) (look f)" "preserves (frame P) (save u)"
  "preserves (frame P) (FailNext m)"
  by (auto simp: preserves_iff frame_def fail_def Now_def NewID_eq look_def save_def FailNext_def
      op_defs afterID_def split: prod.splits)

end
