(* ===== verification/MemTickets.thy ===== *)
theory MemTickets
  imports MemState
begin

text \<open>
  The ticket, comment and attachment methods of \<open>memstore.Mem\<close>, one operation per method.
  Filter loops over a map keep the rows the loop body keeps; \<open>sort.Slice\<close> calls are
  \<open>sort_key\<close> with the compared fields as the key (the id breaks every tie, so the result does
  not depend on the stability of the sort).
\<close>

section \<open>Tickets\<close>

text \<open>The row \<open>CreateTicket\<close> stores: the given ticket with its defaults filled in.\<close>

definition withDefaults :: "time \<Rightarrow> ticket \<Rightarrow> ticket" where
  "withDefaults now t =
     (let created = orNow (tkCreatedAt t) now
      in t\<lparr>tkCreatedAt := created,
           tkUpdatedAt := orNow (tkUpdatedAt t) created,
           tkStatus := (if tkStatus t = [] then StatusOpen else tkStatus t),
           tkPriority := (if tkPriority t = [] then PriorityNormal else tkPriority t),
           tkSource := (if tkSource t = [] then SourceManual else tkSource t)\<rparr>)"

definition CreateTicket :: "ticket \<Rightarrow> ('a mem_scheme, unit) op" where
  "CreateTicket t =
     bnd (fail ''CreateTicket'') (\<lambda>_.
     bnd (look tickets) (\<lambda>tb.
     bnd (look mailboxes) (\<lambda>mbs.
     if map_of tb (tkID t) \<noteq> None then throw RepoConflict
     else if tkExternalID t \<noteq> [] \<and>
             (\<exists>x \<in> set (rows tb). tkTenantID x = tkTenantID t \<and> tkExternalID x = tkExternalID t)
     then throw RepoConflict
     else if tkMailboxID t \<noteq> [] \<and>
             (case map_of mbs (tkMailboxID t) of None \<Rightarrow> True | Some mb \<Rightarrow> mbTenantID mb \<noteq> tkTenantID t)
     then throw RepoNotFound
     else
     bnd Now (\<lambda>now.
     save (\<lambda>d. d\<lparr>tickets := AList.update (tkID t) (withDefaults now t) (tickets d)\<rparr>)))))"

definition ticket_of :: "tables \<Rightarrow> string \<Rightarrow> string \<Rightarrow> ticket res" where
  "ticket_of d tenantID ident = scoped tkTenantID (tickets d) tenantID ident"

definition GetTicket :: "string \<Rightarrow> string \<Rightarrow> ('a mem_scheme, ticket) op" where
  "GetTicket tenantID ident =
     bnd (fail ''GetTicket'') (\<lambda>_.
     bnd (look (\<lambda>d. ticket_of d tenantID ident)) of_res)"

definition FindTicketByExternalID :: "string \<Rightarrow> string \<Rightarrow> ('a mem_scheme, ticket) op" where
  "FindTicketByExternalID tenantID externalID =
     bnd (fail ''FindTicketByExternalID'') (\<lambda>_.
     if externalID = [] then throw RepoNotFound
     else
     bnd (look tickets) (\<lambda>tb.
     case find (\<lambda>t. tkTenantID t = tenantID \<and> tkExternalID t = externalID) (rows tb) of
       Some t \<Rightarrow> ret t
     | None \<Rightarrow> throw RepoNotFound))"

definition matchesQuery :: "unicode \<Rightarrow> ticket \<Rightarrow> string \<Rightarrow> bool" where
  "matchesQuery u t q \<longleftrightarrow>
     (if q = [] then True
      else let q' = ToLower u q
           in Contains (ToLower u (tkSubject t)) q' \<or>
              Contains (ToLower u (tkRequesterEmail t)) q' \<or>
              Contains (ToLower u (tkRequesterName t)) q')"

text \<open>The \<open>switch\<close> of \<open>ListTickets\<close>: the tickets the loop does not skip.\<close>

definition selected :: "unicode \<Rightarrow> string list table \<Rightarrow> string \<Rightarrow> ticket_filter \<Rightarrow> ticket \<Rightarrow> bool" where
  "selected u lk tenantID f t \<longleftrightarrow> \<not>
     (tkTenantID t \<noteq> tenantID \<or>
      (tfStatus f \<noteq> [] \<and> tkStatus t \<noteq> tfStatus f) \<or>
      (tfPriority f \<noteq> [] \<and> tkPriority t \<noteq> tfPriority f) \<or>
      (tfAssigneeID f = AssigneeNone \<and> tkAssigneeID t \<noteq> []) \<or>
      (tfAssigneeID f \<noteq> [] \<and> tfAssigneeID f \<noteq> AssigneeNone \<and> tkAssigneeID t \<noteq> tfAssigneeID f) \<or>
      (tfTagID f \<noteq> [] \<and>
         (case map_of lk (tkID t) of None \<Rightarrow> True | Some gs \<Rightarrow> tfTagID f \<notin> set gs)) \<or>
      \<not> matchesQuery u t (tfQuery f))"

text \<open>
  \<open>listquery.SortSlice\<close> and \<open>listquery.Window\<close> are not part of the repository: they are
  parameters of the paging methods.
\<close>

definition window :: "('x list \<Rightarrow> 'req \<Rightarrow> 'x list \<times> int \<times> 'req) \<Rightarrow> 'x list \<Rightarrow> 'req \<Rightarrow> 'x list \<times> int \<times> 'req" where
  "window Window items req = (let (page, total, applied) = Window items req in ([] @ page, total, applied))"

definition ListTickets ::
  "(ticket list \<Rightarrow> 'req \<Rightarrow> (ticket \<Rightarrow> string \<Rightarrow> sort_val) \<Rightarrow> (ticket \<Rightarrow> string) \<Rightarrow> ticket list) \<Rightarrow>
   (ticket list \<Rightarrow> 'req \<Rightarrow> ticket list \<times> int \<times> 'req) \<Rightarrow>
   string \<Rightarrow> ticket_filter \<Rightarrow> 'req \<Rightarrow> ('a mem_scheme, ticket list \<times> int \<times> 'req) op" where
  "ListTickets SortSlice Window tenantID f req =
     bnd (fail ''ListTickets'') (\<lambda>_.
     bnd (fetch ucd) (\<lambda>u.
     bnd (look (\<lambda>d. filter (selected u (links d) tenantID f) (rows (tickets d)))) (\<lambda>all.
     ret (window Window (SortSlice all req TicketSortKey tkID) req))))"

definition patched :: "ticket_patch \<Rightarrow> time \<Rightarrow> ticket \<Rightarrow> ticket" where
  "patched p at t =
     t\<lparr>tkSubject := (case tpSubject p of None \<Rightarrow> tkSubject t | Some v \<Rightarrow> v),
       tkDescription := (case tpDescription p of None \<Rightarrow> tkDescription t | Some v \<Rightarrow> v),
       tkPriority := (case tpPriority p of None \<Rightarrow> tkPriority t | Some v \<Rightarrow> v),
       tkUpdatedAt := at\<rparr>"

definition UpdateTicket :: "string \<Rightarrow> string \<Rightarrow> ticket_patch \<Rightarrow> time \<Rightarrow> ('a mem_scheme, ticket) op" where
  "UpdateTicket tenantID ident p at =
     bnd (fail ''UpdateTicket'') (\<lambda>_.
     bnd (look (\<lambda>d. ticket_of d tenantID ident)) (\<lambda>r.
     bnd (of_res r) (\<lambda>t.
     bnd Now (\<lambda>now.
     let t' = patched p (orNow at now) t
     in bnd (save (\<lambda>d. d\<lparr>tickets := AList.update ident t' (tickets d)\<rparr>)) (\<lambda>_. ret t')))))"

definition assigned :: "string \<Rightarrow> string \<Rightarrow> time \<Rightarrow> ticket \<Rightarrow> ticket" where
  "assigned assigneeID assigneeName at t =
     t\<lparr>tkAssigneeID := assigneeID,
       tkAssigneeName := (if assigneeID = [] then [] else assigneeName),
       tkUpdatedAt := at\<rparr>"

definition SetAssignee :: "string \<Rightarrow> string \<Rightarrow> string \<Rightarrow> string \<Rightarrow> time \<Rightarrow> ('a mem_scheme, ticket) op" where
  "SetAssignee tenantID ident assigneeID assigneeName at =
     bnd (fail ''SetAssignee'') (\<lambda>_.
     bnd (look (\<lambda>d. ticket_of d tenantID ident)) (\<lambda>r.
     bnd (of_res r) (\<lambda>t.
     bnd Now (\<lambda>now.
     let t' = assigned assigneeID assigneeName (orNow at now) t
     in bnd (save (\<lambda>d. d\<lparr>tickets := AList.update ident t' (tickets d)\<rparr>)) (\<lambda>_. ret t')))))"

definition restated :: "string \<Rightarrow> time \<Rightarrow> ticket \<Rightarrow> ticket" where
  "restated status at t =
     t\<lparr>tkResolvedAt :=
         (if status = StatusResolved
          then (if tkStatus t \<noteq> StatusResolved \<or> tkResolvedAt t = None then Some at else tkResolvedAt t)
          else None),
       tkStatus := status,
       tkUpdatedAt := at\<rparr>"

definition SetStatus :: "string \<Rightarrow> string \<Rightarrow> string \<Rightarrow> time \<Rightarrow> ('a mem_scheme, ticket) op" where
  "SetStatus tenantID ident status at =
     bnd (fail ''SetStatus'') (\<lambda>_.
     bnd (look (\<lambda>d. ticket_of d tenantID ident)) (\<lambda>r.
     bnd (of_res r) (\<lambda>t.
     bnd Now (\<lambda>now.
     let t' = restated status (orNow at now) t
     in bnd (save (\<lambda>d. d\<lparr>tickets := AList.update ident t' (tickets d)\<rparr>)) (\<lambda>_. ret t')))))"

definition DeleteTicket :: "string \<Rightarrow> string \<Rightarrow> ('a mem_scheme, string list) op" where
  "DeleteTicket tenantID ident =
     bnd (fail ''DeleteTicket'') (\<lambda>_.
     bnd (look (\<lambda>d. ticket_of d tenantID ident)) (\<lambda>r.
     bnd (of_res r) (\<lambda>_.
     bnd (look (\<lambda>d. map atStorageKey (filter (\<lambda>a. atTicketID a = ident) (rows (attachments d))))) (\<lambda>keys.
     bnd (save (\<lambda>d. d\<lparr>attachments := filter (\<lambda>(_, a). atTicketID a \<noteq> ident) (attachments d)\<rparr>)) (\<lambda>_.
     bnd (save (\<lambda>d. d\<lparr>comments := filter (\<lambda>(_, c). cmTicketID c \<noteq> ident) (comments d)\<rparr>)) (\<lambda>_.
     bnd (save (\<lambda>d. d\<lparr>links := AList.delete ident (links d)\<rparr>)) (\<lambda>_.
     bnd (save (\<lambda>d. d\<lparr>history := filter (\<lambda>h. hiTicketID h \<noteq> ident) (history d)\<rparr>)) (\<lambda>_.
     bnd (save (\<lambda>d. d\<lparr>tickets := AList.delete ident (tickets d)\<rparr>)) (\<lambda>_.
     ret (sort keys))))))))))"

section \<open>Comments\<close>

definition storedComment :: "time \<Rightarrow> comment \<Rightarrow> comment" where
  "storedComment now c =
     c\<lparr>cmCreatedAt := orNow (cmCreatedAt c) now,
       cmDelivery := (if cmDelivery c = [] then DeliveryNone else cmDelivery c)\<rparr>"

definition counted :: "comment \<Rightarrow> ticket \<Rightarrow> ticket" where
  "counted c t =
     t\<lparr>tkCommentCount := tkCommentCount t + 1,
       tkLastMessageID :=
         (if cmMessageID c \<noteq> [] \<and> \<not> cmInternal c then cmMessageID c else tkLastMessageID t),
       tkUpdatedAt := cmCreatedAt c\<rparr>"

definition CreateComment :: "comment \<Rightarrow> ('a mem_scheme, unit) op" where
  "CreateComment c =
     bnd (fail ''CreateComment'') (\<lambda>_.
     bnd (look (\<lambda>d. ticket_of d (cmTenantID c) (cmTicketID c))) (\<lambda>r.
     bnd (of_res r) (\<lambda>t.
     bnd (look comments) (\<lambda>cs.
     if map_of cs (cmID c) \<noteq> None then throw RepoConflict
     else if cmMessageID c \<noteq> [] \<and>
             (\<exists>x \<in> set (rows cs). cmTenantID x = cmTenantID c \<and> cmMessageID x = cmMessageID c)
     then throw RepoConflict
     else
     bnd Now (\<lambda>now.
     let c' = storedComment now c
     in bnd (save (\<lambda>d. d\<lparr>comments := AList.update (cmID c) c' (comments d)\<rparr>)) (\<lambda>_.
        save (\<lambda>d. d\<lparr>tickets := AList.update (tkID t) (counted c' t) (tickets d)\<rparr>)))))))"

definition comment_of :: "tables \<Rightarrow> string \<Rightarrow> string \<Rightarrow> comment res" where
  "comment_of d tenantID ident = scoped cmTenantID (comments d) tenantID ident"

definition GetComment :: "string \<Rightarrow> string \<Rightarrow> ('a mem_scheme, comment) op" where
  "GetComment tenantID ident =
     bnd (fail ''GetComment'') (\<lambda>_.
     bnd (look (\<lambda>d. comment_of d tenantID ident)) of_res)"

definition sortComments :: "comment list \<Rightarrow> comment list" where
  "sortComments = sort_key (\<lambda>c. (cmCreatedAt c, cmID c))"

definition ListComments :: "string \<Rightarrow> string \<Rightarrow> ('a mem_scheme, comment list) op" where
  "ListComments tenantID ticketID =
     bnd (fail ''ListComments'') (\<lambda>_.
     bnd (look comments) (\<lambda>cs.
     ret (sortComments (filter (\<lambda>c. cmTenantID c = tenantID \<and> cmTicketID c = ticketID) (rows cs)))))"

definition SetCommentDelivery :: "string \<Rightarrow> string \<Rightarrow> string \<Rightarrow> ('a mem_scheme, unit) op" where
  "SetCommentDelivery tenantID ident delivery =
     bnd (fail ''SetCommentDelivery'') (\<lambda>_.
     bnd (look (\<lambda>d. comment_of d tenantID ident)) (\<lambda>r.
     bnd (of_res r) (\<lambda>c.
     save (\<lambda>d. d\<lparr>comments := AList.update ident (c\<lparr>cmDelivery := delivery\<rparr>) (comments d)\<rparr>))))"

definition uncounted :: "ticket \<Rightarrow> ticket" where
  "uncounted t = t\<lparr>tkCommentCount := tkCommentCount t - 1\<rparr>"

definition DeleteComment :: "string \<Rightarrow> string \<Rightarrow> ('a mem_scheme, string list) op" where
  "DeleteComment tenantID ident =
     bnd (fail ''DeleteComment'') (\<lambda>_.
     bnd (look (\<lambda>d. comment_of d tenantID ident)) (\<lambda>r.
     bnd (of_res r) (\<lambda>c.
     bnd (look (\<lambda>d. map atStorageKey (filter (\<lambda>a. atCommentID a = ident) (rows (attachments d))))) (\<lambda>keys.
     bnd (save (\<lambda>d. d\<lparr>attachments := filter (\<lambda>(_, a). atCommentID a \<noteq> ident) (attachments d)\<rparr>)) (\<lambda>_.
     bnd (save (\<lambda>d. d\<lparr>comments := AList.delete ident (comments d)\<rparr>)) (\<lambda>_.
     bnd (look tickets) (\<lambda>tb.
     bnd (case map_of tb (cmTicketID c) of
            None \<Rightarrow> ret ()
          | Some t \<Rightarrow> if tkCommentCount t > 0
              then save (\<lambda>d. d\<lparr>tickets := AList.update (tkID t) (uncounted t) (tickets d)\<rparr>)
              else ret ()) (\<lambda>_.
     ret (sort keys)))))))))"

definition FindCommentByMessageID :: "string \<Rightarrow> string \<Rightarrow> ('a mem_scheme, comment) op" where
  "FindCommentByMessageID tenantID messageID =
     bnd (fail ''FindCommentByMessageID'') (\<lambda>_.
     if messageID = [] then throw RepoNotFound
     else
     bnd (look comments) (\<lambda>cs.
     case find (\<lambda>c. cmTenantID c = tenantID \<and> cmMessageID c = messageID) (rows cs) of
       Some c \<Rightarrow> ret c
     | None \<Rightarrow> throw RepoNotFound))"

definition LastMessageID :: "string \<Rightarrow> string \<Rightarrow> ('a mem_scheme, string) op" where
  "LastMessageID tenantID ticketID =
     bnd (fail ''LastMessageID'') (\<lambda>_.
     bnd (look (\<lambda>d. ticket_of d tenantID ticketID)) (\<lambda>r.
     bnd (of_res r) (\<lambda>t. ret (tkLastMessageID t))))"

section \<open>Attachments\<close>

definition CreateAttachment :: "attachment \<Rightarrow> ('a mem_scheme, unit) op" where
  "CreateAttachment a =
     bnd (fail ''CreateAttachment'') (\<lambda>_.
     bnd (look (\<lambda>d. ticket_of d (atTenantID a) (atTicketID a))) (\<lambda>r.
     bnd (of_res r) (\<lambda>_.
     bnd (look comments) (\<lambda>cs.
     bnd (look attachments) (\<lambda>tb.
     if atCommentID a \<noteq> [] \<and>
        (case map_of cs (atCommentID a) of
           None \<Rightarrow> True
         | Some c \<Rightarrow> cmTenantID c \<noteq> atTenantID a \<or> cmTicketID c \<noteq> atTicketID a)
     then throw RepoNotFound
     else if map_of tb (atID a) \<noteq> None then throw RepoConflict
     else if \<exists>x \<in> set (rows tb). atStorageKey x = atStorageKey a then throw RepoConflict
     else
     bnd Now (\<lambda>now.
     save (\<lambda>d. d\<lparr>attachments := AList.update (atID a) (a\<lparr>atCreatedAt := orNow (atCreatedAt a) now\<rparr>) (attachments d)\<rparr>)))))))"

definition ListAttachments :: "string \<Rightarrow> string \<Rightarrow> ('a mem_scheme, attachment list) op" where
  "ListAttachments tenantID ticketID =
     bnd (fail ''ListAttachments'') (\<lambda>_.
     bnd (look attachments) (\<lambda>tb.
     ret (sort_key (\<lambda>a. (atCreatedAt a, atID a))
       (filter (\<lambda>a. atTenantID a = tenantID \<and> atTicketID a = ticketID) (rows tb)))))"

definition GetAttachment :: "string \<Rightarrow> string \<Rightarrow> string \<Rightarrow> ('a mem_scheme, attachment) op" where
  "GetAttachment tenantID ticketID ident =
     bnd (fail ''GetAttachment'') (\<lambda>_.
     bnd (look attachments) (\<lambda>tb.
     case map_of tb ident of
       None \<Rightarrow> throw RepoNotFound
     | Some a \<Rightarrow>
         if atTenantID a \<noteq> tenantID \<or> atTicketID a \<noteq> ticketID then throw RepoNotFound else ret a))"

definition DeleteAttachmentsByTicket :: "string \<Rightarrow> string \<Rightarrow> ('a mem_scheme, string list) op" where
  "DeleteAttachmentsByTicket tenantID ticketID =
     bnd (fail ''DeleteAttachmentsByTicket'') (\<lambda>_.
     bnd (look (\<lambda>d. map atStorageKey
       (filter (\<lambda>a. atTenantID a = tenantID \<and> atTicketID a = ticketID) (rows (attachments d))))) (\<lambda>keys.
     bnd (save (\<lambda>d. d\<lparr>attachments := filter (\<lambda>(_, a). \<not> (atTenantID a = tenantID \<and> atTicketID a = ticketID)) (attachments d)\<rparr>)) (\<lambda>_.
     ret (sort keys))))"

section \<open>Rows keep their identity\<close>

lemma ticket_rows [simp]:
  "tkID (withDefaults now t) = tkID t"
  "tkTenantID (withDefaults now t) = tkTenantID t"
  "tkExternalID (withDefaults now t) = tkExternalID t"
  "tkMailboxID (withDefaults now t) = tkMailboxID t"
  "tkRequesterEmail (withDefaults now t) = tkRequesterEmail t"
  "tkCommentCount (withDefaults now t) = tkCommentCount t"
  "tkID (patched p at t) = tkID t"
  "tkTenantID (patched p at t) = tkTenantID t"
  "tkExternalID (patched p at t) = tkExternalID t"
  "tkMailboxID (patched p at t) = tkMailboxID t"
  "tkRequesterEmail (patched p at t) = tkRequesterEmail t"
  "tkCommentCount (patched p at t) = tkCommentCount t"
  "tkStatus (patched p at t) = tkStatus t"
  "tkID (assigned aid an at t) = tkID t"
  "tkTenantID (assigned aid an at t) = tkTenantID t"
  "tkExternalID (assigned aid an at t) = tkExternalID t"
  "tkMailboxID (assigned aid an at t) = tkMailboxID t"
  "tkRequesterEmail (assigned aid an at t) = tkRequesterEmail t"
  "tkCommentCount (assigned aid an at t) = tkCommentCount t"
  "tkStatus (assigned aid an at t) = tkStatus t"
  "tkID (restated st at t) = tkID t"
  "tkTenantID (restated st at t) = tkTenantID t"
  "tkExternalID (restated st at t) = tkExternalID t"
  "tkMailboxID (restated st at t) = tkMailboxID t"
  "tkRequesterEmail (restated st at t) = tkRequesterEmail t"
  "tkCommentCount (restated st at t) = tkCommentCount t"
  "tkID (counted c t) = tkID t"
  "tkTenantID (counted c t) = tkTenantID t"
  "tkExternalID (counted c t) = tkExternalID t"
  "tkMailboxID (counted c t) = tkMailboxID t"
  "tkRequesterEmail (counted c t) = tkRequesterEmail t"
  "tkStatus (counted c t) = tkStatus t"
  "tkID (uncounted t) = tkID t"
  "tkTenantID (uncounted t) = tkTenantID t"
  "tkExternalID (uncounted t) = tkExternalID t"
  "tkMailboxID (uncounted t) = tkMailboxID t"
  "tkRequesterEmail (uncounted t) = tkRequesterEmail t"
  "tkStatus (uncounted t) = tkStatus t"
  by (simp_all add: withDefaults_def patched_def assigned_def restated_def counted_def uncounted_def Let_def)

lemma counts [simp]:
  "tkCommentCount (counted c t) = tkCommentCount t + 1"
  "tkCommentCount (uncounted t) = tkCommentCount t - 1"
  by (simp_all add: counted_def uncounted_def)

lemma comment_rows [simp]:
  "cmID (storedComment now c) = cmID c"
  "cmTenantID (storedComment now c) = cmTenantID c"
  "cmTicketID (storedComment now c) = cmTicketID c"
  "cmMessageID (storedComment now c) = cmMessageID c"
  "cmInternal (storedComment now c) = cmInternal c"
  "cmBody (storedComment now c) = cmBody c"
  by (simp_all add: storedComment_def)

end
