(* ===== verification/MemTags.thy ===== *)
theory MemTags
  imports MemTickets
begin

text \<open>
  The tag, rule and mailbox methods of \<open>memstore.Mem\<close>. The tag ids linked to a ticket are a
  list without repetitions; \<open>set[id] = true\<close> is \<open>List.insert\<close>.
\<close>

section \<open>Tags\<close>

definition tagConflict :: "unicode \<Rightarrow> tag table \<Rightarrow> tag \<Rightarrow> bool" where
  "tagConflict u tb t \<longleftrightarrow>
     (\<exists>x \<in> set (rows tb). tgID x \<noteq> tgID t \<and> tgTenantID x = tgTenantID t \<and> tgKind x = tgKind t \<and>
        EqualFold u (tgName x) (tgName t))"

definition storedTag :: "time \<Rightarrow> tag \<Rightarrow> tag" where
  "storedTag now t = t\<lparr>tgCreatedAt := orNow (tgCreatedAt t) now\<rparr>"

definition createTag :: "tag \<Rightarrow> ('a mem_scheme, unit) op" where
  "createTag t =
     (let t' = t\<lparr>tgKind := (if tgKind t = [] then KindTag else tgKind t)\<rparr>
      in bnd (fetch ucd) (\<lambda>u.
         bnd (look tags) (\<lambda>tb.
         if map_of tb (tgID t') \<noteq> None \<or> tagConflict u tb t' then throw RepoConflict
         else
         bnd Now (\<lambda>now.
         save (\<lambda>d. d\<lparr>tags := AList.update (tgID t') (storedTag now t') (tags d)\<rparr>)))))"

definition CreateTag :: "tag \<Rightarrow> ('a mem_scheme, unit) op" where
  "CreateTag t = bnd (fail ''CreateTag'') (\<lambda>_. createTag t)"

definition tag_of :: "tables \<Rightarrow> string \<Rightarrow> string \<Rightarrow> tag res" where
  "tag_of d tenantID ident = scoped tgTenantID (tags d) tenantID ident"

definition GetTag :: "string \<Rightarrow> string \<Rightarrow> ('a mem_scheme, tag) op" where
  "GetTag tenantID ident =
     bnd (fail ''GetTag'') (\<lambda>_.
     bnd (look (\<lambda>d. tag_of d tenantID ident)) of_res)"

definition sortTags :: "unicode \<Rightarrow> tag list \<Rightarrow> tag list" where
  "sortTags u = sort_key (\<lambda>t. (tgKind t, ToLower u (tgName t), tgID t))"

definition ListTags :: "string \<Rightarrow> string \<Rightarrow> ('a mem_scheme, tag list) op" where
  "ListTags tenantID kind =
     bnd (fail ''ListTags'') (\<lambda>_.
     bnd (fetch ucd) (\<lambda>u.
     bnd (look tags) (\<lambda>tb.
     ret (sortTags u (filter (\<lambda>t. tgTenantID t = tenantID \<and> (kind = [] \<or> tgKind t = kind)) (rows tb))))))"

definition PageTags ::
  "(tag list \<Rightarrow> 'req \<Rightarrow> (tag \<Rightarrow> string \<Rightarrow> sort_val) \<Rightarrow> (tag \<Rightarrow> string) \<Rightarrow> tag list) \<Rightarrow>
   (tag list \<Rightarrow> 'req \<Rightarrow> tag list \<times> int \<times> 'req) \<Rightarrow>
   string \<Rightarrow> string \<Rightarrow> 'req \<Rightarrow> ('a mem_scheme, tag list \<times> int \<times> 'req) op" where
  "PageTags SortSlice Window tenantID kind req =
     bnd (failLocked ''PageTags'') (\<lambda>_.
     bnd (ListTags tenantID kind) (\<lambda>all.
     ret (window Window (SortSlice all req (\<lambda>t _. KStr (tgName t)) tgID) req)))"

definition UpdateTag :: "tag \<Rightarrow> ('a mem_scheme, unit) op" where
  "UpdateTag t =
     bnd (fail ''UpdateTag'') (\<lambda>_.
     bnd (look (\<lambda>d. tag_of d (tgTenantID t) (tgID t))) (\<lambda>r.
     bnd (of_res r) (\<lambda>cur.
     bnd (fetch ucd) (\<lambda>u.
     bnd (look tags) (\<lambda>tb.
     let t' = t\<lparr>tgKind := tgKind cur, tgCreatedAt := tgCreatedAt cur\<rparr>
     in if tagConflict u tb t' then throw RepoConflict
        else save (\<lambda>d. d\<lparr>tags := AList.update (tgID t) t' (tags d)\<rparr>))))))"

definition DeleteTag :: "string \<Rightarrow> string \<Rightarrow> ('a mem_scheme, unit) op" where
  "DeleteTag tenantID ident =
     bnd (fail ''DeleteTag'') (\<lambda>_.
     bnd (look (\<lambda>d. tag_of d tenantID ident)) (\<lambda>r.
     bnd (of_res r) (\<lambda>_.
     bnd (save (\<lambda>d. d\<lparr>tags := AList.delete ident (tags d)\<rparr>)) (\<lambda>_.
     save (\<lambda>d. d\<lparr>links := map (map_prod id (removeAll ident)) (links d)\<rparr>)))))"

definition EnsureTagByName :: "string \<Rightarrow> string \<Rightarrow> string \<Rightarrow> ('a mem_scheme, tag) op" where
  "EnsureTagByName tenantID kind name =
     bnd (fail ''EnsureTagByName'') (\<lambda>_.
     let kind' = (if kind = [] then KindTag else kind)
     in bnd (fetch ucd) (\<lambda>u.
        bnd (look tags) (\<lambda>tb.
        case find (\<lambda>t. tgTenantID t = tenantID \<and> tgKind t = kind' \<and> EqualFold u (tgName t) name) (rows tb) of
          Some t \<Rightarrow> ret t
        | None \<Rightarrow>
            bnd NewID (\<lambda>i.
            bnd Now (\<lambda>now.
            let t = \<lparr>tgID = i, tgTenantID = tenantID, tgName = name, tgKind = kind', tgColor = [],
                     tgDescription = [], tgCreatedAt = now\<rparr>
            in bnd (createTag t) (\<lambda>_. ret t))))))"

definition checkTags :: "tables \<Rightarrow> string \<Rightarrow> string \<Rightarrow> string list \<Rightarrow> unit res" where
  "checkTags d tenantID ticketID tagIDs =
     (case ticket_of d tenantID ticketID of
        Inl e \<Rightarrow> Inl e
      | Inr _ \<Rightarrow>
          if \<exists>g \<in> set tagIDs. (case map_of (tags d) g of None \<Rightarrow> True | Some t \<Rightarrow> tgTenantID t \<noteq> tenantID)
          then Inl RepoNotFound else Inr ())"

definition SetTicketTags :: "string \<Rightarrow> string \<Rightarrow> string list \<Rightarrow> ('a mem_scheme, unit) op" where
  "SetTicketTags tenantID ticketID tagIDs =
     bnd (fail ''SetTicketTags'') (\<lambda>_.
     bnd (look (\<lambda>d. checkTags d tenantID ticketID tagIDs)) (\<lambda>r.
     bnd (of_res r) (\<lambda>_.
     save (\<lambda>d. d\<lparr>links := AList.update ticketID (fold List.insert tagIDs []) (links d)\<rparr>))))"

definition AddTicketTags :: "string \<Rightarrow> string \<Rightarrow> string list \<Rightarrow> ('a mem_scheme, unit) op" where
  "AddTicketTags tenantID ticketID tagIDs =
     bnd (fail ''AddTicketTags'') (\<lambda>_.
     bnd (look (\<lambda>d. checkTags d tenantID ticketID tagIDs)) (\<lambda>r.
     bnd (of_res r) (\<lambda>_.
     bnd (look links) (\<lambda>lk.
     let cur = (case map_of lk ticketID of None \<Rightarrow> [] | Some gs \<Rightarrow> gs)
     in save (\<lambda>d. d\<lparr>links := AList.update ticketID (fold List.insert tagIDs cur) (links d)\<rparr>)))))"

text \<open>The tags of one ticket, as \<open>TagsForTickets\<close> collects them; \<open>None\<close> when it has none.\<close>

definition tags_of :: "unicode \<Rightarrow> tables \<Rightarrow> string \<Rightarrow> string \<Rightarrow> tag list option" where
  "tags_of u d tenantID tid =
     (case map_of (tickets d) tid of
        None \<Rightarrow> None
      | Some t \<Rightarrow>
          if tkTenantID t \<noteq> tenantID then None
          else let gs = (case map_of (links d) tid of None \<Rightarrow> [] | Some gs \<Rightarrow> gs);
                   ts = filter (\<lambda>t. tgTenantID t = tenantID) (List.map_filter (map_of (tags d)) gs)
               in if ts = [] then None else Some (sortTags u ts))"

definition TagsForTickets :: "string \<Rightarrow> string list \<Rightarrow> ('a mem_scheme, tag list table) op" where
  "TagsForTickets tenantID ticketIDs =
     bnd (fail ''TagsForTickets'') (\<lambda>_.
     bnd (fetch ucd) (\<lambda>u.
     look (\<lambda>d. fold (\<lambda>tid out. case tags_of u d tenantID tid of
                                    None \<Rightarrow> out
                                  | Some ts \<Rightarrow> AList.update tid ts out) ticketIDs [])))"

section \<open>Rules\<close>

definition sortRules :: "rule list \<Rightarrow> rule list" where
  "sortRules = sort_key (\<lambda>r. (ruSortOrder r, ruName r, ruID r))"

text \<open>A deep copy; values of the model are never shared, so it is the rule itself.\<close>

definition cloneRule :: "rule \<Rightarrow> rule" where
  "cloneRule r = r\<lparr>ruConditions := [] @ ruConditions r,
     ruActions := map (\<lambda>a. a\<lparr>acTagNames := [] @ acTagNames a\<rparr>) (ruActions r)\<rparr>"

lemma cloneRule_id [simp]: "cloneRule r = r"
  by (simp add: cloneRule_def)

definition storedRule :: "time \<Rightarrow> rule \<Rightarrow> rule" where
  "storedRule now r =
     (let created = orNow (ruCreatedAt r) now
      in cloneRule (r\<lparr>ruCreatedAt := created,
           ruUpdatedAt := orNow (ruUpdatedAt r) created,
           ruVersion := (if ruVersion r \<le> 0 then 1 else ruVersion r),
           ruMatch := (if ruMatch r = [] then MatchAll else ruMatch r)\<rparr>))"

definition CreateRule :: "rule \<Rightarrow> ('a mem_scheme, unit) op" where
  "CreateRule r =
     bnd (fail ''CreateRule'') (\<lambda>_.
     bnd (look rules) (\<lambda>tb.
     if map_of tb (ruID r) \<noteq> None then throw RepoConflict
     else
     bnd Now (\<lambda>now.
     save (\<lambda>d. d\<lparr>rules := AList.update (ruID r) (storedRule now r) (rules d)\<rparr>))))"

definition rule_of :: "tables \<Rightarrow> string \<Rightarrow> string \<Rightarrow> rule res" where
  "rule_of d tenantID ident = scoped ruTenantID (rules d) tenantID ident"

definition GetRule :: "string \<Rightarrow> string \<Rightarrow> ('a mem_scheme, rule) op" where
  "GetRule tenantID ident =
     bnd (fail ''GetRule'') (\<lambda>_.
     bnd (look (\<lambda>d. rule_of d tenantID ident)) (\<lambda>r.
     bnd (of_res r) (\<lambda>r'. ret (cloneRule r'))))"

definition listRules :: "tables \<Rightarrow> string \<Rightarrow> bool \<Rightarrow> rule list" where
  "listRules d tenantID enabledOnly =
     sortRules (map cloneRule
       (filter (\<lambda>r. ruTenantID r = tenantID \<and> (\<not> enabledOnly \<or> ruEnabled r)) (rows (rules d))))"

definition ListRules :: "string \<Rightarrow> ('a mem_scheme, rule list) op" where
  "ListRules tenantID = bnd (fail ''ListRules'') (\<lambda>_. look (\<lambda>d. listRules d tenantID False))"

definition PageRules ::
  "(rule list \<Rightarrow> 'req \<Rightarrow> (rule \<Rightarrow> string \<Rightarrow> sort_val) \<Rightarrow> (rule \<Rightarrow> string) \<Rightarrow> rule list) \<Rightarrow>
   (rule list \<Rightarrow> 'req \<Rightarrow> rule list \<times> int \<times> 'req) \<Rightarrow>
   string \<Rightarrow> 'req \<Rightarrow> ('a mem_scheme, rule list \<times> int \<times> 'req) op" where
  "PageRules SortSlice Window tenantID req =
     bnd (failLocked ''PageRules'') (\<lambda>_.
     bnd (ListRules tenantID) (\<lambda>all.
     ret (window Window (SortSlice all req
       (\<lambda>r field. if field = ''name'' then KStr (ruName r) else KInt (ruSortOrder r)) ruID) req)))"

definition ListEnabledRules :: "string \<Rightarrow> ('a mem_scheme, rule list) op" where
  "ListEnabledRules tenantID =
     bnd (fail ''ListEnabledRules'') (\<lambda>_. look (\<lambda>d. listRules d tenantID True))"

definition revised :: "rule \<Rightarrow> time \<Rightarrow> rule \<Rightarrow> rule" where
  "revised cur now r =
     r\<lparr>ruCreatedAt := ruCreatedAt cur,
       ruVersion := ruVersion cur + 1,
       ruUpdatedAt := now,
       ruMatch := (if ruMatch r = [] then MatchAll else ruMatch r)\<rparr>"

definition UpdateRule :: "rule \<Rightarrow> ('a mem_scheme, rule) op" where
  "UpdateRule r =
     bnd (fail ''UpdateRule'') (\<lambda>_.
     bnd (look (\<lambda>d. rule_of d (ruTenantID r) (ruID r))) (\<lambda>c.
     bnd (of_res c) (\<lambda>cur.
     bnd Now (\<lambda>now.
     let r' = revised cur now r
     in bnd (save (\<lambda>d. d\<lparr>rules := AList.update (ruID r) (cloneRule r') (rules d)\<rparr>)) (\<lambda>_.
        ret (cloneRule r'))))))"

definition DeleteRule :: "string \<Rightarrow> string \<Rightarrow> ('a mem_scheme, unit) op" where
  "DeleteRule tenantID ident =
     bnd (fail ''DeleteRule'') (\<lambda>_.
     bnd (look (\<lambda>d. rule_of d tenantID ident)) (\<lambda>r.
     bnd (of_res r) (\<lambda>_.
     save (\<lambda>d. d\<lparr>rules := AList.delete ident (rules d)\<rparr>))))"

section \<open>Mailboxes\<close>

definition normAddr :: "unicode \<Rightarrow> string \<Rightarrow> string" where
  "normAddr u a = ToLower u (TrimSpace a)"

definition addressTaken :: "mailbox table \<Rightarrow> string \<Rightarrow> string \<Rightarrow> bool" where
  "addressTaken tb ident address \<longleftrightarrow> (\<exists>x \<in> set (rows tb). mbID x \<noteq> ident \<and> mbAddress x = address)"

definition storedMailbox :: "string \<Rightarrow> time \<Rightarrow> mailbox \<Rightarrow> mailbox" where
  "storedMailbox address now mb =
     (let created = orNow (mbCreatedAt mb) now
      in mb\<lparr>mbAddress := address, mbCreatedAt := created,
            mbUpdatedAt := orNow (mbUpdatedAt mb) created\<rparr>)"

definition CreateMailbox :: "mailbox \<Rightarrow> ('a mem_scheme, unit) op" where
  "CreateMailbox mb =
     bnd (fail ''CreateMailbox'') (\<lambda>_.
     bnd (fetch ucd) (\<lambda>u.
     bnd (look mailboxes) (\<lambda>tb.
     let address = normAddr u (mbAddress mb)
     in if map_of tb (mbID mb) \<noteq> None \<or> addressTaken tb (mbID mb) address then throw RepoConflict
        else
        bnd Now (\<lambda>now.
        save (\<lambda>d. d\<lparr>mailboxes := AList.update (mbID mb) (storedMailbox address now mb) (mailboxes d)\<rparr>)))))"

definition mailbox_of :: "tables \<Rightarrow> string \<Rightarrow> string \<Rightarrow> mailbox res" where
  "mailbox_of d tenantID ident = scoped mbTenantID (mailboxes d) tenantID ident"

definition GetMailbox :: "string \<Rightarrow> string \<Rightarrow> ('a mem_scheme, mailbox) op" where
  "GetMailbox tenantID ident =
     bnd (fail ''GetMailbox'') (\<lambda>_.
     bnd (look (\<lambda>d. mailbox_of d tenantID ident)) of_res)"

definition ListMailboxes :: "string \<Rightarrow> ('a mem_scheme, mailbox list) op" where
  "ListMailboxes tenantID =
     bnd (fail ''ListMailboxes'') (\<lambda>_.
     bnd (look mailboxes) (\<lambda>tb.
     ret (sort_key mbAddress (filter (\<lambda>mb. mbTenantID mb = tenantID) (rows tb)))))"

definition PageMailboxes ::
  "(mailbox list \<Rightarrow> 'req \<Rightarrow> (mailbox \<Rightarrow> string \<Rightarrow> sort_val) \<Rightarrow> (mailbox \<Rightarrow> string) \<Rightarrow> mailbox list) \<Rightarrow>
   (mailbox list \<Rightarrow> 'req \<Rightarrow> mailbox list \<times> int \<times> 'req) \<Rightarrow>
   string \<Rightarrow> 'req \<Rightarrow> ('a mem_scheme, mailbox list \<times> int \<times> 'req) op" where
  "PageMailboxes SortSlice Window tenantID req =
     bnd (failLocked ''PageMailboxes'') (\<lambda>_.
     bnd (ListMailboxes tenantID) (\<lambda>all.
     ret (window Window (SortSlice all req
       (\<lambda>mb field. if field = ''name'' then KStr (mbDisplayName mb) else KStr (mbAddress mb)) mbID) req)))"

definition rewritten :: "mailbox \<Rightarrow> string \<Rightarrow> time \<Rightarrow> mailbox \<Rightarrow> mailbox" where
  "rewritten cur address now mb =
     mb\<lparr>mbAddress := address, mbCreatedAt := mbCreatedAt cur, mbUpdatedAt := now\<rparr>"

definition UpdateMailbox :: "mailbox \<Rightarrow> ('a mem_scheme, unit) op" where
  "UpdateMailbox mb =
     bnd (fail ''UpdateMailbox'') (\<lambda>_.
     bnd (look (\<lambda>d. mailbox_of d (mbTenantID mb) (mbID mb))) (\<lambda>r.
     bnd (of_res r) (\<lambda>cur.
     bnd (fetch ucd) (\<lambda>u.
     bnd (look mailboxes) (\<lambda>tb.
     let address = normAddr u (mbAddress mb)
     in if addressTaken tb (mbID mb) address then throw RepoConflict
        else
        bnd Now (\<lambda>now.
        save (\<lambda>d. d\<lparr>mailboxes := AList.update (mbID mb) (rewritten cur address now mb) (mailboxes d)\<rparr>)))))))"

definition detach :: "string \<Rightarrow> ticket \<Rightarrow> ticket" where
  "detach ident t = (if tkMailboxID t = ident then t\<lparr>tkMailboxID := []\<rparr> else t)"

definition DeleteMailbox :: "string \<Rightarrow> string \<Rightarrow> bool \<Rightarrow> ('a mem_scheme, unit) op" where
  "DeleteMailbox tenantID ident force =
     bnd (fail ''DeleteMailbox'') (\<lambda>_.
     bnd (look (\<lambda>d. mailbox_of d tenantID ident)) (\<lambda>r.
     bnd (of_res r) (\<lambda>_.
     bnd (look (\<lambda>d. filter (\<lambda>(_, t). tkMailboxID t = ident) (tickets d))) (\<lambda>refs.
     if refs \<noteq> [] \<and> \<not> force then throw RepoNotEmpty
     else
     bnd (save (\<lambda>d. d\<lparr>tickets := map (map_prod id (detach ident)) (tickets d)\<rparr>)) (\<lambda>_.
     save (\<lambda>d. d\<lparr>mailboxes := AList.delete ident (mailboxes d)\<rparr>))))))"

definition RouteMailbox :: "string \<Rightarrow> ('a mem_scheme, mailbox_route) op" where
  "RouteMailbox address =
     bnd (fail ''RouteMailbox'') (\<lambda>_.
     bnd (fetch ucd) (\<lambda>u.
     bnd (look mailboxes) (\<lambda>tb.
     let a = normAddr u address
     in case find (\<lambda>mb. mbAddress mb = a \<and> a \<noteq> []) (rows tb) of
          None \<Rightarrow> throw RepoNotFound
        | Some mb \<Rightarrow> ret \<lparr>rtTenantID = mbTenantID mb, rtMailboxID = mbID mb,
            rtDisplayName = mbDisplayName mb, rtActive = mbActive mb, rtAutoAck = mbAutoAck mb,
            rtAutoAckTemplate = mbAutoAckTemplate mb\<rparr>)))"

section \<open>History, audit and the export iteration\<close>

definition AppendHistory :: "history \<Rightarrow> ('a mem_scheme, unit) op" where
  "AppendHistory h =
     bnd (fail ''AppendHistory'') (\<lambda>_.
     bnd (look (\<lambda>d. ticket_of d (hiTenantID h) (hiTicketID h))) (\<lambda>r.
     bnd (of_res r) (\<lambda>_.
     bnd Now (\<lambda>now.
     save (\<lambda>d. d\<lparr>history := history d @ [h\<lparr>hiCreatedAt := orNow (hiCreatedAt h) now\<rparr>]\<rparr>)))))"

definition sortHistory :: "history list \<Rightarrow> history list" where
  "sortHistory = sort_key (\<lambda>h. (hiCreatedAt h, hiID h))"

definition ListHistory :: "string \<Rightarrow> string \<Rightarrow> ('a mem_scheme, history list) op" where
  "ListHistory tenantID ticketID =
     bnd (fail ''ListHistory'') (\<lambda>_.
     bnd (look history) (\<lambda>hs.
     ret (sortHistory (filter (\<lambda>h. hiTenantID h = tenantID \<and> hiTicketID h = ticketID) hs))))"

definition AllTickets :: "string \<Rightarrow> ('a mem_scheme, ticket list) op" where
  "AllTickets tenantID =
     bnd (fail ''AllTickets'') (\<lambda>_.
     bnd (look tickets) (\<lambda>tb.
     ret (sort_key tkID (filter (\<lambda>t. tkTenantID t = tenantID) (rows tb)))))"

definition AllComments :: "string \<Rightarrow> ('a mem_scheme, comment list) op" where
  "AllComments tenantID =
     bnd (fail ''AllComments'') (\<lambda>_.
     bnd (look comments) (\<lambda>tb.
     ret (sortComments (filter (\<lambda>c. cmTenantID c = tenantID) (rows tb)))))"

definition AllAttachments :: "string \<Rightarrow> ('a mem_scheme, attachment list) op" where
  "AllAttachments tenantID =
     bnd (fail ''AllAttachments'') (\<lambda>_.
     bnd (look attachments) (\<lambda>tb.
     ret (sort_key atID (filter (\<lambda>a. atTenantID a = tenantID) (rows tb)))))"

definition AllTagLinks :: "string \<Rightarrow> ('a mem_scheme, taglink list) op" where
  "AllTagLinks tenantID =
     bnd (fail ''AllTagLinks'') (\<lambda>_.
     look (\<lambda>d. sort_key (\<lambda>l. (tlTicketID l, tlTagID l))
       (concat (map (\<lambda>(tid, gs).
          case map_of (tickets d) tid of
            None \<Rightarrow> []
          | Some t \<Rightarrow>
              if tkTenantID t \<noteq> tenantID then []
              else map (\<lambda>gid. \<lparr>tlTenantID = tenantID, tlTicketID = tid, tlTagID = gid\<rparr>) gs) (links d)))))"

definition AllHistory :: "string \<Rightarrow> ('a mem_scheme, history list) op" where
  "AllHistory tenantID =
     bnd (fail ''AllHistory'') (\<lambda>_.
     bnd (look history) (\<lambda>hs.
     ret (sortHistory (filter (\<lambda>h. hiTenantID h = tenantID) hs))))"

definition TenantIDs :: "('a mem_scheme, string list) op" where
  "TenantIDs =
     bnd (fail ''TenantIDs'') (\<lambda>_.
     look (\<lambda>d. sort (remdups
       (map tkTenantID (rows (tickets d)) @ map tgTenantID (rows (tags d)) @
        map ruTenantID (rows (rules d)) @ map mbTenantID (rows (mailboxes d))))))"

definition AppendAudit :: "audit_row \<Rightarrow> ('a mem_scheme, unit) op" where
  "AppendAudit row =
     bnd (fail ''AppendAudit'') (\<lambda>_.
     save (\<lambda>d. d\<lparr>audit := audit d @ [row]\<rparr>))"

section \<open>Rows keep their identity\<close>

lemma tag_rows [simp]:
  "tgID (storedTag now t) = tgID t"
  "tgTenantID (storedTag now t) = tgTenantID t"
  "tgKind (storedTag now t) = tgKind t"
  "tgName (storedTag now t) = tgName t"
  by (simp_all add: storedTag_def)

lemma rule_rows [simp]:
  "ruID (storedRule now r) = ruID r"
  "ruTenantID (storedRule now r) = ruTenantID r"
  "ruID (revised cur now r) = ruID r"
  "ruTenantID (revised cur now r) = ruTenantID r"
  "ruEnabled (revised cur now r) = ruEnabled r"
  "ruSortOrder (revised cur now r) = ruSortOrder r"
  "ruName (revised cur now r) = ruName r"
  by (simp_all add: storedRule_def revised_def Let_def)

lemma mailbox_rows [simp]:
  "mbID (storedMailbox a now mb) = mbID mb"
  "mbTenantID (storedMailbox a now mb) = mbTenantID mb"
  "mbID (rewritten cur a now mb) = mbID mb"
  "mbTenantID (rewritten cur a now mb) = mbTenantID mb"
  "mbAddress (storedMailbox a now mb) = a"
  "mbAddress (rewritten cur a now mb) = a"
  by (simp_all add: storedMailbox_def rewritten_def Let_def)

lemma detach_rows [simp]:
  "tkID (detach k t) = tkID t"
  "tkTenantID (detach k t) = tkTenantID t"
  "tkExternalID (detach k t) = tkExternalID t"
  "tkCommentCount (detach k t) = tkCommentCount t"
  "tkStatus (detach k t) = tkStatus t"
  by (simp_all add: detach_def)

end
