(* ===== verification/MemInv.thy ===== *)
theory MemInv
  imports MemTags
begin

text \<open>
  The integrity of the store: the unique indexes, the foreign keys and the denormalised comment
  count the schema promises, as one predicate on the tables, and that every method keeps it.
\<close>

section \<open>The predicate\<close>

definition owned :: "ticket table \<Rightarrow> string \<Rightarrow> string \<Rightarrow> bool" where owned_case:
  "owned tb tenantID ident \<longleftrightarrow>
     (case map_of tb ident of None \<Rightarrow> False | Some t \<Rightarrow> tkTenantID t = tenantID)"

lemma owned_def: "owned tb tenantID ident \<longleftrightarrow> (\<exists>t. map_of tb ident = Some t \<and> tkTenantID t = tenantID)"
  by (simp add: owned_case split: option.splits)

definition keys_ok :: "tables \<Rightarrow> bool" where
  "keys_ok d \<longleftrightarrow> table_ok tkID (tickets d) \<and> table_ok cmID (comments d) \<and>
     table_ok atID (attachments d) \<and> table_ok tgID (tags d) \<and> table_ok ruID (rules d) \<and>
     table_ok mbID (mailboxes d) \<and> distinct (map fst (links d))"

definition external_unique :: "tables \<Rightarrow> bool" where
  "external_unique d \<longleftrightarrow>
     inj_on (\<lambda>t. (tkTenantID t, tkExternalID t)) {t \<in> set (rows (tickets d)). tkExternalID t \<noteq> []}"

definition message_unique :: "tables \<Rightarrow> bool" where
  "message_unique d \<longleftrightarrow>
     inj_on (\<lambda>c. (cmTenantID c, cmMessageID c)) {c \<in> set (rows (comments d)). cmMessageID c \<noteq> []}"

definition storage_unique :: "tables \<Rightarrow> bool" where
  "storage_unique d \<longleftrightarrow> inj_on atStorageKey (set (rows (attachments d)))"

definition foldName :: "unicode \<Rightarrow> string \<Rightarrow> rune list" where
  "foldName u s = map (uFold u) (runes s)"

definition tag_unique :: "unicode \<Rightarrow> tables \<Rightarrow> bool" where
  "tag_unique u d \<longleftrightarrow>
     inj_on (\<lambda>t. (tgTenantID t, tgKind t, foldName u (tgName t))) (set (rows (tags d)))"

definition address_unique :: "tables \<Rightarrow> bool" where
  "address_unique d \<longleftrightarrow> inj_on mbAddress (set (rows (mailboxes d)))"

definition comment_refs :: "tables \<Rightarrow> bool" where
  "comment_refs d \<longleftrightarrow> (\<forall>c \<in> set (rows (comments d)). owned (tickets d) (cmTenantID c) (cmTicketID c))"

definition attachment_refs :: "tables \<Rightarrow> bool" where
  "attachment_refs d \<longleftrightarrow>
     (\<forall>a \<in> set (rows (attachments d)). owned (tickets d) (atTenantID a) (atTicketID a) \<and>
        (atCommentID a \<noteq> [] \<longrightarrow>
           (\<exists>c. map_of (comments d) (atCommentID a) = Some c \<and> cmTenantID c = atTenantID a \<and>
                cmTicketID c = atTicketID a)))"

definition link_refs :: "tables \<Rightarrow> bool" where
  "link_refs d \<longleftrightarrow>
     (\<forall>(tid, gs) \<in> set (links d). distinct gs \<and>
        (\<exists>t. map_of (tickets d) tid = Some t \<and>
             (\<forall>g \<in> set gs. \<exists>x. map_of (tags d) g = Some x \<and> tgTenantID x = tkTenantID t)))"

definition history_refs :: "tables \<Rightarrow> bool" where
  "history_refs d \<longleftrightarrow> (\<forall>h \<in> set (history d). owned (tickets d) (hiTenantID h) (hiTicketID h))"

definition mailbox_refs :: "tables \<Rightarrow> bool" where
  "mailbox_refs d \<longleftrightarrow>
     (\<forall>t \<in> set (rows (tickets d)). tkMailboxID t \<noteq> [] \<longrightarrow>
        (\<exists>mb. map_of (mailboxes d) (tkMailboxID t) = Some mb \<and> mbTenantID mb = tkTenantID t))"

definition count_of :: "tables \<Rightarrow> string \<Rightarrow> nat" where
  "count_of d tid = length (filter (\<lambda>c. cmTicketID c = tid) (rows (comments d)))"

definition counts_ok :: "tables \<Rightarrow> bool" where
  "counts_ok d \<longleftrightarrow> (\<forall>t \<in> set (rows (tickets d)). tkCommentCount t = int (count_of d (tkID t)))"

definition mem_inv :: "unicode \<Rightarrow> tables \<Rightarrow> bool" where
  "mem_inv u d \<longleftrightarrow> keys_ok d \<and> external_unique d \<and> message_unique d \<and> storage_unique d \<and>
     tag_unique u d \<and> address_unique d \<and> comment_refs d \<and> attachment_refs d \<and> link_refs d \<and>
     history_refs d \<and> mailbox_refs d \<and> counts_ok d"

lemma mem_invD:
  assumes "mem_inv u d"
  shows "table_ok tkID (tickets d)" "table_ok cmID (comments d)" "table_ok atID (attachments d)"
    "table_ok tgID (tags d)" "table_ok ruID (rules d)" "table_ok mbID (mailboxes d)"
    "distinct (map fst (links d))"
    "external_unique d" "message_unique d" "storage_unique d" "tag_unique u d" "address_unique d"
    "comment_refs d" "attachment_refs d" "link_refs d" "history_refs d" "mailbox_refs d" "counts_ok d"
  using assms by (auto simp: mem_inv_def keys_ok_def)

lemma mem_inv_empty: "mem_inv u empty_tables"
  by (simp add: mem_inv_def empty_tables_def keys_ok_def external_unique_def message_unique_def
      storage_unique_def tag_unique_def address_unique_def comment_refs_def attachment_refs_def
      link_refs_def history_refs_def mailbox_refs_def counts_ok_def)

section \<open>Unique keys\<close>

lemma inj_on_replace:
  assumes "inj_on f A" and "t \<in> A" and "f t' = f t" and "B \<subseteq> insert t' (A - {t})"
  shows "inj_on f B"
proof -
  have "inj_on f (insert t' (A - {t}))"
    using assms(1-3) unfolding inj_on_insert by (auto simp: inj_on_def)
  then show ?thesis using assms(4) by (rule inj_on_subset)
qed

lemma inj_on_new:
  assumes "inj_on f A" and "\<And>x. x \<in> A \<Longrightarrow> f x \<noteq> f t" and "B \<subseteq> insert t A"
  shows "inj_on f B"
proof -
  have "inj_on f (insert t A)" using assms(1,2) unfolding inj_on_insert by (metis Diff_iff imageE)
  then show ?thesis using assms(3) by (rule inj_on_subset)
qed

section \<open>Ticket rows\<close>

text \<open>
  Replacing the row of a ticket keeps the integrity when the new row has the same identity and the
  same comment count: what \<open>UpdateTicket\<close>, \<open>SetAssignee\<close> and \<open>SetStatus\<close> do.
\<close>

lemma owned_update:
  assumes "map_of tb k = Some t" and "tkTenantID t' = tkTenantID t"
  shows "owned (AList.update k t' tb) tn i \<longleftrightarrow> owned tb tn i"
  using assms by (auto simp: owned_def update_conv)

lemma owned_insert:
  assumes "map_of tb k = None" and "owned tb tn i"
  shows "owned (AList.update k t' tb) tn i"
  using assms by (auto simp: owned_def update_conv)

definition same_ident :: "ticket \<Rightarrow> ticket \<Rightarrow> bool" where
  "same_ident t t' \<longleftrightarrow> tkID t' = tkID t \<and> tkTenantID t' = tkTenantID t \<and>
     tkExternalID t' = tkExternalID t \<and> tkMailboxID t' = tkMailboxID t"

lemma ticket_replace:
  assumes inv: "mem_inv u d" and old: "map_of (tickets d) k = Some t"
    and same: "same_ident t t'" and cnt: "tkCommentCount t' = tkCommentCount t"
  shows "mem_inv u (d\<lparr>tickets := AList.update k t' (tickets d)\<rparr>)"
proof -
  note D = mem_invD [OF inv]
  have k: "tkID t = k" "tkID t' = k"
    using table_lookup_id [OF D(1) old] same by (simp_all add: same_ident_def)
  have rows: "set (rows (AList.update k t' (tickets d))) = insert t' {x \<in> set (rows (tickets d)). tkID x \<noteq> k}"
    by (rule rows_update_ok [OF D(1) k(2)])
  have t: "t \<in> set (rows (tickets d))" using old by (rule lookup_mem_rows)
  have own: "owned (AList.update k t' (tickets d)) tn i \<longleftrightarrow> owned (tickets d) tn i" for tn i
    by (rule owned_update [OF old]) (use same in \<open>simp add: same_ident_def\<close>)
  have "external_unique (d\<lparr>tickets := AList.update k t' (tickets d)\<rparr>)"
  proof (cases "tkExternalID t = []")
    case True
    then show ?thesis
      using D(8) same by (auto simp: external_unique_def rows same_ident_def elim!: inj_on_subset)
  next
    case False
    then show ?thesis
      using D(8) t k(1) same unfolding external_unique_def
      by (elim inj_on_replace [where t = t and t' = t']) (auto simp: rows same_ident_def)
  qed
  moreover have "link_refs (d\<lparr>tickets := AList.update k t' (tickets d)\<rparr>)"
    using D(15) old same by (fastforce simp: link_refs_def update_conv same_ident_def)
  moreover have "mailbox_refs (d\<lparr>tickets := AList.update k t' (tickets d)\<rparr>)"
    using D(17) t same by (auto simp: mailbox_refs_def rows same_ident_def)
  moreover have "counts_ok (d\<lparr>tickets := AList.update k t' (tickets d)\<rparr>)"
    using D(18) t k cnt by (auto simp: counts_ok_def count_of_def rows)
  moreover have "table_ok tkID (AList.update k t' (tickets d))"
    using D(1) k(2) by (rule table_ok_update)
  ultimately show ?thesis
    using D by (simp add: mem_inv_def keys_ok_def message_unique_def storage_unique_def tag_unique_def
        address_unique_def comment_refs_def attachment_refs_def history_refs_def own)
qed

lemma count_of_new_ticket:
  assumes "mem_inv u d" and "map_of (tickets d) k = None"
  shows "count_of d k = 0"
  using mem_invD(13) [OF assms(1)] assms(2)
  by (fastforce simp: count_of_def comment_refs_def owned_def filter_empty_conv)

lemma ticket_insert:
  assumes inv: "mem_inv u d" and new: "map_of (tickets d) (tkID t) = None"
    and ext: "tkExternalID t \<noteq> [] \<Longrightarrow>
      \<forall>x \<in> set (rows (tickets d)). tkTenantID x = tkTenantID t \<longrightarrow> tkExternalID x \<noteq> tkExternalID t"
    and mb: "tkMailboxID t \<noteq> [] \<Longrightarrow>
      \<exists>mb. map_of (mailboxes d) (tkMailboxID t) = Some mb \<and> mbTenantID mb = tkTenantID t"
    and cnt: "tkCommentCount t = 0"
  shows "mem_inv u (d\<lparr>tickets := AList.update (tkID t) t (tickets d)\<rparr>)"
proof -
  note D = mem_invD [OF inv]
  have rows: "set (rows (AList.update (tkID t) t (tickets d))) = insert t (set (rows (tickets d)))"
    using new by (auto simp: rows_update_new)
  have own: "owned (tickets d) tn i \<Longrightarrow> owned (AList.update (tkID t) t (tickets d)) tn i" for tn i
    using new by (rule owned_insert)
  have "external_unique (d\<lparr>tickets := AList.update (tkID t) t (tickets d)\<rparr>)"
    using D(8) ext by (fastforce simp: external_unique_def inj_on_def rows)
  moreover have "link_refs (d\<lparr>tickets := AList.update (tkID t) t (tickets d)\<rparr>)"
    using D(15) new by (fastforce simp: link_refs_def update_conv)
  moreover have "mailbox_refs (d\<lparr>tickets := AList.update (tkID t) t (tickets d)\<rparr>)"
    using D(17) mb by (auto simp: mailbox_refs_def rows)
  moreover have "counts_ok (d\<lparr>tickets := AList.update (tkID t) t (tickets d)\<rparr>)"
    using D(18) cnt count_of_new_ticket [OF inv new] by (auto simp: counts_ok_def count_of_def rows)
  moreover have "table_ok tkID (AList.update (tkID t) t (tickets d))"
    using D(1) by (rule table_ok_update) simp
  ultimately show ?thesis
    using D own by (simp add: mem_inv_def keys_ok_def message_unique_def storage_unique_def tag_unique_def
        address_unique_def comment_refs_def attachment_refs_def history_refs_def)
qed

text \<open>Deleting a ticket with everything that hangs off it.\<close>

definition drop_ticket :: "string \<Rightarrow> tables \<Rightarrow> tables" where
  "drop_ticket k d = d\<lparr>attachments := filter (\<lambda>(_, a). atTicketID a \<noteq> k) (attachments d),
     comments := filter (\<lambda>(_, c). cmTicketID c \<noteq> k) (comments d),
     links := AList.delete k (links d),
     history := filter (\<lambda>h. hiTicketID h \<noteq> k) (history d),
     tickets := AList.delete k (tickets d)\<rparr>"

lemma ticket_drop:
  assumes inv: "mem_inv u d"
  shows "mem_inv u (drop_ticket k d)"
proof -
  note D = mem_invD [OF inv]
  let ?d = "drop_ticket k d"
  have rt: "set (rows (tickets ?d)) = {x \<in> set (rows (tickets d)). tkID x \<noteq> k}"
    using rows_delete_ok [OF D(1)] by (simp add: drop_ticket_def)
  have rc: "rows (comments ?d) = filter (\<lambda>c. cmTicketID c \<noteq> k) (rows (comments d))"
    by (simp add: drop_ticket_def rows_filter_table)
  have ra: "rows (attachments ?d) = filter (\<lambda>a. atTicketID a \<noteq> k) (rows (attachments d))"
    by (simp add: drop_ticket_def rows_filter_table)
  have own: "owned (tickets ?d) tn i \<longleftrightarrow> owned (tickets d) tn i \<and> i \<noteq> k" for tn i
    by (auto simp: owned_def drop_ticket_def delete_conv)
  have same: "tags ?d = tags d" "rules ?d = rules d" "mailboxes ?d = mailboxes d"
    by (simp_all add: drop_ticket_def)
  have hist: "set (history ?d) = {h \<in> set (history d). hiTicketID h \<noteq> k}"
    by (auto simp: drop_ticket_def)
  have cm: "map_of (comments ?d) i = (case map_of (comments d) i of None \<Rightarrow> None
      | Some c \<Rightarrow> if cmTicketID c \<noteq> k then Some c else None)" for i
    unfolding drop_ticket_def by (simp add: map_of_filter_table [OF D(2)])
  have "keys_ok ?d"
    using D by (auto simp: keys_ok_def drop_ticket_def table_ok_filter table_ok_delete distinct_delete)
  moreover have "external_unique ?d"
    using D(8) unfolding external_unique_def rt by (rule inj_on_subset) auto
  moreover have "message_unique ?d"
    using D(9) unfolding message_unique_def rc by (rule inj_on_subset) auto
  moreover have "storage_unique ?d"
    using D(10) unfolding storage_unique_def ra by (rule inj_on_subset) auto
  moreover have "tag_unique u ?d" "address_unique ?d"
    using D by (simp_all add: tag_unique_def address_unique_def same)
  moreover have "comment_refs ?d"
    using D(13) by (auto simp: comment_refs_def rc own)
  moreover have "attachment_refs ?d"
    using D(14) by (fastforce simp: attachment_refs_def ra own cm)
  moreover have "link_refs ?d"
    using D(15) by (fastforce simp: link_refs_def drop_ticket_def AList.delete_eq map_of_filter_in delete_conv)
  moreover have "history_refs ?d"
    using D(16) by (auto simp: history_refs_def hist own)
  moreover have "mailbox_refs ?d"
    using D(17) by (auto simp: mailbox_refs_def rt same)
  moreover have "counts_ok ?d"
    using D(18) by (auto simp: counts_ok_def count_of_def rt rc conj_commute intro!: arg_cong [where f = length] filter_cong)
  ultimately show ?thesis by (simp add: mem_inv_def)
qed

section \<open>Comment and attachment rows\<close>

lemma comment_replace:
  assumes inv: "mem_inv u d" and old: "map_of (comments d) k = Some c"
    and same: "cmID c' = cmID c" "cmTenantID c' = cmTenantID c" "cmTicketID c' = cmTicketID c"
      "cmMessageID c' = cmMessageID c"
  shows "mem_inv u (d\<lparr>comments := AList.update k c' (comments d)\<rparr>)"
proof -
  note D = mem_invD [OF inv]
  let ?d = "d\<lparr>comments := AList.update k c' (comments d)\<rparr>"
  have k: "cmID c = k" "cmID c' = k" using table_lookup_id [OF D(2) old] same by simp_all
  have rows: "set (rows (AList.update k c' (comments d))) = insert c' {x \<in> set (rows (comments d)). cmID x \<noteq> k}"
    by (rule rows_update_ok [OF D(2) k(2)])
  have c: "c \<in> set (rows (comments d))" using old by (rule lookup_mem_rows)
  obtain xs ys where split: "comments d = xs @ (k, c) # ys"
    "AList.update k c' (comments d) = xs @ (k, c') # ys"
    using update_decomp [OF old table_okD(1) [OF D(2)]] by metis
  then have cnt: "count_of ?d i = count_of d i" for i
    using same(3) by (simp add: count_of_def rows_def)
  have "message_unique ?d"
  proof (cases "cmMessageID c = []")
    case True
    then show ?thesis using D(9) same by (auto simp: message_unique_def rows elim!: inj_on_subset)
  next
    case False
    then show ?thesis
      using D(9) c k(1) same unfolding message_unique_def
      by (elim inj_on_replace [where t = c and t' = c']) (auto simp: rows)
  qed
  moreover have "comment_refs ?d" using D(13) c same by (auto simp: comment_refs_def rows)
  moreover have "attachment_refs ?d"
    using D(14) old same by (fastforce simp: attachment_refs_def update_conv)
  moreover have "counts_ok ?d" using D(18) by (simp add: counts_ok_def cnt)
  moreover have "table_ok cmID (AList.update k c' (comments d))"
    using D(2) k(2) by (rule table_ok_update)
  ultimately show ?thesis
    using D by (simp add: mem_inv_def keys_ok_def external_unique_def storage_unique_def tag_unique_def
        address_unique_def link_refs_def history_refs_def mailbox_refs_def)
qed

text \<open>
  A new comment and the ticket row that counts it, written together.
\<close>

lemma comment_insert:
  assumes inv: "mem_inv u d" and new: "map_of (comments d) (cmID c) = None"
    and msg: "cmMessageID c \<noteq> [] \<Longrightarrow>
      \<forall>x \<in> set (rows (comments d)). cmTenantID x = cmTenantID c \<longrightarrow> cmMessageID x \<noteq> cmMessageID c"
    and old: "map_of (tickets d) (cmTicketID c) = Some t" and tn: "tkTenantID t = cmTenantID c"
    and same: "same_ident t t'" and cnt: "tkCommentCount t' = tkCommentCount t + 1"
  shows "mem_inv u (d\<lparr>comments := AList.update (cmID c) c (comments d),
    tickets := AList.update (tkID t) t' (tickets d)\<rparr>)"
proof -
  note D = mem_invD [OF inv]
  let ?c = "AList.update (cmID c) c (comments d)" and ?t = "AList.update (tkID t) t' (tickets d)"
  let ?d = "d\<lparr>comments := ?c, tickets := ?t\<rparr>"
  have k: "tkID t = cmTicketID c" using table_lookup_id [OF D(1) old] .
  define t0 where "t0 = t'\<lparr>tkCommentCount := tkCommentCount t\<rparr>"
  have "mem_inv u (d\<lparr>tickets := AList.update (tkID t) t0 (tickets d)\<rparr>)"
    by (rule ticket_replace [OF inv]) (use old k same in \<open>auto simp: t0_def same_ident_def\<close>)
  note E = mem_invD [OF this]
  have rc: "rows ?c = rows (comments d) @ [c]" using new by (rule rows_update_new)
  have rt: "set (rows ?t) = insert t' {x \<in> set (rows (tickets d)). tkID x \<noteq> tkID t}"
    by (rule rows_update_ok [OF D(1)]) (use same in \<open>simp add: same_ident_def\<close>)
  have t: "t \<in> set (rows (tickets d))" using old by (rule lookup_mem_rows)
  have own: "owned ?t tn i \<longleftrightarrow> owned (tickets d) tn i" for tn i
    by (rule owned_update) (use old k same in \<open>simp_all add: same_ident_def\<close>)
  have "table_ok tkID ?t" "table_ok cmID ?c"
    using D(1,2) same by (auto intro!: table_ok_update simp: same_ident_def)
  moreover have "message_unique ?d"
  proof (cases "cmMessageID c = []")
    case True
    then show ?thesis using D(9) by (auto simp: message_unique_def rc elim!: inj_on_subset)
  next
    case False
    then show ?thesis
      using D(9) msg unfolding message_unique_def by (elim inj_on_new [where t = c]) (auto simp: rc)
  qed
  moreover have "external_unique ?d"
  proof (cases "tkExternalID t = []")
    case True
    then show ?thesis
      using D(8) same by (auto simp: external_unique_def rt same_ident_def elim!: inj_on_subset)
  next
    case False
    then show ?thesis
      using D(8) t same unfolding external_unique_def
      by (elim inj_on_replace [where t = t and t' = t']) (auto simp: rt same_ident_def)
  qed
  moreover have "comment_refs ?d"
    using D(13) old tn by (auto simp: comment_refs_def rc own) (auto simp: owned_def)
  moreover have "attachment_refs ?d"
    using D(14) new by (fastforce simp: attachment_refs_def own update_conv)
  moreover have "link_refs ?d"
    using D(15) old k same by (fastforce simp: link_refs_def update_conv same_ident_def)
  moreover have "history_refs ?d" using D(16) by (simp add: history_refs_def own)
  moreover have "mailbox_refs ?d"
    using D(17) t same by (auto simp: mailbox_refs_def rt same_ident_def)
  moreover have "counts_ok ?d"
    using D(18) t same cnt by (auto simp: counts_ok_def count_of_def rt rc same_ident_def k [symmetric])
  ultimately show ?thesis
    using D by (simp add: mem_inv_def keys_ok_def storage_unique_def tag_unique_def address_unique_def)
qed

text \<open>Removing attachment rows alone never hurts.\<close>

lemma attachments_filter:
  assumes "mem_inv u d"
  shows "mem_inv u (d\<lparr>attachments := filter (\<lambda>(_, a). P a) (attachments d)\<rparr>)"
  using assms
  by (auto simp: mem_inv_def keys_ok_def external_unique_def message_unique_def storage_unique_def
      tag_unique_def address_unique_def comment_refs_def attachment_refs_def link_refs_def
      history_refs_def mailbox_refs_def counts_ok_def count_of_def rows_filter_table
      elim!: inj_on_subset)

lemma attachment_insert:
  assumes inv: "mem_inv u d" and new: "map_of (attachments d) (atID a) = None"
    and key: "\<forall>x \<in> set (rows (attachments d)). atStorageKey x \<noteq> atStorageKey a"
    and own: "owned (tickets d) (atTenantID a) (atTicketID a)"
    and com: "atCommentID a \<noteq> [] \<Longrightarrow> \<exists>c. map_of (comments d) (atCommentID a) = Some c \<and>
      cmTenantID c = atTenantID a \<and> cmTicketID c = atTicketID a"
  shows "mem_inv u (d\<lparr>attachments := AList.update (atID a) a (attachments d)\<rparr>)"
proof -
  note D = mem_invD [OF inv]
  have ra: "rows (AList.update (atID a) a (attachments d)) = rows (attachments d) @ [a]"
    using new by (rule rows_update_new)
  have "storage_unique (d\<lparr>attachments := AList.update (atID a) a (attachments d)\<rparr>)"
    using D(10) key unfolding storage_unique_def by (elim inj_on_new [where t = a]) (auto simp: ra)
  moreover have "attachment_refs (d\<lparr>attachments := AList.update (atID a) a (attachments d)\<rparr>)"
    using D(14) own com by (auto simp: attachment_refs_def ra)
  moreover have "table_ok atID (AList.update (atID a) a (attachments d))"
    using D(3) by (rule table_ok_update) simp
  ultimately show ?thesis
    using D by (simp add: mem_inv_def keys_ok_def external_unique_def message_unique_def tag_unique_def
        address_unique_def comment_refs_def link_refs_def history_refs_def mailbox_refs_def
        counts_ok_def count_of_def)
qed

text \<open>Deleting a comment: its attachments go, and its ticket counts one less.\<close>

lemma comment_delete:
  assumes inv: "mem_inv u d" and old: "map_of (comments d) k = Some c"
    and tk: "map_of (tickets d) (cmTicketID c) = Some t"
  shows "0 < tkCommentCount t"
    and "mem_inv u (d\<lparr>attachments := filter (\<lambda>(_, a). atCommentID a \<noteq> k) (attachments d),
      comments := AList.delete k (comments d),
      tickets := AList.update (tkID t) (uncounted t) (tickets d)\<rparr>)"
proof -
  note D = mem_invD [OF inv]
  let ?t = "uncounted t"
  let ?d = "d\<lparr>attachments := filter (\<lambda>(_, a). atCommentID a \<noteq> k) (attachments d),
      comments := AList.delete k (comments d), tickets := AList.update (tkID t) ?t (tickets d)\<rparr>"
  have tid: "tkID t = cmTicketID c" using table_lookup_id [OF D(1) tk] .
  have tmem: "t \<in> set (rows (tickets d))" using tk by (rule lookup_mem_rows)
  obtain xs ys where split: "comments d = xs @ (k, c) # ys" "AList.delete k (comments d) = xs @ ys"
    using update_decomp [OF old table_okD(1) [OF D(2)]] by metis
  have cnt: "count_of d i = (if i = cmTicketID c then Suc (count_of ?d i) else count_of ?d i)" for i
    by (simp add: count_of_def rows_def split(1) split(2) [unfolded split(1)])
  have tcnt: "tkCommentCount t = int (count_of d (tkID t))" using D(18) tmem by (simp add: counts_ok_def)
  with cnt [of "tkID t"] show "0 < tkCommentCount t" using tid by simp
  have rt: "set (rows (AList.update (tkID t) ?t (tickets d))) =
      insert ?t {x \<in> set (rows (tickets d)). tkID x \<noteq> tkID t}"
    by (rule rows_update_ok [OF D(1)]) simp
  have ra: "rows (filter (\<lambda>(_, a). atCommentID a \<noteq> k) (attachments d)) =
      filter (\<lambda>a. atCommentID a \<noteq> k) (rows (attachments d))"
    by (rule rows_filter_table)
  have rc: "set (rows (AList.delete k (comments d))) = {x \<in> set (rows (comments d)). cmID x \<noteq> k}"
    by (rule rows_delete_ok [OF D(2)])
  have own: "owned (AList.update (tkID t) ?t (tickets d)) tn i \<longleftrightarrow> owned (tickets d) tn i" for tn i
    by (rule owned_update) (use tk tid in simp_all)
  have "keys_ok ?d"
    using D by (auto simp: keys_ok_def intro!: table_ok_filter table_ok_delete table_ok_update)
  moreover have "external_unique ?d"
  proof (cases "tkExternalID t = []")
    case True
    then show ?thesis using D(8) by (auto simp: external_unique_def rt elim!: inj_on_subset)
  next
    case False
    then show ?thesis
      using D(8) tmem unfolding external_unique_def
      by (elim inj_on_replace [where t = t and t' = ?t]) (auto simp: rt)
  qed
  moreover have "message_unique ?d" using D(9) by (auto simp: message_unique_def rc elim!: inj_on_subset)
  moreover have "storage_unique ?d" using D(10) by (auto simp: storage_unique_def ra elim!: inj_on_subset)
  moreover have "comment_refs ?d" using D(13) by (auto simp: comment_refs_def rc own)
  moreover have "attachment_refs ?d" using D(14) by (auto simp: attachment_refs_def ra own delete_conv)
  moreover have "link_refs ?d"
    using D(15) tk tid by (fastforce simp: link_refs_def update_conv)
  moreover have "history_refs ?d" using D(16) by (simp add: history_refs_def own)
  moreover have "mailbox_refs ?d" using D(17) tmem by (auto simp: mailbox_refs_def rt)
  moreover have "counts_ok ?d"
  proof -
    have "tkCommentCount x = int (count_of ?d (tkID x))"
      if "x = ?t \<or> x \<in> set (rows (tickets d)) \<and> tkID x \<noteq> tkID t" for x
    proof (cases "x = ?t")
      case True
      then show ?thesis using tcnt cnt [of "tkID t"] tid by simp
    next
      case False
      then have "tkCommentCount x = int (count_of d (tkID x))" "tkID x \<noteq> cmTicketID c"
        using that D(18) tid by (auto simp: counts_ok_def)
      then show ?thesis using cnt [of "tkID x"] by simp
    qed
    moreover have "set (rows (tickets ?d)) = insert ?t {x \<in> set (rows (tickets d)). tkID x \<noteq> tkID t}"
      using rt by simp
    ultimately show ?thesis unfolding counts_ok_def by blast
  qed
  ultimately show "mem_inv u ?d"
    using D by (simp add: mem_inv_def tag_unique_def address_unique_def)
qed

section \<open>Tags and links\<close>

lemma tagConflict_iff:
  "tagConflict u tb t \<longleftrightarrow> (\<exists>x \<in> set (rows tb). tgID x \<noteq> tgID t \<and>
     (tgTenantID x, tgKind x, foldName u (tgName x)) = (tgTenantID t, tgKind t, foldName u (tgName t)))"
  by (auto simp: tagConflict_def EqualFold_def foldName_def)

lemma tag_insert:
  assumes inv: "mem_inv u d" and new: "map_of (tags d) (tgID t) = None"
    and nc: "\<not> tagConflict u (tags d) t"
  shows "mem_inv u (d\<lparr>tags := AList.update (tgID t) t (tags d)\<rparr>)"
proof -
  note D = mem_invD [OF inv]
  have rg: "rows (AList.update (tgID t) t (tags d)) = rows (tags d) @ [t]"
    using new by (rule rows_update_new)
  have ids: "tgID x \<noteq> tgID t" if "x \<in> set (rows (tags d))" for x
    using that new rows_lookup_iff [OF D(4), of x] by auto
  have "tag_unique u (d\<lparr>tags := AList.update (tgID t) t (tags d)\<rparr>)"
    using D(11) nc ids unfolding tag_unique_def tagConflict_iff
    by (elim inj_on_new [where t = t]) (auto simp: rg)
  moreover have "link_refs (d\<lparr>tags := AList.update (tgID t) t (tags d)\<rparr>)"
    using D(15) new by (fastforce simp: link_refs_def update_conv)
  moreover have "table_ok tgID (AList.update (tgID t) t (tags d))"
    using D(4) by (rule table_ok_update) simp
  ultimately show ?thesis
    using D by (simp add: mem_inv_def keys_ok_def external_unique_def message_unique_def storage_unique_def
        address_unique_def comment_refs_def attachment_refs_def history_refs_def mailbox_refs_def
        counts_ok_def count_of_def)
qed

lemma tag_replace:
  assumes inv: "mem_inv u d" and old: "map_of (tags d) (tgID t) = Some c"
    and tn: "tgTenantID t = tgTenantID c" and nc: "\<not> tagConflict u (tags d) t"
  shows "mem_inv u (d\<lparr>tags := AList.update (tgID t) t (tags d)\<rparr>)"
proof -
  note D = mem_invD [OF inv]
  have rg: "set (rows (AList.update (tgID t) t (tags d))) = insert t {x \<in> set (rows (tags d)). tgID x \<noteq> tgID t}"
    by (rule rows_update_ok [OF D(4)]) simp
  have "inj_on (\<lambda>t. (tgTenantID t, tgKind t, foldName u (tgName t))) {x \<in> set (rows (tags d)). tgID x \<noteq> tgID t}"
    using D(11) unfolding tag_unique_def by (rule inj_on_subset) auto
  then have "tag_unique u (d\<lparr>tags := AList.update (tgID t) t (tags d)\<rparr>)"
    using nc unfolding tag_unique_def tagConflict_iff
    by (elim inj_on_new [where t = t]) (auto simp: rg)
  moreover have "link_refs (d\<lparr>tags := AList.update (tgID t) t (tags d)\<rparr>)"
    using D(15) old tn by (fastforce simp: link_refs_def update_conv)
  moreover have "table_ok tgID (AList.update (tgID t) t (tags d))"
    using D(4) by (rule table_ok_update) simp
  ultimately show ?thesis
    using D by (simp add: mem_inv_def keys_ok_def external_unique_def message_unique_def storage_unique_def
        address_unique_def comment_refs_def attachment_refs_def history_refs_def mailbox_refs_def
        counts_ok_def count_of_def)
qed

lemma tag_delete:
  assumes inv: "mem_inv u d"
  shows "mem_inv u (d\<lparr>tags := AList.delete k (tags d), links := map (map_prod id (removeAll k)) (links d)\<rparr>)"
proof -
  note D = mem_invD [OF inv]
  let ?d = "d\<lparr>tags := AList.delete k (tags d), links := map (map_prod id (removeAll k)) (links d)\<rparr>"
  have "set (rows (AList.delete k (tags d))) = {x \<in> set (rows (tags d)). tgID x \<noteq> k}"
    by (rule rows_delete_ok [OF D(4)])
  then have "tag_unique u ?d" using D(11) by (auto simp: tag_unique_def elim!: inj_on_subset)
  moreover have "link_refs ?d"
    using D(15) by (fastforce simp: link_refs_def delete_conv distinct_removeAll)
  moreover have "distinct (map fst (links ?d))" using D(7) by (simp add: comp_def)
  moreover have "table_ok tgID (AList.delete k (tags d))" using D(4) by (rule table_ok_delete)
  ultimately show ?thesis
    using D by (simp add: mem_inv_def keys_ok_def external_unique_def message_unique_def storage_unique_def
        address_unique_def comment_refs_def attachment_refs_def history_refs_def mailbox_refs_def
        counts_ok_def count_of_def)
qed

lemma links_set:
  assumes inv: "mem_inv u d" and ok: "checkTags d tenantID tid new = Inr ()"
    and gs: "set gs \<subseteq> set new \<union> (case map_of (links d) tid of None \<Rightarrow> {} | Some cur \<Rightarrow> set cur)"
    and dist: "distinct gs"
  shows "mem_inv u (d\<lparr>links := AList.update tid gs (links d)\<rparr>)"
proof -
  note D = mem_invD [OF inv]
  let ?d = "d\<lparr>links := AList.update tid gs (links d)\<rparr>"
  obtain t where t: "map_of (tickets d) tid = Some t" "tkTenantID t = tenantID"
    and new: "\<forall>g \<in> set new. \<exists>x. map_of (tags d) g = Some x \<and> tgTenantID x = tenantID"
    using ok by (fastforce simp: checkTags_def ticket_of_def scoped_iff split: sum.splits if_splits option.splits)
  have cur: "\<forall>g \<in> set cur. \<exists>x. map_of (tags d) g = Some x \<and> tgTenantID x = tenantID"
    if "map_of (links d) tid = Some cur" for cur
    using D(15) map_of_SomeD [OF that] t by (fastforce simp: link_refs_def)
  have "\<forall>g \<in> set gs. \<exists>x. map_of (tags d) g = Some x \<and> tgTenantID x = tenantID"
    using gs new cur by (cases "map_of (links d) tid") fastforce+
  then have "link_refs ?d"
    using D(15) t dist by (fastforce simp: link_refs_def set_update_table [OF D(7)])
  moreover have "distinct (map fst (AList.update tid gs (links d)))"
    using D(7) by (rule distinct_update)
  ultimately show ?thesis
    using D by (simp add: mem_inv_def keys_ok_def external_unique_def message_unique_def storage_unique_def
        tag_unique_def address_unique_def comment_refs_def attachment_refs_def history_refs_def
        mailbox_refs_def counts_ok_def count_of_def)
qed

section \<open>Mailboxes, rules, history, audit\<close>

lemma mailbox_write:
  assumes inv: "mem_inv u d" and old: "\<And>c. map_of (mailboxes d) (mbID mb) = Some c \<Longrightarrow> mbTenantID c = mbTenantID mb"
    and free: "\<not> addressTaken (mailboxes d) (mbID mb) (mbAddress mb)"
  shows "mem_inv u (d\<lparr>mailboxes := AList.update (mbID mb) mb (mailboxes d)\<rparr>)"
proof -
  note D = mem_invD [OF inv]
  let ?d = "d\<lparr>mailboxes := AList.update (mbID mb) mb (mailboxes d)\<rparr>"
  have rm: "set (rows (AList.update (mbID mb) mb (mailboxes d))) =
      insert mb {x \<in> set (rows (mailboxes d)). mbID x \<noteq> mbID mb}"
    by (rule rows_update_ok [OF D(6)]) simp
  have "inj_on mbAddress {x \<in> set (rows (mailboxes d)). mbID x \<noteq> mbID mb}"
    using D(12) unfolding address_unique_def by (rule inj_on_subset) auto
  then have "address_unique ?d"
    using free unfolding address_unique_def addressTaken_def
    by (elim inj_on_new [where t = mb]) (auto simp: rm)
  moreover have "mailbox_refs ?d"
    using D(17) old by (fastforce simp: mailbox_refs_def update_conv)
  moreover have "table_ok mbID (AList.update (mbID mb) mb (mailboxes d))"
    using D(6) by (rule table_ok_update) simp
  ultimately show ?thesis
    using D by (simp add: mem_inv_def keys_ok_def external_unique_def message_unique_def storage_unique_def
        tag_unique_def comment_refs_def attachment_refs_def link_refs_def history_refs_def
        counts_ok_def count_of_def)
qed

lemma map_of_map_prod: "map_of (map (map_prod id f) tb) k = map_option f (map_of tb k)"
  by (induction tb) auto

lemma rows_map_prod: "rows (map (map_prod id f) tb) = map f (rows tb)"
  by (induction tb) auto

lemma detach_absent:
  assumes "filter (\<lambda>(_, t). tkMailboxID t = k) tb = []"
  shows "map (map_prod id (detach k)) tb = tb"
  using assms by (induction tb) (auto simp: detach_def split: if_splits)

lemma mailbox_delete:
  assumes inv: "mem_inv u d"
  shows "mem_inv u (d\<lparr>tickets := map (map_prod id (detach k)) (tickets d), mailboxes := AList.delete k (mailboxes d)\<rparr>)"
proof -
  note D = mem_invD [OF inv]
  let ?d = "d\<lparr>tickets := map (map_prod id (detach k)) (tickets d), mailboxes := AList.delete k (mailboxes d)\<rparr>"
  have own: "owned (tickets ?d) tn i \<longleftrightarrow> owned (tickets d) tn i" for tn i
    by (auto simp: owned_def map_of_map_prod)
  have rm: "set (rows (mailboxes ?d)) = {x \<in> set (rows (mailboxes d)). mbID x \<noteq> k}"
    using rows_delete_ok [OF D(6)] by simp
  have "inj_on (\<lambda>t. (tkTenantID t, tkExternalID t)) (detach k ` {t \<in> set (rows (tickets d)). tkExternalID t \<noteq> []})"
    using D(8) unfolding external_unique_def by (auto simp: inj_on_def)
  then have "external_unique ?d"
    unfolding external_unique_def by (rule inj_on_subset) (auto simp: rows_map_prod)
  moreover have "address_unique ?d"
    using D(12) unfolding address_unique_def rm by (rule inj_on_subset) auto
  moreover have "comment_refs ?d" "attachment_refs ?d" "history_refs ?d"
    using D(13,14,16) own by (simp_all add: comment_refs_def attachment_refs_def history_refs_def)
  moreover have "link_refs ?d"
    using D(15) by (fastforce simp: link_refs_def map_of_map_prod)
  moreover have "mailbox_refs ?d"
    using D(17) by (fastforce simp: mailbox_refs_def rows_map_prod detach_def delete_conv split: if_splits)
  moreover have "counts_ok ?d"
    using D(18) by (simp add: counts_ok_def count_of_def rows_map_prod)
  moreover have "table_ok tkID (tickets ?d)" using table_ok_map_ran [OF D(1), of "detach k"] by simp
  moreover have "table_ok mbID (mailboxes ?d)" using table_ok_delete [OF D(6)] by simp
  ultimately show ?thesis
    using D by (simp add: mem_inv_def keys_ok_def message_unique_def storage_unique_def tag_unique_def)
qed

lemma rules_write:
  assumes "mem_inv u d" and "table_ok ruID tb"
  shows "mem_inv u (d\<lparr>rules := tb\<rparr>)"
  using assms
  by (simp add: mem_inv_def keys_ok_def external_unique_def message_unique_def storage_unique_def
      tag_unique_def address_unique_def comment_refs_def attachment_refs_def link_refs_def
      history_refs_def mailbox_refs_def counts_ok_def count_of_def)

lemma history_append:
  assumes "mem_inv u d" and "owned (tickets d) (hiTenantID h) (hiTicketID h)"
  shows "mem_inv u (d\<lparr>history := history d @ [h]\<rparr>)"
  using assms
  by (simp add: mem_inv_def keys_ok_def external_unique_def message_unique_def storage_unique_def
      tag_unique_def address_unique_def comment_refs_def attachment_refs_def link_refs_def
      history_refs_def mailbox_refs_def counts_ok_def count_of_def ball_Un)

lemma audit_write:
  assumes "mem_inv u d"
  shows "mem_inv u (d\<lparr>audit := au\<rparr>)"
  using assms
  by (simp add: mem_inv_def keys_ok_def external_unique_def message_unique_def storage_unique_def
      tag_unique_def address_unique_def comment_refs_def attachment_refs_def link_refs_def
      history_refs_def mailbox_refs_def counts_ok_def count_of_def)

section \<open>Introduction rules\<close>

text \<open>The same facts with the key apart from the row, as the methods write them.\<close>

lemma ticket_insertI:
  assumes "mem_inv u d" and "tkID t = k" and "map_of (tickets d) k = None"
    and "tkExternalID t \<noteq> [] \<Longrightarrow>
      \<forall>x \<in> set (rows (tickets d)). tkTenantID x = tkTenantID t \<longrightarrow> tkExternalID x \<noteq> tkExternalID t"
    and "tkMailboxID t \<noteq> [] \<Longrightarrow>
      \<exists>mb. map_of (mailboxes d) (tkMailboxID t) = Some mb \<and> mbTenantID mb = tkTenantID t"
    and "tkCommentCount t = 0"
  shows "mem_inv u (d\<lparr>tickets := AList.update k t (tickets d)\<rparr>)"
  using assms ticket_insert by blast

lemma comment_insertI:
  assumes "mem_inv u d" and "cmID c = k" and "map_of (comments d) k = None"
    and "cmMessageID c \<noteq> [] \<Longrightarrow>
      \<forall>x \<in> set (rows (comments d)). cmTenantID x = cmTenantID c \<longrightarrow> cmMessageID x \<noteq> cmMessageID c"
    and "map_of (tickets d) (cmTicketID c) = Some t" and "tkTenantID t = cmTenantID c"
    and "same_ident t t'" and "tkCommentCount t' = tkCommentCount t + 1" and "tkID t = i"
  shows "mem_inv u (d\<lparr>comments := AList.update k c (comments d), tickets := AList.update i t' (tickets d)\<rparr>)"
  using assms comment_insert by blast

lemma attachment_insertI:
  assumes "mem_inv u d" and "atID a = k" and "map_of (attachments d) k = None"
    and "\<forall>x \<in> set (rows (attachments d)). atStorageKey x \<noteq> atStorageKey a"
    and "owned (tickets d) (atTenantID a) (atTicketID a)"
    and "atCommentID a \<noteq> [] \<Longrightarrow> \<exists>c. map_of (comments d) (atCommentID a) = Some c \<and>
      cmTenantID c = atTenantID a \<and> cmTicketID c = atTicketID a"
  shows "mem_inv u (d\<lparr>attachments := AList.update k a (attachments d)\<rparr>)"
  using assms attachment_insert by blast

lemma tag_insertI:
  assumes "mem_inv u d" and "tgID t = k" and "map_of (tags d) k = None" and "\<not> tagConflict u (tags d) t"
  shows "mem_inv u (d\<lparr>tags := AList.update k t (tags d)\<rparr>)"
  using assms tag_insert by blast

lemma tag_replaceI:
  assumes "mem_inv u d" and "tgID t = k" and "map_of (tags d) k = Some c"
    and "tgTenantID t = tgTenantID c" and "\<not> tagConflict u (tags d) t"
  shows "mem_inv u (d\<lparr>tags := AList.update k t (tags d)\<rparr>)"
  using assms tag_replace by blast

lemma mailbox_writeI:
  assumes "mem_inv u d" and "mbID mb = k"
    and "\<And>c. map_of (mailboxes d) k = Some c \<Longrightarrow> mbTenantID c = mbTenantID mb"
    and "\<not> addressTaken (mailboxes d) k (mbAddress mb)"
  shows "mem_inv u (d\<lparr>mailboxes := AList.update k mb (mailboxes d)\<rparr>)"
  using assms mailbox_write by blast

end
