(* ===== verification/MemKeep.thy ===== *)
theory MemKeep
  imports MemInv
begin

text \<open>
  Every method of the store keeps its integrity, one lemma per method or group of methods.
\<close>

section \<open>The methods\<close>

definition store_ok :: "'a mem_scheme \<Rightarrow> bool" where
  "store_ok w \<longleftrightarrow> mem_inv (ucd w) (db w)"

lemma store_ok_basic [keeps]:
  "preserves store_ok (fail m)" "preserves store_ok Now" "preserves store_ok NewID"
  "preserves store_ok (look f)" "preserves store_ok (FailNext m)" "preserves store_ok (failLocked m)"
  by (auto simp: preserves_iff store_ok_def fail_def failLocked_def Now_def NewID_eq look_def FailNext_def op_defs)

text \<open>The reading methods change no table.\<close>

lemma store_ok_reads [keeps]:
  "preserves store_ok (GetTicket tn i)"
  "preserves store_ok (FindTicketByExternalID tn x)"
  "preserves store_ok (ListTickets S1 W1 tn f req)"
  "preserves store_ok (GetComment tn i)"
  "preserves store_ok (ListComments tn i)"
  "preserves store_ok (FindCommentByMessageID tn x)"
  "preserves store_ok (LastMessageID tn i)"
  "preserves store_ok (ListAttachments tn i)"
  "preserves store_ok (GetAttachment tn i j)"
  "preserves store_ok (GetTag tn i)"
  "preserves store_ok (ListTags tn k)"
  "preserves store_ok (PageTags S2 W2 tn k req)"
  "preserves store_ok (TagsForTickets tn is)"
  "preserves store_ok (GetRule tn i)"
  "preserves store_ok (ListRules tn)"
  "preserves store_ok (PageRules S3 W3 tn req)"
  "preserves store_ok (ListEnabledRules tn)"
  "preserves store_ok (GetMailbox tn i)"
  "preserves store_ok (ListMailboxes tn)"
  "preserves store_ok (PageMailboxes S4 W4 tn req)"
  "preserves store_ok (RouteMailbox x)"
  "preserves store_ok (ListHistory tn i)"
  "preserves store_ok (AllTickets tn)"
  "preserves store_ok (AllComments tn)"
  "preserves store_ok (AllAttachments tn)"
  "preserves store_ok (AllTagLinks tn)"
  "preserves store_ok (AllHistory tn)"
  "preserves store_ok TenantIDs"
  unfolding GetTicket_def FindTicketByExternalID_def ListTickets_def GetComment_def ListComments_def
    FindCommentByMessageID_def LastMessageID_def ListAttachments_def GetAttachment_def GetTag_def
    ListTags_def PageTags_def TagsForTickets_def GetRule_def ListRules_def PageRules_def
    ListEnabledRules_def GetMailbox_def ListMailboxes_def PageMailboxes_def RouteMailbox_def
    ListHistory_def AllTickets_def AllComments_def AllAttachments_def AllTagLinks_def AllHistory_def
    TenantIDs_def Let_def
  by (intro keeps)+

lemmas store_run = run preserves_iff store_ok_def Let_def

lemma tagConflict_stored [simp]: "tagConflict u tb (storedTag now t) = tagConflict u tb t"
  by (simp add: tagConflict_def)

lemma ownedI: "ticket_of d tn i = Inr t \<Longrightarrow> owned (tickets d) tn i"
  by (auto simp: owned_def ticket_of_def scoped_iff)

lemma CreateTicket_ok:
  assumes "tkCommentCount t = 0"
  shows "preserves store_ok (CreateTicket t)"
  using assms
  by (auto simp: CreateTicket_def store_run intro!: ticket_insertI split: option.splits)

lemma ticket_writes [keeps]:
  "preserves store_ok (UpdateTicket tn i p at)"
  "preserves store_ok (SetAssignee tn i aid an at)"
  "preserves store_ok (SetStatus tn i st at)"
  by (auto simp: UpdateTicket_def SetAssignee_def SetStatus_def store_run ticket_of_def scoped_iff same_ident_def
      intro!: ticket_replace split: sum.splits)

lemma DeleteTicket_ok [keeps]: "preserves store_ok (DeleteTicket tn i)"
  using ticket_drop [where k = i]
  by (auto simp: DeleteTicket_def store_run drop_ticket_def split: sum.splits)

lemma CreateComment_ok [keeps]: "preserves store_ok (CreateComment c)"
  by (auto simp: CreateComment_def store_run ticket_of_def scoped_iff same_ident_def
      intro!: comment_insertI split: sum.splits)

lemma SetCommentDelivery_ok [keeps]: "preserves store_ok (SetCommentDelivery tn i v)"
  by (auto simp: SetCommentDelivery_def store_run comment_of_def scoped_iff
      intro!: comment_replace split: sum.splits)

lemma DeleteComment_ok [keeps]: "preserves store_ok (DeleteComment tn i)"
proof (rule preservesI)
  fix w :: "'a mem_scheme"
  assume ok: "store_ok w"
  show "store_ok (snd (DeleteComment tn i w))"
  proof (cases "''DeleteComment'' \<in> set (failNext w)")
    case True
    with ok show ?thesis by (simp add: DeleteComment_def store_run)
  next
    case nf: False
    show ?thesis
    proof (cases "comment_of (db w) tn i")
      case (Inl e)
      with ok nf show ?thesis by (simp add: DeleteComment_def store_run)
    next
      case (Inr c)
      then have c: "map_of (comments (db w)) i = Some c" by (simp add: comment_of_def scoped_iff)
      obtain t where t: "map_of (tickets (db w)) (cmTicketID c) = Some t"
        using ok mem_invD(13) lookup_mem_rows [OF c] by (fastforce simp: store_ok_def comment_refs_def owned_def)
      show ?thesis
        using ok nf Inr t comment_delete [OF ok [unfolded store_ok_def] c t]
        by (simp add: DeleteComment_def store_run)
    qed
  qed
qed

lemma attachment_writes [keeps]:
  "preserves store_ok (CreateAttachment a)"
  "preserves store_ok (DeleteAttachmentsByTicket tn i)"
  by (auto simp: CreateAttachment_def DeleteAttachmentsByTicket_def store_run dest!: ownedI
      intro!: attachment_insertI attachments_filter split: sum.splits option.splits)

lemma createTag_ok: "preserves store_ok (createTag t)"
  by (auto simp: createTag_def store_run intro!: tag_insertI)

lemma tag_writes [keeps]:
  "preserves store_ok (CreateTag t)"
  "preserves store_ok (EnsureTagByName tn k n)"
  "preserves store_ok (UpdateTag t)"
  "preserves store_ok (DeleteTag tn i)"
proof -
  show "preserves store_ok (CreateTag t)" "preserves store_ok (EnsureTagByName tn k n)"
    unfolding CreateTag_def EnsureTagByName_def Let_def by (intro keeps createTag_ok)+
  show "preserves store_ok (UpdateTag t)"
    by (auto simp: UpdateTag_def store_run tag_of_def scoped_iff intro!: tag_replaceI split: sum.splits)
  show "preserves store_ok (DeleteTag tn i)"
    by (auto simp: DeleteTag_def store_run intro!: tag_delete split: sum.splits)
qed

lemma fold_insert_set: "set (fold List.insert gs cur) = set gs \<union> set cur"
  by (induction gs arbitrary: cur) auto

lemma fold_insert_distinct: "distinct cur \<Longrightarrow> distinct (fold List.insert gs cur)"
  by (induction gs arbitrary: cur) auto

lemma link_writes [keeps]:
  "preserves store_ok (SetTicketTags tn i gs)"
  "preserves store_ok (AddTicketTags tn i gs)"
proof -
  show "preserves store_ok (SetTicketTags tn i gs)"
    by (auto simp: SetTicketTags_def store_run fold_insert_set fold_insert_distinct
        intro!: links_set [of _ _ tn i gs] split: sum.splits)
  have "distinct cur" if "mem_inv u d" "map_of (links d) i = Some cur" for u d cur
    using mem_invD(15) [OF that(1)] map_of_SomeD [OF that(2)] by (auto simp: link_refs_def)
  note [dest] = this
  show "preserves store_ok (AddTicketTags tn i gs)"
    by (auto simp: AddTicketTags_def store_run fold_insert_set fold_insert_distinct
        intro!: links_set [of _ _ tn i gs] split: sum.splits option.splits)
qed

lemma rule_writes [keeps]:
  "preserves store_ok (CreateRule r)"
  "preserves store_ok (UpdateRule r)"
  "preserves store_ok (DeleteRule tn i)"
  by (auto simp: CreateRule_def UpdateRule_def DeleteRule_def store_run
      intro!: rules_write dest: mem_invD(5) split: sum.splits)

lemma mailbox_writes [keeps]:
  "preserves store_ok (CreateMailbox mb)"
  "preserves store_ok (UpdateMailbox mb)"
  "preserves store_ok (DeleteMailbox tn i force)"
proof -
  show "preserves store_ok (CreateMailbox mb)"
    by (auto simp: CreateMailbox_def store_run intro!: mailbox_writeI)
  show "preserves store_ok (UpdateMailbox mb)"
    by (auto simp: UpdateMailbox_def store_run mailbox_of_def scoped_iff intro!: mailbox_writeI split: sum.splits)
  show "preserves store_ok (DeleteMailbox tn i force)"
    by (auto simp: DeleteMailbox_def store_run intro!: mailbox_delete split: sum.splits)
qed

lemma log_writes [keeps]:
  "preserves store_ok (AppendHistory h)"
  "preserves store_ok (AppendAudit row)"
  by (auto simp: AppendHistory_def AppendAudit_def store_run dest!: ownedI
      intro!: history_append audit_write split: sum.splits)

end
