(* ===== verification/MemReach.thy ===== *)
theory MemReach
  imports MemKeep
begin

text \<open>
  The store as a transition system. A \<open>call\<close> is one invocation of a mutating method with its
  arguments; the mutex makes it one atomic step, so every interleaving of concurrent callers is a
  sequence of calls. The integrity holds in every reachable state, and a call on behalf of one
  tenant leaves everything another tenant can see unchanged.
\<close>

section \<open>Calls and steps\<close>

datatype call =
    CCreateTicket ticket
  | CUpdateTicket string string ticket_patch time
  | CSetAssignee string string string string time
  | CSetStatus string string string time
  | CDeleteTicket string string
  | CCreateComment comment
  | CSetCommentDelivery string string string
  | CDeleteComment string string
  | CCreateAttachment attachment
  | CDeleteAttachmentsByTicket string string
  | CCreateTag tag
  | CUpdateTag tag
  | CDeleteTag string string
  | CEnsureTagByName string string string
  | CSetTicketTags string string "string list"
  | CAddTicketTags string string "string list"
  | CCreateRule rule
  | CUpdateRule rule
  | CDeleteRule string string
  | CCreateMailbox mailbox
  | CUpdateMailbox mailbox
  | CDeleteMailbox string string bool
  | CAppendHistory history

fun perform :: "call \<Rightarrow> 'a mem_scheme \<Rightarrow> 'a mem_scheme" where
  "perform (CCreateTicket t) w = snd (CreateTicket t w)"
| "perform (CUpdateTicket tn i p at) w = snd (UpdateTicket tn i p at w)"
| "perform (CSetAssignee tn i aid an at) w = snd (SetAssignee tn i aid an at w)"
| "perform (CSetStatus tn i st at) w = snd (SetStatus tn i st at w)"
| "perform (CDeleteTicket tn i) w = snd (DeleteTicket tn i w)"
| "perform (CCreateComment c) w = snd (CreateComment c w)"
| "perform (CSetCommentDelivery tn i v) w = snd (SetCommentDelivery tn i v w)"
| "perform (CDeleteComment tn i) w = snd (DeleteComment tn i w)"
| "perform (CCreateAttachment a) w = snd (CreateAttachment a w)"
| "perform (CDeleteAttachmentsByTicket tn i) w = snd (DeleteAttachmentsByTicket tn i w)"
| "perform (CCreateTag t) w = snd (CreateTag t w)"
| "perform (CUpdateTag t) w = snd (UpdateTag t w)"
| "perform (CDeleteTag tn i) w = snd (DeleteTag tn i w)"
| "perform (CEnsureTagByName tn k n) w = snd (EnsureTagByName tn k n w)"
| "perform (CSetTicketTags tn i gs) w = snd (SetTicketTags tn i gs w)"
| "perform (CAddTicketTags tn i gs) w = snd (AddTicketTags tn i gs w)"
| "perform (CCreateRule r) w = snd (CreateRule r w)"
| "perform (CUpdateRule r) w = snd (UpdateRule r w)"
| "perform (CDeleteRule tn i) w = snd (DeleteRule tn i w)"
| "perform (CCreateMailbox mb) w = snd (CreateMailbox mb w)"
| "perform (CUpdateMailbox mb) w = snd (UpdateMailbox mb w)"
| "perform (CDeleteMailbox tn i force) w = snd (DeleteMailbox tn i force w)"
| "perform (CAppendHistory h) w = snd (AppendHistory h w)"

text \<open>The tenant a call is made for.\<close>

fun caller :: "call \<Rightarrow> string" where
  "caller (CCreateTicket t) = tkTenantID t"
| "caller (CUpdateTicket tn i p at) = tn"
| "caller (CSetAssignee tn i aid an at) = tn"
| "caller (CSetStatus tn i st at) = tn"
| "caller (CDeleteTicket tn i) = tn"
| "caller (CCreateComment c) = cmTenantID c"
| "caller (CSetCommentDelivery tn i v) = tn"
| "caller (CDeleteComment tn i) = tn"
| "caller (CCreateAttachment a) = atTenantID a"
| "caller (CDeleteAttachmentsByTicket tn i) = tn"
| "caller (CCreateTag t) = tgTenantID t"
| "caller (CUpdateTag t) = tgTenantID t"
| "caller (CDeleteTag tn i) = tn"
| "caller (CEnsureTagByName tn k n) = tn"
| "caller (CSetTicketTags tn i gs) = tn"
| "caller (CAddTicketTags tn i gs) = tn"
| "caller (CCreateRule r) = ruTenantID r"
| "caller (CUpdateRule r) = ruTenantID r"
| "caller (CDeleteRule tn i) = tn"
| "caller (CCreateMailbox mb) = mbTenantID mb"
| "caller (CUpdateMailbox mb) = mbTenantID mb"
| "caller (CDeleteMailbox tn i force) = tn"
| "caller (CAppendHistory h) = hiTenantID h"

text \<open>
  Every caller of \<open>CreateTicket\<close> (\<open>tickets.Create\<close>, \<open>inbound.create\<close>,
  \<open>backup\<close>) hands in a ticket without comments; the calls that create one record the count.
\<close>

fun admissible :: "call \<Rightarrow> bool" where
  "admissible (CCreateTicket t) = (tkCommentCount t = 0)"
| "admissible _ = True"

inductive step :: "'a mem_scheme \<Rightarrow> 'a mem_scheme \<Rightarrow> bool" where
  call: "admissible c \<Longrightarrow> step w (perform c w)"
| log: "step w (snd (AppendAudit row w))"
| arm: "step w (snd (FailNext m w))"
| mint: "step w (afterID w)"
| tick: "step w (w\<lparr>ticks := Suc (ticks w)\<rparr>)"

inductive_cases stepE: "step w w'"

lemma perform_ok: "store_ok w \<Longrightarrow> admissible c \<Longrightarrow> store_ok (perform c w)"
  by (cases c) (auto intro: preservesD keeps CreateTicket_ok)

lemma step_ok: "step w w' \<Longrightarrow> store_ok w \<Longrightarrow> store_ok w'"
proof (induction rule: step.induct)
  case (call c w)
  then show ?case by (simp add: perform_ok)
next
  case (mint w)
  then show ?case by (simp add: store_ok_def)
next
  case (tick w)
  then show ?case by (simp add: store_ok_def)
qed (auto intro: preservesD keeps)

lemma New_ok: "store_ok (New r)"
  by (simp add: store_ok_def New_def rt.defs mem.defs mem_inv_empty)

lemma steps_ok: "step\<^sup>*\<^sup>* w w' \<Longrightarrow> store_ok w \<Longrightarrow> store_ok w'"
  by (induction rule: rtranclp_induct) (auto intro: step_ok)

section \<open>What one tenant sees\<close>

definition tenant_view :: "string \<Rightarrow> tables \<Rightarrow> tables" where
  "tenant_view tn d = \<lparr>
     tickets = filter (\<lambda>(_, t). tkTenantID t = tn) (tickets d),
     comments = filter (\<lambda>(_, c). cmTenantID c = tn) (comments d),
     attachments = filter (\<lambda>(_, a). atTenantID a = tn) (attachments d),
     tags = filter (\<lambda>(_, t). tgTenantID t = tn) (tags d),
     links = filter (\<lambda>(tid, _). owned (tickets d) tn tid) (links d),
     rules = filter (\<lambda>(_, r). ruTenantID r = tn) (rules d),
     mailboxes = filter (\<lambda>(_, mb). mbTenantID mb = tn) (mailboxes d),
     history = filter (\<lambda>h. hiTenantID h = tn) (history d),
     audit = []\<rparr>"

text \<open>No row under the key, or one of another tenant.\<close>

definition alien :: "('v \<Rightarrow> string) \<Rightarrow> 'v table \<Rightarrow> string \<Rightarrow> string \<Rightarrow> bool" where
  "alien tenantOf tb k tn \<longleftrightarrow> (\<forall>v. map_of tb k = Some v \<longrightarrow> tenantOf v \<noteq> tn)"

lemma alienI:
  "map_of tb k = None \<Longrightarrow> alien tenantOf tb k tn"
  "map_of tb k = Some v \<Longrightarrow> tenantOf v \<noteq> tn \<Longrightarrow> alien tenantOf tb k tn"
  by (simp_all add: alien_def)

lemma filter_update_other:
  assumes "alien tenantOf tb k tn" and "tenantOf v' \<noteq> tn"
  shows "filter (\<lambda>(_, v). tenantOf v = tn) (AList.update k v' tb) = filter (\<lambda>(_, v). tenantOf v = tn) tb"
  using assms unfolding alien_def by (induction tb) (auto split: if_splits)

lemma filter_delete_other:
  assumes "distinct (map fst tb)" and "alien tenantOf tb k tn"
  shows "filter (\<lambda>(_, v). tenantOf v = tn) (AList.delete k tb) = filter (\<lambda>(_, v). tenantOf v = tn) tb"
  using assms unfolding alien_def by (induction tb) (auto simp: delete_id split: if_splits)

lemma filter_filter_other:
  assumes "\<And>k v. (k, v) \<in> set tb \<Longrightarrow> P v \<Longrightarrow> Q v"
  shows "filter (\<lambda>(_, v). P v) (filter (\<lambda>(_, v). Q v) tb) = filter (\<lambda>(_, v). P v) tb"
  using assms by (induction tb) (auto split: if_splits)

lemma filter_key_other:
  assumes "\<not> P k"
  shows "filter (\<lambda>(i, _). P i) (AList.update k v tb) = filter (\<lambda>(i, _). P i) tb"
    and "filter (\<lambda>(i, _). P i) (AList.delete k tb) = filter (\<lambda>(i, _). P i) tb"
  using assms by (induction tb) (auto split: if_splits)

lemma owned_other:
  assumes "alien tkTenantID tb k tn"
  shows "tkTenantID t' \<noteq> tn \<Longrightarrow> owned (AList.update k t' tb) tn i \<longleftrightarrow> owned tb tn i"
    and "owned (AList.delete k tb) tn i \<longleftrightarrow> owned tb tn i"
    and "\<not> owned tb tn k"
  using assms by (auto simp: alien_def owned_def update_conv delete_conv)

lemmas view_simps = tenant_view_def filter_update_other filter_delete_other filter_key_other owned_other

text \<open>Writing a row of another tenant, table by table.\<close>

lemma view_puts:
  "alien tkTenantID (tickets d) k tn \<Longrightarrow> tkTenantID t \<noteq> tn \<Longrightarrow>
     tenant_view tn (d\<lparr>tickets := AList.update k t (tickets d)\<rparr>) = tenant_view tn d"
  "alien cmTenantID (comments d) k tn \<Longrightarrow> cmTenantID c \<noteq> tn \<Longrightarrow>
     tenant_view tn (d\<lparr>comments := AList.update k c (comments d)\<rparr>) = tenant_view tn d"
  "alien atTenantID (attachments d) k tn \<Longrightarrow> atTenantID a \<noteq> tn \<Longrightarrow>
     tenant_view tn (d\<lparr>attachments := AList.update k a (attachments d)\<rparr>) = tenant_view tn d"
  "alien tgTenantID (tags d) k tn \<Longrightarrow> tgTenantID g \<noteq> tn \<Longrightarrow>
     tenant_view tn (d\<lparr>tags := AList.update k g (tags d)\<rparr>) = tenant_view tn d"
  "alien ruTenantID (rules d) k tn \<Longrightarrow> ruTenantID r \<noteq> tn \<Longrightarrow>
     tenant_view tn (d\<lparr>rules := AList.update k r (rules d)\<rparr>) = tenant_view tn d"
  "alien mbTenantID (mailboxes d) k tn \<Longrightarrow> mbTenantID mb \<noteq> tn \<Longrightarrow>
     tenant_view tn (d\<lparr>mailboxes := AList.update k mb (mailboxes d)\<rparr>) = tenant_view tn d"
  "alien tkTenantID (tickets d) k tn \<Longrightarrow>
     tenant_view tn (d\<lparr>links := AList.update k gs (links d)\<rparr>) = tenant_view tn d"
  "hiTenantID h \<noteq> tn \<Longrightarrow> tenant_view tn (d\<lparr>history := history d @ [h]\<rparr>) = tenant_view tn d"
  "alien cmTenantID (comments d) k tn \<Longrightarrow> cmTenantID c \<noteq> tn \<Longrightarrow>
     alien tkTenantID (tickets d) i tn \<Longrightarrow> tkTenantID t \<noteq> tn \<Longrightarrow>
     tenant_view tn (d\<lparr>comments := AList.update k c (comments d), tickets := AList.update i t (tickets d)\<rparr>)
       = tenant_view tn d"
  by (simp_all add: view_simps)

lemma view_drop_rule:
  "mem_inv u d \<Longrightarrow> alien ruTenantID (rules d) k tn \<Longrightarrow>
     tenant_view tn (d\<lparr>rules := AList.delete k (rules d)\<rparr>) = tenant_view tn d"
  by (drule mem_invD(5), drule table_okD(1)) (simp add: view_simps)

lemma view_drop_attachments:
  assumes "\<And>a. P a \<Longrightarrow> atTenantID a \<noteq> tn"
  shows "tenant_view tn (d\<lparr>attachments := filter (\<lambda>(_, a). \<not> P a) (attachments d)\<rparr>) = tenant_view tn d"
proof -
  have "filter (\<lambda>(_, a). atTenantID a = tn) (filter (\<lambda>(_, a). \<not> P a) (attachments d)) =
      filter (\<lambda>(_, a). atTenantID a = tn) (attachments d)"
    by (rule filter_filter_other) (use assms in blast)
  then show ?thesis by (simp add: tenant_view_def del: filter_filter)
qed

lemma view_drop_ticket:
  assumes inv: "mem_inv u d" and t: "map_of (tickets d) k = Some t" "tkTenantID t \<noteq> tn"
  shows "tenant_view tn (drop_ticket k d) = tenant_view tn d"
proof -
  note D = mem_invD [OF inv]
  have al: "alien tkTenantID (tickets d) k tn" using t by (rule alienI)
  note own = owned_other(3) [OF al]
  have c: "cmTicketID c \<noteq> k" if "(i, c) \<in> set (comments d)" "cmTenantID c = tn" for i c
    using D(13) that own by (force simp: comment_refs_def set_rows)
  have a: "atTicketID a \<noteq> k" if "(i, a) \<in> set (attachments d)" "atTenantID a = tn" for i a
    using D(14) that own by (force simp: attachment_refs_def set_rows)
  have h: "hiTicketID h \<noteq> k" if "h \<in> set (history d)" "hiTenantID h = tn" for h
    using D(16) that own by (force simp: history_refs_def)
  have "filter (\<lambda>h. hiTenantID h = tn) (filter (\<lambda>h. hiTicketID h \<noteq> k) (history d)) =
      filter (\<lambda>h. hiTenantID h = tn) (history d)"
    using h by (auto intro!: filter_cong)
  then show ?thesis
    using al table_okD(1) [OF D(1)] filter_filter_other [of "comments d", OF c] filter_filter_other [of "attachments d", OF a]
    by (simp add: view_simps drop_ticket_def del: filter_filter)
qed

lemma view_delete_comment:
  assumes inv: "mem_inv u d" and c: "map_of (comments d) k = Some c" "cmTenantID c \<noteq> tn" and k: "k \<noteq> []"
    and t: "map_of (tickets d) (cmTicketID c) = Some t"
  shows "tenant_view tn (d\<lparr>attachments := filter (\<lambda>(_, a). atCommentID a \<noteq> k) (attachments d),
      comments := AList.delete k (comments d),
      tickets := AList.update (tkID t) (uncounted t) (tickets d)\<rparr>) = tenant_view tn d"
proof -
  note D = mem_invD [OF inv]
  have tn: "tkTenantID t \<noteq> tn" "tkID t = cmTicketID c"
    using D(13) lookup_mem_rows [OF c(1)] c(2) t table_lookup_id [OF D(1) t]
    by (auto simp: comment_refs_def owned_def)
  have a: "atCommentID a \<noteq> k" if "(i, a) \<in> set (attachments d)" "atTenantID a = tn" for i a
    using D(14) that c k by (force simp: attachment_refs_def set_rows)
  have al: "alien cmTenantID (comments d) k tn" "alien tkTenantID (tickets d) (cmTicketID c) tn"
    using c t tn(1) by (auto intro: alienI)
  show ?thesis
    using al tn table_okD(1) [OF D(2)] filter_filter_other [of "attachments d", OF a]
    by (simp add: view_simps del: filter_filter)
qed

lemma view_drop_tag:
  assumes inv: "mem_inv u d" and g: "map_of (tags d) k = Some g" "tgTenantID g \<noteq> tn"
  shows "tenant_view tn (d\<lparr>tags := AList.delete k (tags d), links := map (map_prod id (removeAll k)) (links d)\<rparr>)
    = tenant_view tn d"
proof -
  note D = mem_invD [OF inv]
  have nt: "k \<notin> set gs" if "(i, gs) \<in> set (links d)" "owned (tickets d) tn i" for i gs
    using D(15) that g by (force simp: link_refs_def owned_def)
  have "filter (\<lambda>(i, _). P i) (map (map_prod id (removeAll k)) lk) = filter (\<lambda>(i, _). P i) lk"
    if "\<forall>(i, gs) \<in> set lk. P i \<longrightarrow> k \<notin> set gs" for P :: "string \<Rightarrow> bool" and lk :: "string list table"
    using that by (induction lk) auto
  from this [of "links d" "owned (tickets d) tn"] nt
  have "filter (\<lambda>(i, _). owned (tickets d) tn i) (map (map_prod id (removeAll k)) (links d)) =
      filter (\<lambda>(i, _). owned (tickets d) tn i) (links d)" by blast
  then show ?thesis
    using alienI(2) [where tenantOf = tgTenantID, OF g] table_okD(1) [OF D(4)] by (simp add: view_simps)
qed

lemma detach_id: "tkMailboxID t \<noteq> k \<Longrightarrow> detach k t = t"
  by (simp add: detach_def)

lemma view_drop_mailbox:
  assumes inv: "mem_inv u d" and mb: "map_of (mailboxes d) k = Some mb" "mbTenantID mb \<noteq> tn" and k: "k \<noteq> []"
  shows "tenant_view tn (d\<lparr>tickets := map (map_prod id (detach k)) (tickets d), mailboxes := AList.delete k (mailboxes d)\<rparr>)
    = tenant_view tn d"
proof -
  note D = mem_invD [OF inv]
  have nt: "tkMailboxID t \<noteq> k" if "(i, t) \<in> set (tickets d)" "tkTenantID t = tn" for i t
    using D(17) that mb k by (force simp: mailbox_refs_def set_rows)
  have "filter (\<lambda>(_, t). tkTenantID t = tn) (map (map_prod id (detach k)) tb) = filter (\<lambda>(_, t). tkTenantID t = tn) tb"
    if "\<forall>(i, t) \<in> set tb. tkTenantID t = tn \<longrightarrow> tkMailboxID t \<noteq> k" for tb
    using that by (induction tb) (auto simp: detach_id)
  from this [of "tickets d"] nt
  have "filter (\<lambda>(_, t). tkTenantID t = tn) (map (map_prod id (detach k)) (tickets d)) =
      filter (\<lambda>(_, t). tkTenantID t = tn) (tickets d)" by blast
  moreover have "owned (map (map_prod id (detach k)) (tickets d)) tn i \<longleftrightarrow> owned (tickets d) tn i" for i
    by (auto simp: owned_def map_of_map_prod)
  ultimately show ?thesis
    using alienI(2) [where tenantOf = mbTenantID, OF mb] table_okD(1) [OF D(6)] by (simp add: view_simps)
qed

section \<open>A small store\<close>

text \<open>A store with two tenants, built by calls; the examples below evaluate on it.\<close>

lemma steps_fold: "list_all admissible cs \<Longrightarrow> step\<^sup>*\<^sup>* w (fold perform cs w)"
  by (induction cs arbitrary: w) (auto intro: converse_rtranclp_into_rtranclp step.call)

definition demo_ticket :: ticket where
  "demo_ticket = \<lparr>tkID = ''t1'', tkTenantID = ''acme'', tkSubject = ''Printer on fire'',
     tkDescription = ''help'', tkBodyHTML = [], tkStatus = [], tkPriority = [], tkSource = [],
     tkRequesterEmail = ''ann@x.io'', tkRequesterName = ''Ann'', tkRecipient = ''help@acme.io'',
     tkMailboxID = ''m1'', tkExternalID = ''root@x.io'', tkAssigneeID = [], tkAssigneeName = [],
     tkCommentCount = 0, tkLastMessageID = [], tkCreatedBy = ''u1'', tkCreatedAt = 5, tkUpdatedAt = 0,
     tkResolvedAt = None\<rparr>"

definition demo_comment :: comment where
  "demo_comment = \<lparr>cmID = ''c1'', cmTenantID = ''acme'', cmTicketID = ''t1'', cmBody = ''on it'',
     cmInternal = False, cmAuthorKind = AuthorAgent, cmAuthorID = ''u1'', cmAuthorName = ''Bob'',
     cmAuthorEmail = [], cmMessageID = ''msg1@acme.io'', cmDelivery = DeliverySent, cmCreatedAt = 7\<rparr>"

definition demo_attachment :: attachment where
  "demo_attachment = \<lparr>atID = ''a1'', atTenantID = ''acme'', atTicketID = ''t1'', atCommentID = [],
     atFilename = ''fire.png'', atContentType = ''image/png'', atSize = 3, atContentID = [],
     atInline = False, atStorageKey = AttachmentKey ''acme'' ''t1'' ''a1'', atChecksum = [], atCreatedAt = 6\<rparr>"

definition demo_tag :: tag where
  "demo_tag = \<lparr>tgID = ''g1'', tgTenantID = ''acme'', tgName = ''Hardware'', tgKind = [], tgColor = [],
     tgDescription = [], tgCreatedAt = 1\<rparr>"

definition demo_mailbox :: mailbox where
  "demo_mailbox = \<lparr>mbID = ''m1'', mbTenantID = ''acme'', mbAddress = '' Help@Acme.io'',
     mbDisplayName = ''Acme Help'', mbActive = True, mbAutoAck = True, mbAutoAckTemplate = [],
     mbCreatedAt = 1, mbUpdatedAt = 1\<rparr>"

definition demo_rule :: rule where
  "demo_rule = \<lparr>ruID = ''r1'', ruTenantID = ''acme'', ruName = ''fires'', ruEnabled = True,
     ruSortOrder = 10, ruMatch = [], ruConditions = [], ruExpression = ''true'', ruActions = [],
     ruVersion = 0, ruCreatedAt = 1, ruUpdatedAt = 1\<rparr>"

definition demo_calls :: "call list" where
  "demo_calls = [CCreateMailbox demo_mailbox, CCreateTicket demo_ticket, CCreateComment demo_comment,
     CCreateAttachment demo_attachment, CCreateTag demo_tag, CSetTicketTags ''acme'' ''t1'' [''g1''],
     CCreateRule demo_rule,
     CCreateTicket (demo_ticket\<lparr>tkID := ''t2'', tkTenantID := ''other'', tkMailboxID := []\<rparr>)]"

definition demo_store :: mem where
  "demo_store = fold perform demo_calls (New demo_rt)"

lemma demo_addr: "normAddr ascii_tables '' Help@Acme.io'' = ''help@acme.io''"
  by (simp add: normAddr_def str_eval)

definition demo_tables :: tables where
  "demo_tables = \<lparr>
     tickets =
       [(''t1'', demo_ticket\<lparr>tkStatus := StatusOpen, tkPriority := PriorityNormal, tkSource := SourceManual,
           tkUpdatedAt := 7, tkCommentCount := 1, tkLastMessageID := ''msg1@acme.io''\<rparr>),
        (''t2'', demo_ticket\<lparr>tkID := ''t2'', tkTenantID := ''other'', tkMailboxID := [],
           tkStatus := StatusOpen, tkPriority := PriorityNormal, tkSource := SourceManual, tkUpdatedAt := 5\<rparr>)],
     comments = [(''c1'', demo_comment)],
     attachments = [(''a1'', demo_attachment)],
     tags = [(''g1'', demo_tag\<lparr>tgKind := KindTag\<rparr>)],
     links = [(''t1'', [''g1''])],
     rules = [(''r1'', demo_rule\<lparr>ruVersion := 1, ruMatch := MatchAll\<rparr>)],
     mailboxes = [(''m1'', demo_mailbox\<lparr>mbAddress := ''help@acme.io''\<rparr>)],
     history = [], audit = []\<rparr>"

lemmas demo_defs = demo_rt_def demo_ticket_def demo_mailbox_def demo_comment_def demo_tag_def
  demo_rule_def demo_attachment_def

lemma demo_store_eq:
  "demo_store = \<lparr>clock = clock demo_rt, ticks = 7, entropy = entropy demo_rt, draws = 0, idLast = 0,
     idSeq = 0, ucd = ascii_tables, db = demo_tables, failNext = []\<rparr>"
  by (simp add: demo_store_def demo_calls_def CreateTicket_def CreateMailbox_def CreateComment_def
      CreateTag_def createTag_def CreateAttachment_def SetTicketTags_def CreateRule_def run Let_def
      New_def mem.defs rt.defs empty_tables_def demo_defs demo_tables_def ticket_of_def scoped_def checkTags_def
      tagConflict_def addressTaken_def withDefaults_def counted_def demo_addr orNow_def storedMailbox_def
      storedComment_def storedTag_def storedRule_def)

lemma demo_reach: "step\<^sup>*\<^sup>* (New demo_rt) demo_store"
  unfolding demo_store_def by (rule steps_fold) (simp add: demo_calls_def demo_ticket_def)

lemma demo_ok: "store_ok demo_store"
  using steps_ok [OF demo_reach New_ok] .

end
