(* ===== verification/MemIso.thy ===== *)
theory MemIso
  imports MemReach
begin

text \<open>
  Tenant isolation of the store: a call made for one tenant changes nothing another tenant sees.
\<close>

lemmas iso_run = store_run scoped_iff alienI view_puts

lemma iso_CreateTicket:
  "tkTenantID t \<noteq> tn \<Longrightarrow> tenant_view tn (db (snd (CreateTicket t w))) = tenant_view tn (db w)"
  by (simp add: CreateTicket_def iso_run)

lemma iso_ticket_writes:
  assumes "tn' \<noteq> tn"
  shows "tenant_view tn (db (snd (UpdateTicket tn' i p at w))) = tenant_view tn (db w)"
    and "tenant_view tn (db (snd (SetAssignee tn' i aid an at w))) = tenant_view tn (db w)"
    and "tenant_view tn (db (snd (SetStatus tn' i st at w))) = tenant_view tn (db w)"
  using assms
  by (auto simp: UpdateTicket_def SetAssignee_def SetStatus_def ticket_of_def iso_run split: sum.splits)

lemma iso_DeleteTicket:
  assumes "store_ok w" and "tn' \<noteq> tn"
  shows "tenant_view tn (db (snd (DeleteTicket tn' i w))) = tenant_view tn (db w)"
  using assms view_drop_ticket [of "ucd w" "db w" i _ tn]
  by (auto simp: DeleteTicket_def ticket_of_def drop_ticket_def store_run scoped_iff split: sum.splits)

lemma iso_CreateComment:
  assumes "store_ok w" and "cmTenantID c \<noteq> tn"
  shows "tenant_view tn (db (snd (CreateComment c w))) = tenant_view tn (db w)"
proof -
  have "tkID t = cmTicketID c" if "map_of (tickets (db w)) (cmTicketID c) = Some t" for t
    using assms(1) that unfolding store_ok_def by (intro table_lookup_id [OF mem_invD(1)])
  then show ?thesis
    using assms(2) by (auto simp: CreateComment_def ticket_of_def iso_run split: sum.splits)
qed

lemma iso_SetCommentDelivery:
  "tn' \<noteq> tn \<Longrightarrow> tenant_view tn (db (snd (SetCommentDelivery tn' i v w))) = tenant_view tn (db w)"
  by (auto simp: SetCommentDelivery_def comment_of_def iso_run split: sum.splits)

lemma comment_ticket:
  assumes "store_ok w" and "map_of (comments (db w)) i = Some c"
  obtains t where "map_of (tickets (db w)) (cmTicketID c) = Some t" and "tkTenantID t = cmTenantID c"
    and "0 < tkCommentCount t" and "tkID t = cmTicketID c"
proof -
  have inv: "mem_inv (ucd w) (db w)" using assms(1) by (simp add: store_ok_def)
  then obtain t where t: "map_of (tickets (db w)) (cmTicketID c) = Some t" "tkTenantID t = cmTenantID c"
    using mem_invD(13) lookup_mem_rows [OF assms(2)] by (fastforce simp: comment_refs_def owned_def)
  with that show ?thesis
    using comment_delete(1) [OF inv assms(2)] table_lookup_id [OF mem_invD(1) [OF inv]] by blast
qed

lemma iso_DeleteComment:
  assumes ok: "store_ok w" and tn: "tn' \<noteq> tn" and i: "i \<noteq> []"
  shows "tenant_view tn (db (snd (DeleteComment tn' i w))) = tenant_view tn (db w)"
proof (cases "comment_of (db w) tn' i")
  case (Inl e)
  then show ?thesis by (simp add: DeleteComment_def store_run)
next
  case (Inr c)
  then have c: "map_of (comments (db w)) i = Some c" "cmTenantID c \<noteq> tn"
    using tn by (simp_all add: comment_of_def scoped_iff)
  obtain t where t: "map_of (tickets (db w)) (cmTicketID c) = Some t" "0 < tkCommentCount t"
    by (rule comment_ticket [OF ok c(1)])
  then show ?thesis
    using Inr view_delete_comment [OF _ c i t(1)] ok by (simp add: DeleteComment_def store_run)
qed

lemma iso_attachments:
  shows "atTenantID a \<noteq> tn \<Longrightarrow> tenant_view tn (db (snd (CreateAttachment a w))) = tenant_view tn (db w)"
    and "tn' \<noteq> tn \<Longrightarrow> tenant_view tn (db (snd (DeleteAttachmentsByTicket tn' i w))) = tenant_view tn (db w)"
  using view_drop_attachments [of "\<lambda>a. atTenantID a = tn' \<and> atTicketID a = i" tn]
  by (auto simp: CreateAttachment_def DeleteAttachmentsByTicket_def ticket_of_def iso_run split: sum.splits)

lemma iso_tags:
  shows "tgTenantID g \<noteq> tn \<Longrightarrow> tenant_view tn (db (snd (CreateTag g w))) = tenant_view tn (db w)"
    and "tgTenantID g \<noteq> tn \<Longrightarrow> tenant_view tn (db (snd (UpdateTag g w))) = tenant_view tn (db w)"
    and "tn' \<noteq> tn \<Longrightarrow> tenant_view tn (db (snd (EnsureTagByName tn' k n w))) = tenant_view tn (db w)"
  by (auto simp: CreateTag_def createTag_def UpdateTag_def EnsureTagByName_def tag_of_def iso_run
      split: sum.splits option.splits)

lemma iso_DeleteTag:
  assumes "store_ok w" and "tn' \<noteq> tn"
  shows "tenant_view tn (db (snd (DeleteTag tn' i w))) = tenant_view tn (db w)"
  using assms view_drop_tag [of "ucd w" "db w" i _ tn]
  by (auto simp: DeleteTag_def tag_of_def store_run scoped_iff split: sum.splits)

lemma iso_links:
  assumes "tn' \<noteq> tn"
  shows "tenant_view tn (db (snd (SetTicketTags tn' i gs w))) = tenant_view tn (db w)"
    and "tenant_view tn (db (snd (AddTicketTags tn' i gs w))) = tenant_view tn (db w)"
  using assms
  by (auto simp: SetTicketTags_def AddTicketTags_def checkTags_def ticket_of_def iso_run split: sum.splits)

lemma iso_rules:
  shows "ruTenantID r \<noteq> tn \<Longrightarrow> tenant_view tn (db (snd (CreateRule r w))) = tenant_view tn (db w)"
    and "ruTenantID r \<noteq> tn \<Longrightarrow> tenant_view tn (db (snd (UpdateRule r w))) = tenant_view tn (db w)"
    and "store_ok w \<Longrightarrow> tn' \<noteq> tn \<Longrightarrow> tenant_view tn (db (snd (DeleteRule tn' i w))) = tenant_view tn (db w)"
  using view_drop_rule [of "ucd w" "db w" i tn]
  by (auto simp: CreateRule_def UpdateRule_def DeleteRule_def rule_of_def iso_run split: sum.splits)

lemma iso_mailboxes:
  shows "mbTenantID mb \<noteq> tn \<Longrightarrow> tenant_view tn (db (snd (CreateMailbox mb w))) = tenant_view tn (db w)"
    and "mbTenantID mb \<noteq> tn \<Longrightarrow> tenant_view tn (db (snd (UpdateMailbox mb w))) = tenant_view tn (db w)"
  by (auto simp: CreateMailbox_def UpdateMailbox_def mailbox_of_def iso_run split: sum.splits)

lemma iso_history:
  "hiTenantID h \<noteq> tn \<Longrightarrow> tenant_view tn (db (snd (AppendHistory h w))) = tenant_view tn (db w)"
  by (auto simp: AppendHistory_def iso_run split: sum.splits)

lemma detach_Nil: "detach [] t = t"
  by (simp add: detach_def)

lemma iso_DeleteMailbox:
  assumes ok: "store_ok w" and tn: "tn' \<noteq> tn"
  shows "tenant_view tn (db (snd (DeleteMailbox tn' i force w))) = tenant_view tn (db w)"
proof (cases "i = []")
  case True
  have d: "distinct (map fst (mailboxes (db w)))"
    using ok unfolding store_ok_def by (intro table_okD(1) [OF mem_invD(6)])
  have "map_prod id (detach []) = (id :: string \<times> ticket \<Rightarrow> _)"
    by (auto simp: fun_eq_iff detach_Nil)
  moreover have "tenant_view tn (db w\<lparr>mailboxes := AList.delete [] (mailboxes (db w))\<rparr>) = tenant_view tn (db w)"
    if "map_of (mailboxes (db w)) [] = Some mb" "mbTenantID mb = tn'" for mb
    using d alienI(2) [where tenantOf = mbTenantID, OF that(1)] that(2) tn
    by (simp add: tenant_view_def filter_delete_other)
  ultimately show ?thesis
    using True by (auto simp: DeleteMailbox_def mailbox_of_def store_run scoped_iff split: sum.splits)
next
  case False
  then show ?thesis
    using assms view_drop_mailbox [of "ucd w" "db w" i _ tn]
    by (auto simp: DeleteMailbox_def mailbox_of_def store_run scoped_iff split: sum.splits)
qed

lemmas isolation = iso_CreateTicket iso_ticket_writes iso_DeleteTicket iso_CreateComment
  iso_SetCommentDelivery iso_DeleteComment iso_attachments iso_tags iso_DeleteTag iso_links iso_rules
  iso_mailboxes iso_DeleteMailbox iso_history



text \<open>
  C2: tenant isolation. A call made for one tenant, in a reachable state, leaves the rows another
  tenant can see exactly as they were. The one exception is excluded: deleting a comment whose id
  is the empty string, which no code path mints.
\<close>

theorem tenant_isolation:
  assumes "step\<^sup>*\<^sup>* (New r) w" and "caller c \<noteq> tn" and "c \<noteq> CDeleteComment (caller c) []"
  shows "tenant_view tn (db (perform c w)) = tenant_view tn (db w)"
  using steps_ok [OF assms(1) New_ok] assms(2,3) by (cases c) (auto simp: isolation)

theorem tenant_isolation_witness:
  "tenant_view ''other'' (db (perform (CDeleteTicket ''acme'' ''t1'') demo_store)) =
     tenant_view ''other'' (db demo_store) \<and>
   length (tickets (tenant_view ''other'' (db demo_store))) = 1 \<and>
   length (tickets (db (perform (CDeleteTicket ''acme'' ''t1'') demo_store))) = 1"
proof -
  have "length (tickets (tenant_view ''other'' (db demo_store))) = 1 \<and>
      length (tickets (db (perform (CDeleteTicket ''acme'' ''t1'') demo_store))) = 1"
    by (simp add: demo_store_eq demo_tables_def demo_ticket_def tenant_view_def DeleteTicket_def run
        ticket_of_def scoped_def)
  moreover have "tenant_view ''other'' (db (perform (CDeleteTicket ''acme'' ''t1'') demo_store)) =
      tenant_view ''other'' (db demo_store)"
    by (rule tenant_isolation [OF demo_reach]) simp_all
  ultimately show ?thesis by blast
qed

end
