(* ===== verification/MemSpec.thy ===== *)
theory MemSpec
  imports MemIso "HOL-Library.Multiset"
begin

text \<open>
  What the methods of the store promise their callers: the contracts of \<open>internal/repo\<close>, proved
  for the in-memory store. The tenant-scoped lookups of the five tables share one contract, stated
  as the locale \<open>scoped_rows\<close> and interpreted for each of them.
\<close>

section \<open>Tenant-scoped lookups\<close>

locale scoped_rows =
  fixes rowsOf :: "'w \<Rightarrow> 'v table"
    and idOf tenantOf :: "'v \<Rightarrow> string"
    and fetchRow :: "string \<Rightarrow> string \<Rightarrow> ('w, 'v) op"
    and ready ok :: "'w \<Rightarrow> bool"
  assumes fetch_eq: "ready w \<Longrightarrow> fetchRow tn i w = (scoped tenantOf (rowsOf w) tn i, w)"
    and fetch_armed: "\<not> ready w \<Longrightarrow> \<exists>m w'. fetchRow tn i w = (Inl (Injected m), w') \<and> rowsOf w' = rowsOf w"
    and rows_ok: "ok w \<Longrightarrow> table_ok idOf (rowsOf w)"
begin

lemma fetch_ready:
  assumes "fetchRow tn i w = (Inr v, w')"
  shows "w' = w \<and> scoped tenantOf (rowsOf w) tn i = Inr v"
proof (cases "ready w")
  case True
  then show ?thesis using assms fetch_eq [of w tn i] by auto
next
  case False
  then show ?thesis using assms fetch_armed [of w tn i] by auto
qed

lemma fetch_scoped:
  assumes "fetchRow tn i w = (Inr v, w')"
  shows "tenantOf v = tn" and "map_of (rowsOf w) i = Some v" and "w' = w"
  using fetch_ready [OF assms] by (auto simp: scoped_iff)

lemma fetch_id:
  assumes "ok w" and "fetchRow tn i w = (Inr v, w')"
  shows "idOf v = i"
  using table_lookup_id [OF rows_ok [OF assms(1)] fetch_scoped(2) [OF assms(2)]] .

lemma fetch_foreign:
  assumes "map_of (rowsOf w) i = Some v" and "tenantOf v \<noteq> tn" and "ready w"
  shows "fetchRow tn i w = (Inl RepoNotFound, w)"
  using assms by (simp add: fetch_eq scoped_def)

lemma fetch_absent:
  assumes "map_of (rowsOf w) i = None" and "ready w"
  shows "fetchRow tn i w = (Inl RepoNotFound, w)"
  using assms by (simp add: fetch_eq scoped_def)

text \<open>Two tenants never read the same row.\<close>

lemma fetch_disjoint:
  assumes "fetchRow tn i w = (Inr v, w1)" and "fetchRow tn' j w = (Inr v', w2)" and "tn \<noteq> tn'"
  shows "v \<noteq> v'"
  using fetch_scoped(1) [OF assms(1)] fetch_scoped(1) [OF assms(2)] assms(3) by auto

end

definition calm :: "string \<Rightarrow> 'a mem_scheme \<Rightarrow> bool" where
  "calm m w \<longleftrightarrow> m \<notin> set (failNext w)"

interpretation tk: scoped_rows "\<lambda>w. tickets (db w)" tkID tkTenantID GetTicket "calm ''GetTicket''" store_ok
  by unfold_locales
    (auto simp: GetTicket_def calm_def run ticket_of_def store_ok_def mem_inv_def keys_ok_def split: sum.splits)

interpretation cm: scoped_rows "\<lambda>w. comments (db w)" cmID cmTenantID GetComment "calm ''GetComment''" store_ok
  by unfold_locales
    (auto simp: GetComment_def calm_def run comment_of_def store_ok_def mem_inv_def keys_ok_def split: sum.splits)

interpretation tg: scoped_rows "\<lambda>w. tags (db w)" tgID tgTenantID GetTag "calm ''GetTag''" store_ok
  by unfold_locales
    (auto simp: GetTag_def calm_def run tag_of_def store_ok_def mem_inv_def keys_ok_def split: sum.splits)

interpretation ru: scoped_rows "\<lambda>w. rules (db w)" ruID ruTenantID GetRule "calm ''GetRule''" store_ok
  by unfold_locales
    (auto simp: GetRule_def calm_def run rule_of_def store_ok_def mem_inv_def keys_ok_def split: sum.splits)

interpretation mb: scoped_rows "\<lambda>w. mailboxes (db w)" mbID mbTenantID GetMailbox "calm ''GetMailbox''" store_ok
  by unfold_locales
    (auto simp: GetMailbox_def calm_def run mailbox_of_def store_ok_def mem_inv_def keys_ok_def split: sum.splits)

section \<open>Messages are recorded once\<close>

definition message_free :: "tables \<Rightarrow> comment \<Rightarrow> bool" where
  "message_free d c \<longleftrightarrow> (cmMessageID c \<noteq> [] \<longrightarrow>
     (\<forall>x \<in> set (rows (comments d)). cmTenantID x = cmTenantID c \<longrightarrow> cmMessageID x \<noteq> cmMessageID c))"

lemma CreateComment_Inr:
  assumes "CreateComment c w = (Inr (), w')"
  shows "\<exists>t now. map_of (tickets (db w)) (cmTicketID c) = Some t \<and> tkTenantID t = cmTenantID c \<and>
    map_of (comments (db w)) (cmID c) = None \<and> message_free (db w) c \<and> failNext w' = failNext w \<and>
    db w' = (db w)\<lparr>comments := AList.update (cmID c) (storedComment now c) (comments (db w)),
      tickets := AList.update (tkID t) (counted (storedComment now c) t) (tickets (db w))\<rparr>"
proof (cases "ticket_of (db w) (cmTenantID c) (cmTicketID c)")
  case (Inr t)
  then have "map_of (tickets (db w)) (cmTicketID c) = Some t \<and> tkTenantID t = cmTenantID c"
    by (simp add: ticket_of_def scoped_iff)
  moreover have "map_of (comments (db w)) (cmID c) = None \<and> message_free (db w) c \<and> failNext w' = failNext w \<and>
    db w' = (db w)\<lparr>comments := AList.update (cmID c) (storedComment (clock w (ticks w)) c) (comments (db w)),
      tickets := AList.update (tkID t) (counted (storedComment (clock w (ticks w)) c) t) (tickets (db w))\<rparr>"
    using assms Inr by (auto simp: CreateComment_def run Let_def message_free_def split: if_splits)
  ultimately show ?thesis by blast
qed (use assms in \<open>simp add: CreateComment_def run split: if_splits\<close>)

lemma CreateComment_Inl:
  assumes "CreateComment c w = (Inl e, w')"
  shows "db w' = db w"
  using assms by (auto simp: CreateComment_def run Let_def split: if_splits sum.splits)

lemma find_unique:
  assumes "x \<in> set xs" and "P x" and "\<And>y. y \<in> set xs \<Longrightarrow> P y \<Longrightarrow> y = x"
  shows "find P xs = Some x"
proof (cases "find P xs")
  case None
  then show ?thesis using assms(1,2) by (simp add: find_None_iff)
next
  case (Some y)
  then have "y \<in> set xs" "P y" by (auto simp: find_Some_iff)
  then show ?thesis using assms(3) Some by simp
qed

text \<open>
  C29: a message is recorded once. After a comment carrying a message id is stored, the id
  resolves to that comment for its tenant, and storing any other comment of the tenant with the
  same message id fails and changes no table.
\<close>

theorem message_recorded_once:
  assumes first: "CreateComment c w = (Inr (), w1)" and msg: "cmMessageID c \<noteq> []"
    and again: "cmTenantID c2 = cmTenantID c" "cmMessageID c2 = cmMessageID c"
    and calm: "calm ''FindCommentByMessageID'' w1"
  shows "(\<exists>now. FindCommentByMessageID (cmTenantID c) (cmMessageID c) w1 = (Inr (storedComment now c), w1)) \<and>
    (\<exists>e w2. CreateComment c2 w1 = (Inl e, w2) \<and> db w2 = db w1)"
proof -
  obtain t now where new: "map_of (comments (db w)) (cmID c) = None" and free: "message_free (db w) c"
    and db: "db w1 = (db w)\<lparr>comments := AList.update (cmID c) (storedComment now c) (comments (db w)),
      tickets := AList.update (tkID t) (counted (storedComment now c) t) (tickets (db w))\<rparr>"
    using CreateComment_Inr [OF first] by blast
  have rows: "rows (comments (db w1)) = rows (comments (db w)) @ [storedComment now c]"
    using new by (simp add: db rows_update_new)
  have "find (\<lambda>x. cmTenantID x = cmTenantID c \<and> cmMessageID x = cmMessageID c) (rows (comments (db w1))) =
      Some (storedComment now c)"
    by (rule find_unique) (use free msg in \<open>auto simp: rows message_free_def\<close>)
  then have found: "FindCommentByMessageID (cmTenantID c) (cmMessageID c) w1 = (Inr (storedComment now c), w1)"
    using calm msg by (simp add: FindCommentByMessageID_def run calm_def)
  have "\<not> message_free (db w1) c2" using again msg by (auto simp: message_free_def rows)
  then have "CreateComment c2 w1 \<noteq> (Inr (), w2)" for w2 using CreateComment_Inr by blast
  then have "\<exists>e w2. CreateComment c2 w1 = (Inl e, w2)"
    by (cases "CreateComment c2 w1"; cases "fst (CreateComment c2 w1)") auto
  with found show ?thesis using CreateComment_Inl by blast
qed

theorem message_recorded_once_witness:
  "\<exists>w1. CreateComment (demo_comment\<lparr>cmID := ''c8'', cmMessageID := ''m8''\<rparr>) demo_store = (Inr (), w1) \<and>
     (\<exists>e w2. CreateComment (demo_comment\<lparr>cmID := ''c9'', cmMessageID := ''m8''\<rparr>) w1 = (Inl e, w2) \<and> db w2 = db w1)"
proof -
  let ?c = "demo_comment\<lparr>cmID := ''c8'', cmMessageID := ''m8''\<rparr>"
  obtain w1 where w1: "CreateComment ?c demo_store = (Inr (), w1)" "calm ''FindCommentByMessageID'' w1"
    by (simp add: demo_store_eq demo_tables_def demo_defs CreateComment_def run ticket_of_def scoped_def Let_def calm_def)
  then show ?thesis
    using message_recorded_once [OF w1(1), of "demo_comment\<lparr>cmID := ''c9'', cmMessageID := ''m8''\<rparr>"]
    by (auto simp: demo_comment_def)
qed

section \<open>Deleting a ticket\<close>



section \<open>The resolved timestamp\<close>

text \<open>
  \<open>SetStatus\<close> keeps \<open>resolved_at\<close> exactly for resolved tickets: it is set when
  the status becomes resolved, kept when a resolved ticket is resolved again, and cleared by every
  other status. Later reads of the ticket return the row \<open>SetStatus\<close> returned.
\<close>

theorem SetStatus_resolved_at:
  assumes "SetStatus tn i status at w = (Inr t', w')" and "calm ''GetTicket'' w'"
  shows "\<exists>t. map_of (tickets (db w)) i = Some t \<and> tkStatus t' = status \<and>
    (tkResolvedAt t' \<noteq> None \<longleftrightarrow> status = StatusResolved) \<and>
    (status = StatusResolved \<and> tkStatus t = StatusResolved \<and> tkResolvedAt t \<noteq> None \<longrightarrow>
       tkResolvedAt t' = tkResolvedAt t) \<and>
    (status = StatusResolved \<and> tkStatus t \<noteq> StatusResolved \<longrightarrow> tkResolvedAt t' = Some (tkUpdatedAt t')) \<and>
    GetTicket tn i w' = (Inr t', w')"
proof -
  obtain t where t: "ticket_of (db w) tn i = Inr t"
    using assms(1) by (cases "ticket_of (db w) tn i") (auto simp: SetStatus_def run split: if_splits)
  then have tk: "map_of (tickets (db w)) i = Some t" "tkTenantID t = tn"
    by (simp_all add: ticket_of_def scoped_iff)
  obtain at' where t': "t' = restated status at' t"
    and db: "db w' = (db w)\<lparr>tickets := AList.update i t' (tickets (db w))\<rparr>"
    using assms(1) t by (auto simp: SetStatus_def run Let_def split: if_splits)
  have "GetTicket tn i w' = (Inr t', w')"
    using assms(2) tk t' by (simp add: tk.fetch_eq db scoped_def update_conv)
  then show ?thesis using tk t' by (auto simp: restated_def)
qed

theorem SetStatus_resolved_at_witness:
  "\<exists>t' w'. SetStatus ''acme'' ''t1'' StatusResolved 9 demo_store = (Inr t', w') \<and> tkResolvedAt t' \<noteq> None \<and>
     GetTicket ''acme'' ''t1'' w' = (Inr t', w')"
proof -
  obtain t' w' where w': "SetStatus ''acme'' ''t1'' StatusResolved 9 demo_store = (Inr t', w')" "calm ''GetTicket'' w'"
    by (simp add: demo_store_eq demo_tables_def demo_defs SetStatus_def run ticket_of_def scoped_def Let_def calm_def)
  with SetStatus_resolved_at [OF w'] show ?thesis by auto
qed

section \<open>Tags of a ticket\<close>

lemma checkTags_Inr:
  "checkTags d tn i gs = Inr () \<longleftrightarrow> owned (tickets d) tn i \<and>
     (\<forall>g \<in> set gs. \<exists>x. map_of (tags d) g = Some x \<and> tgTenantID x = tn)"
  by (auto simp: checkTags_def ticket_of_def scoped_iff owned_def split: sum.splits option.splits if_splits)

text \<open>
  \<open>SetTicketTags\<close> is all or nothing. Either every id names a tag of the tenant and the
  ticket's links become exactly that set, every other ticket's links staying as they were, or the
  call fails and no table changes.
\<close>

theorem SetTicketTags_atomic:
  "case SetTicketTags tn i gs w of
     (Inr _, w') \<Rightarrow> owned (tickets (db w)) tn i \<and>
       (\<forall>g \<in> set gs. \<exists>x. map_of (tags (db w)) g = Some x \<and> tgTenantID x = tn) \<and>
       (\<exists>new. set new = set gs \<and> distinct new \<and> map_of (links (db w')) = (map_of (links (db w)))(i \<mapsto> new)) \<and>
       tags (db w') = tags (db w) \<and> tickets (db w') = tickets (db w)
   | (Inl e, w') \<Rightarrow> db w' = db w \<and> e \<in> {RepoNotFound, Injected ''SetTicketTags''}"
proof (cases "checkTags (db w) tn i gs")
  case (Inl e)
  then have "e = RepoNotFound"
    by (auto simp: checkTags_def ticket_of_def scoped_iff split: sum.splits if_splits)
  with Inl show ?thesis by (simp add: SetTicketTags_def run)
next
  case (Inr x)
  then have ok: "owned (tickets (db w)) tn i"
    "\<forall>g \<in> set gs. \<exists>x. map_of (tags (db w)) g = Some x \<and> tgTenantID x = tn"
    using checkTags_Inr [of "db w" tn i gs] by simp_all
  have "\<exists>new. set new = set gs \<and> distinct new \<and>
      map_of (AList.update i (fold List.insert gs []) (links (db w))) = (map_of (links (db w)))(i \<mapsto> new)"
    by (intro exI [of _ "fold List.insert gs []"]) (simp add: update_conv' fold_insert_set fold_insert_distinct)
  then show ?thesis using Inr ok by (simp add: SetTicketTags_def run)
qed

theorem SetTicketTags_atomic_witness:
  "(\<exists>w' new. SetTicketTags ''acme'' ''t1'' [''g1''] demo_store = (Inr (), w') \<and> set new = {''g1''} \<and>
     map_of (links (db w')) = (map_of (links (db demo_store)))(''t1'' \<mapsto> new)) \<and>
   (\<exists>w'. SetTicketTags ''acme'' ''t2'' [''g1''] demo_store = (Inl RepoNotFound, w') \<and> db w' = db demo_store)"
proof -
  obtain w1 where 1: "SetTicketTags ''acme'' ''t1'' [''g1''] demo_store = (Inr (), w1)"
    by (simp add: SetTicketTags_def run checkTags_def ticket_of_def scoped_def demo_store_eq demo_tables_def demo_defs)
  obtain w2 where 2: "SetTicketTags ''acme'' ''t2'' [''g1''] demo_store = (Inl RepoNotFound, w2)"
    by (simp add: SetTicketTags_def run checkTags_def ticket_of_def scoped_def demo_store_eq demo_tables_def demo_defs)
  show ?thesis
    using SetTicketTags_atomic [where tn = "''acme''" and i = "''t1''" and gs = "[''g1'']" and w = demo_store]
      SetTicketTags_atomic [where tn = "''acme''" and i = "''t2''" and gs = "[''g1'']" and w = demo_store]
    unfolding 1 2 by auto
qed

section \<open>Tags by name\<close>

definition named :: "unicode \<Rightarrow> string \<Rightarrow> string \<Rightarrow> string \<Rightarrow> tag \<Rightarrow> bool" where
  "named u tn k n g \<longleftrightarrow> tgTenantID g = tn \<and> tgKind g = (if k = [] then KindTag else k) \<and> EqualFold u (tgName g) n"

lemma EnsureTagByName_cases:
  assumes "EnsureTagByName tn k n w = (Inr g, w')"
  shows "ucd w' = ucd w \<and> named (ucd w) tn k n g \<and>
    (\<exists>x \<in> set (rows (tags (db w'))). tgID x = tgID g \<and> named (ucd w) tn k n x) \<and>
    ((\<exists>x \<in> set (rows (tags (db w))). named (ucd w) tn k n x) \<longrightarrow> db w' = db w \<and> g \<in> set (rows (tags (db w))))"
proof -
  let ?k = "if k = [] then KindTag else k"
  have fnd: "find (\<lambda>t. tgTenantID t = tn \<and> tgKind t = ?k \<and> EqualFold (ucd w) (tgName t) n) xs =
      find (named (ucd w) tn k n) xs" for xs
    by (simp add: named_def [abs_def])
  show ?thesis
  proof (cases "find (named (ucd w) tn k n) (rows (tags (db w)))")
    case (Some t)
    then have "named (ucd w) tn k n t" "t \<in> set (rows (tags (db w)))" by (auto simp: find_Some_iff)
    then show ?thesis
      using assms Some by (auto simp: EnsureTagByName_def run Let_def fnd split: if_splits)
  next
    case None
    then have "\<not> (\<exists>x \<in> set (rows (tags (db w))). named (ucd w) tn k n x)" by (simp add: find_None_iff)
    moreover have "ucd w' = ucd w \<and> named (ucd w) tn k n g \<and>
        (\<exists>x \<in> set (rows (tags (db w'))). tgID x = tgID g \<and> named (ucd w) tn k n x)"
      using assms None
      by (auto simp: EnsureTagByName_def createTag_def run Let_def fnd rows_update_new named_def split: if_splits)
    ultimately show ?thesis by blast
  qed
qed

lemma named_unique:
  assumes "store_ok w" and "x \<in> set (rows (tags (db w)))" and "y \<in> set (rows (tags (db w)))"
    and "named (ucd w) tn k n x" and "named (ucd w) tn k n' y" and "EqualFold (ucd w) n n'"
  shows "x = y"
proof -
  have "inj_on (\<lambda>t. (tgTenantID t, tgKind t, foldName (ucd w) (tgName t))) (set (rows (tags (db w))))"
    using assms(1) mem_invD(11) by (auto simp: store_ok_def tag_unique_def)
  then show ?thesis
    by (rule inj_onD) (use assms in \<open>auto simp: named_def foldName_def EqualFold_def\<close>)
qed

text \<open>
  \<open>EnsureTagByName\<close> is idempotent up to case: asking again for a name that folds to the
  same text returns a tag with the same id and creates nothing.
\<close>

theorem EnsureTagByName_idempotent:
  assumes ok: "store_ok w" and first: "EnsureTagByName tn k n w = (Inr g, w1)"
    and same: "EqualFold (ucd w) n n'" and again: "EnsureTagByName tn k n' w1 = (Inr g2, w2)"
  shows "tgID g2 = tgID g \<and> db w2 = db w1"
proof -
  have ok1: "store_ok w1" using preservesE [OF tag_writes(2) ok first] .
  note c1 = EnsureTagByName_cases [OF first] and c2 = EnsureTagByName_cases [OF again]
  then obtain x where x: "x \<in> set (rows (tags (db w1)))" "tgID x = tgID g" "named (ucd w1) tn k n x" by auto
  have "named (ucd w1) tn k n' x"
    using x(3) same c1 by (auto simp: named_def intro: EqualFold_trans)
  then have "db w2 = db w1 \<and> g2 \<in> set (rows (tags (db w1))) \<and> named (ucd w1) tn k n' g2"
    using c2 x(1) by blast
  moreover from this have "x = g2"
    using named_unique [OF ok1 x(1) _ x(3), of g2 n'] same c1 by simp
  ultimately show ?thesis using x(2) by simp
qed

theorem EnsureTagByName_idempotent_witness:
  "\<exists>g w1 w2. EnsureTagByName ''acme'' [] ''hardware'' demo_store = (Inr g, w1) \<and>
     EnsureTagByName ''acme'' [] ''HARDWARE'' w1 = (Inr g, w2) \<and> tgID g = ''g1'' \<and> db w2 = db w1"
proof -
  let ?g = "demo_tag\<lparr>tgKind := KindTag\<rparr>"
  have fold: "EqualFold ascii_tables ''Hardware'' ''hardware''" "EqualFold ascii_tables ''Hardware'' ''HARDWARE''"
    "EqualFold ascii_tables ''hardware'' ''HARDWARE''"
    by (simp_all add: EqualFold_def ascii_tables_def str_eval)
  have "EnsureTagByName ''acme'' [] ''hardware'' demo_store = (Inr ?g, demo_store)"
    "EnsureTagByName ''acme'' [] ''HARDWARE'' demo_store = (Inr ?g, demo_store)"
    by (simp_all add: EnsureTagByName_def demo_store_eq demo_tables_def demo_tag_def run fold Let_def)
  moreover have "db demo_store = db demo_store \<and> tgID ?g = ''g1''"
    using EnsureTagByName_idempotent [OF demo_ok calculation(1) _ calculation(2)] fold
    by (simp add: demo_store_eq demo_tag_def)
  ultimately show ?thesis by blast
qed

section \<open>Mailboxes\<close>

text \<open>
  Routing follows the mailbox table. After a mailbox is created, every spelling of its
  address (case and surrounding blanks aside) routes to it and to its tenant, and no other mailbox,
  of any tenant, can be created with an address that normalises to the same text.
\<close>

theorem RouteMailbox_created:
  assumes ok: "store_ok w" and created: "CreateMailbox mb w = (Inr (), w1)"
    and addr: "normAddr (ucd w) a = normAddr (ucd w) (mbAddress mb)" "normAddr (ucd w) a \<noteq> []"
    and calm: "calm ''RouteMailbox'' w1"
    and other: "mbID mb2 \<noteq> mbID mb" "normAddr (ucd w) (mbAddress mb2) = normAddr (ucd w) (mbAddress mb)"
  shows "(\<exists>r. RouteMailbox a w1 = (Inr r, w1) \<and> rtTenantID r = mbTenantID mb \<and> rtMailboxID r = mbID mb \<and>
      rtActive r = mbActive mb) \<and>
    (\<exists>e w2. CreateMailbox mb2 w1 = (Inl e, w2) \<and> db w2 = db w1)"
proof -
  let ?a = "normAddr (ucd w) (mbAddress mb)"
  let ?mb = "storedMailbox ?a (clock w (ticks w)) mb"
  have new: "map_of (mailboxes (db w)) (mbID mb) = None" and free: "\<not> addressTaken (mailboxes (db w)) (mbID mb) ?a"
    and u: "ucd w1 = ucd w"
    and db: "db w1 = (db w)\<lparr>mailboxes := AList.update (mbID mb) ?mb (mailboxes (db w))\<rparr>"
    using created by (auto simp: CreateMailbox_def run Let_def split: if_splits)
  have rows: "rows (mailboxes (db w1)) = rows (mailboxes (db w)) @ [?mb]"
    using new by (simp add: db rows_update_new)
  have ok': "table_ok mbID (mailboxes (db w))" using ok mem_invD(6) by (auto simp: store_ok_def)
  have ids: "mbID x \<noteq> mbID mb" if "x \<in> set (rows (mailboxes (db w)))" for x
    using that new rows_lookup_iff [OF ok', of x] by auto
  have "find (\<lambda>x. mbAddress x = normAddr (ucd w1) a \<and> normAddr (ucd w1) a \<noteq> []) (rows (mailboxes (db w1))) = Some ?mb"
    by (rule find_unique) (use addr free ids in \<open>auto simp: rows u addressTaken_def\<close>)
  then have "\<exists>r. RouteMailbox a w1 = (Inr r, w1) \<and> rtTenantID r = mbTenantID mb \<and> rtMailboxID r = mbID mb \<and>
      rtActive r = mbActive mb"
    using calm by (auto simp: RouteMailbox_def run Let_def calm_def storedMailbox_def)
  moreover have "addressTaken (mailboxes (db w1)) (mbID mb2) (normAddr (ucd w1) (mbAddress mb2))"
    using other u by (auto simp: addressTaken_def rows)
  then have "\<exists>e w2. CreateMailbox mb2 w1 = (Inl e, w2) \<and> db w2 = db w1"
    by (simp add: CreateMailbox_def run Let_def)
  ultimately show ?thesis by blast
qed

theorem RouteMailbox_created_witness:
  "\<exists>r (w1 :: mem). RouteMailbox ''HELP@ACME.IO'' w1 = (Inr r, w1) \<and> rtTenantID r = ''acme'' \<and> rtMailboxID r = ''m1''"
proof -
  have n: "normAddr ascii_tables ''HELP@ACME.IO'' = ''help@acme.io''"
    by (simp add: normAddr_def str_eval)
  define w0 where "w0 = New demo_rt"
  obtain w1 where w1: "CreateMailbox demo_mailbox w0 = (Inr (), w1)" "calm ''RouteMailbox'' w1"
    by (simp add: w0_def demo_defs New_def rt.defs mem.defs empty_tables_def CreateMailbox_def run Let_def
        addressTaken_def calm_def)
  have u: "ucd w0 = ascii_tables" by (simp add: w0_def New_def rt.defs mem.defs demo_rt_def)
  have "\<exists>r. RouteMailbox ''HELP@ACME.IO'' w1 = (Inr r, w1) \<and> rtTenantID r = mbTenantID demo_mailbox \<and>
      rtMailboxID r = mbID demo_mailbox"
    using RouteMailbox_created [of w0 demo_mailbox w1 "''HELP@ACME.IO''" "demo_mailbox\<lparr>mbID := ''m2''\<rparr>"]
      New_ok [of demo_rt] w1 by (auto simp: w0_def [symmetric] u n demo_addr) (auto simp: demo_mailbox_def demo_addr n)
  then show ?thesis by (auto simp: demo_mailbox_def)
qed

text \<open>
  A mailbox in use is never lost silently. Deleting a mailbox that tickets refer to is
  refused without force and changes nothing; with force (or when no ticket refers to it) the mailbox
  goes, exactly the tickets that referred to it are detached, and no ticket is removed.
\<close>

theorem DeleteMailbox_detaches:
  assumes "mailbox_of (db w) tn i = Inr mb" and "calm ''DeleteMailbox'' w"
  shows "if (\<exists>t \<in> set (rows (tickets (db w))). tkMailboxID t = i) \<and> \<not> force
    then DeleteMailbox tn i force w = (Inl RepoNotEmpty, w)
    else \<exists>w'. DeleteMailbox tn i force w = (Inr (), w') \<and>
      map_of (mailboxes (db w')) = (map_of (mailboxes (db w)))(i := None) \<and>
      rows (tickets (db w')) = map (\<lambda>t. if tkMailboxID t = i then t\<lparr>tkMailboxID := []\<rparr> else t) (rows (tickets (db w)))"
proof -
  have refs: "filter (\<lambda>(_, t). tkMailboxID t = i) (tickets (db w)) \<noteq> [] \<longleftrightarrow>
      (\<exists>t \<in> set (rows (tickets (db w))). tkMailboxID t = i)"
    by (force simp: set_rows filter_empty_conv)
  show ?thesis
    using assms refs
    by (auto simp: DeleteMailbox_def run calm_def delete_conv' rows_map_prod detach_def [abs_def])
qed

theorem DeleteMailbox_detaches_witness:
  "DeleteMailbox ''acme'' ''m1'' False demo_store = (Inl RepoNotEmpty, demo_store) \<and>
   (\<exists>w'. DeleteMailbox ''acme'' ''m1'' True demo_store = (Inr (), w') \<and>
      map tkMailboxID (rows (tickets (db w'))) = [[], []])"
proof -
  have pre: "mailbox_of (db demo_store) ''acme'' ''m1'' = Inr (demo_mailbox\<lparr>mbAddress := ''help@acme.io''\<rparr>)"
    "calm ''DeleteMailbox'' demo_store"
    by (simp_all add: demo_store_eq demo_tables_def demo_defs mailbox_of_def scoped_def calm_def)
  have "\<exists>t \<in> set (rows (tickets (db demo_store))). tkMailboxID t = ''m1''"
    by (simp add: demo_store_eq demo_tables_def demo_defs)
  then show ?thesis
    using DeleteMailbox_detaches [OF pre, of False] DeleteMailbox_detaches [OF pre, of True]
    by (auto simp: demo_store_eq demo_tables_def demo_defs)
qed

section \<open>Rules\<close>

text \<open>
  The rules the triage engine evaluates are exactly the tenant's enabled rules, in sort
  order, then name, then id.
\<close>

theorem ListEnabledRules_order:
  assumes "ListEnabledRules tn w = (Inr rs, w')"
  shows "db w' = db w \<and> mset rs = filter_mset (\<lambda>r. ruTenantID r = tn \<and> ruEnabled r) (mset (rows (rules (db w)))) \<and>
    sorted (map (\<lambda>r. (ruSortOrder r, ruName r, ruID r)) rs)"
proof -
  have clone: "map cloneRule xs = xs" for xs by (simp add: map_idI)
  have "rs = listRules (db w) tn True \<and> db w' = db w"
    using assms by (auto simp: ListEnabledRules_def run split: if_splits)
  then show ?thesis
    by (simp add: listRules_def sortRules_def clone mset_filter)
qed

theorem ListEnabledRules_order_witness:
  "\<exists>rs w'. ListEnabledRules ''acme'' demo_store = (Inr rs, w') \<and> length rs = 1 \<and>
     sorted (map (\<lambda>r. (ruSortOrder r, ruName r, ruID r)) rs)"
proof -
  obtain rs w' where rs: "ListEnabledRules ''acme'' demo_store = (Inr rs, w')" "length rs = 1"
    by (simp add: ListEnabledRules_def demo_store_eq demo_tables_def demo_defs run listRules_def sortRules_def)
  then show ?thesis using ListEnabledRules_order [OF rs(1)] by auto
qed

text \<open>
  A stored rule version names one content. \<open>UpdateRule\<close> raises the version of the
  stored rule by one and keeps its creation time, so a (rule id, version) pair, the key of the
  compiled-program cache, is never reused for a changed rule.
\<close>

theorem UpdateRule_bumps_version:
  assumes "UpdateRule r w = (Inr r', w')" and "calm ''GetRule'' w'"
  shows "\<exists>cur. map_of (rules (db w)) (ruID r) = Some cur \<and> ruVersion r' = ruVersion cur + 1 \<and>
    ruCreatedAt r' = ruCreatedAt cur \<and> ruTenantID r' = ruTenantID cur \<and>
    GetRule (ruTenantID r) (ruID r) w' = (Inr r', w') \<and>
    (\<forall>k. k \<noteq> ruID r \<longrightarrow> map_of (rules (db w')) k = map_of (rules (db w)) k)"
proof -
  obtain cur where cur: "rule_of (db w) (ruTenantID r) (ruID r) = Inr cur"
    using assms(1) by (cases "rule_of (db w) (ruTenantID r) (ruID r)") (auto simp: UpdateRule_def run split: if_splits)
  then have k: "map_of (rules (db w)) (ruID r) = Some cur" "ruTenantID cur = ruTenantID r"
    by (simp_all add: rule_of_def scoped_iff)
  obtain now where r': "r' = revised cur now r"
    and db: "db w' = (db w)\<lparr>rules := AList.update (ruID r) r' (rules (db w))\<rparr>"
    using assms(1) cur by (auto simp: UpdateRule_def run Let_def split: if_splits)
  have "GetRule (ruTenantID r) (ruID r) w' = (Inr r', w')"
    using assms(2) r' by (simp add: ru.fetch_eq db scoped_def update_conv)
  then show ?thesis using k r' by (auto simp: revised_def db update_conv)
qed

theorem UpdateRule_bumps_version_witness:
  "\<exists>r' w'. UpdateRule (demo_rule\<lparr>ruName := ''fires 2''\<rparr>) demo_store = (Inr r', w') \<and> ruVersion r' = 2"
proof -
  obtain r' w' where r': "UpdateRule (demo_rule\<lparr>ruName := ''fires 2''\<rparr>) demo_store = (Inr r', w')" "calm ''GetRule'' w'"
    by (simp add: UpdateRule_def demo_store_eq demo_tables_def demo_defs run rule_of_def scoped_def calm_def Let_def)
  then show ?thesis
    using UpdateRule_bumps_version [OF r'] by (auto simp: demo_store_eq demo_tables_def demo_defs)
qed

end
