(* ===== verification/Authz.thy ===== *)
theory Authz
  imports StoreModel
begin

text \<open>
  The access model (\<open>internal/authz\<close>): the authenticated caller, the permissions, and the
  checks the services and the API edges make. A \<open>Checker\<close> (the auth service) is a parameter:
  any function of tenant, user and permission; \<open>None\<close> is the nil checker.
\<close>

definition ActorService :: string where "ActorService = ''service''"

definition InboundActorID :: string where "InboundActorID = ''inbound-mail''"

definition TicketsRead :: string where "TicketsRead = ''tickets:read''"
definition TicketsManage :: string where "TicketsManage = ''tickets:manage''"
definition TicketsDelete :: string where "TicketsDelete = ''tickets:delete''"
definition TagsManage :: string where "TagsManage = ''tags:manage''"
definition RulesManage :: string where "RulesManage = ''rules:manage''"
definition MailboxesManage :: string where "MailboxesManage = ''mailboxes:manage''"
definition StatsRead :: string where "StatsRead = ''stats:read''"
definition BackupManage :: string where "BackupManage = ''backup:manage''"

definition Permissions :: "string list" where
  "Permissions = [TicketsRead, TicketsManage, TicketsDelete, TagsManage, RulesManage, MailboxesManage,
     StatsRead, BackupManage]"

definition RolePlatformAdmin :: string where "RolePlatformAdmin = ''platform-admin''"

lemmas authz_consts = ActorService_def InboundActorID_def TicketsRead_def TicketsManage_def
  TicketsDelete_def TagsManage_def RulesManage_def MailboxesManage_def StatsRead_def BackupManage_def
  RolePlatformAdmin_def

definition inboundAllowed :: "string \<Rightarrow> bool" where
  "inboundAllowed p \<longleftrightarrow> p \<in> {TicketsRead, TicketsManage, TagsManage}"

definition serviceAllowed :: "string \<Rightarrow> bool" where
  "serviceAllowed p \<longleftrightarrow> p \<in> {TicketsRead, TicketsManage}"

record subjects =
  suTenantID :: string
  suUserID :: string
  suRoles :: "string list"
  suActorKind :: string

type_synonym checker = "string \<Rightarrow> string \<Rightarrow> string \<Rightarrow> bool"

text \<open>The map-backed checker.\<close>

definition Static :: "string list table \<Rightarrow> checker" where
  "Static s tenantID userID permission \<longleftrightarrow>
     (case map_of s userID of None \<Rightarrow> False | Some ps \<Rightarrow> permission \<in> set ps)"

definition SystemFor :: "string \<Rightarrow> subjects" where
  "SystemFor tenantID =
     \<lparr>suTenantID = tenantID, suUserID = InboundActorID, suRoles = [], suActorKind = ActorInbound\<rparr>"

definition Internal :: "string \<Rightarrow> subjects" where
  "Internal tenantID =
     \<lparr>suTenantID = tenantID, suUserID = ActorSystem, suRoles = [], suActorKind = ActorSystem\<rparr>"

definition Service :: "string \<Rightarrow> string \<Rightarrow> subjects" where
  "Service tenantID spiffeID =
     \<lparr>suTenantID = tenantID, suUserID = spiffeID, suRoles = [], suActorKind = ActorService\<rparr>"

definition HasRole :: "subjects \<Rightarrow> string \<Rightarrow> bool" where
  "HasRole s role \<longleftrightarrow> (\<exists>r \<in> set (suRoles s). r = role)"

definition IsPlatformAdmin :: "subjects \<Rightarrow> bool" where
  "IsPlatformAdmin s \<longleftrightarrow> suActorKind s = ActorSystem \<or> HasRole s RolePlatformAdmin"

definition ActorID :: "subjects \<Rightarrow> string" where
  "ActorID s = (if suUserID s \<noteq> [] then suUserID s else suActorKind s)"

definition IsHuman :: "subjects \<Rightarrow> bool" where
  "IsHuman s \<longleftrightarrow> suActorKind s = ActorAgent"

definition KnownPermission :: "string \<Rightarrow> bool" where
  "KnownPermission perm \<longleftrightarrow> (\<exists>p \<in> set Permissions. p = perm)"

definition Require :: "checker option \<Rightarrow> subjects \<Rightarrow> string \<Rightarrow> unit res" where
  "Require c s perm =
     (if suTenantID s = [] then Inl (Forbidden ''tenant required'')
      else if \<not> KnownPermission perm then Inl (Forbidden (''unknown permission '' @ perm))
      else if suActorKind s = ActorSystem then Inr ()
      else if suActorKind s = ActorInbound \<and> inboundAllowed perm then Inr ()
      else if suActorKind s = ActorService \<and> serviceAllowed perm \<and> suUserID s \<noteq> [] then Inr ()
      else if suActorKind s = ActorAgent \<and>
              (case c of None \<Rightarrow> False
               | Some has \<Rightarrow> suUserID s \<noteq> [] \<and> has (suTenantID s) (suUserID s) perm) then Inr ()
      else Inl (Forbidden (perm @ '' required'')))"

definition Allowed :: "checker option \<Rightarrow> subjects \<Rightarrow> string \<Rightarrow> bool" where
  "Allowed c s perm \<longleftrightarrow> Require c s perm = Inr ()"

definition RequireTenant :: "subjects \<Rightarrow> string \<Rightarrow> unit res" where
  "RequireTenant s tenantID =
     (if tenantID = [] \<or> suTenantID s \<noteq> tenantID then Inl (Forbidden ''tenant mismatch'') else Inr ())"

definition RequirePlatformAdmin :: "subjects \<Rightarrow> unit res" where
  "RequirePlatformAdmin s =
     (if IsPlatformAdmin s then Inr () else Inl (Forbidden ''platform-admin required''))"

text \<open>\<open>strings.Cut\<close> at the first colon.\<close>

definition Split :: "string \<Rightarrow> string \<times> string \<times> bool" where
  "Split perm =
     (let resource = takeWhile (\<lambda>c. c \<noteq> CHR '':'') perm;
          found = (CHR '':'' \<in> set perm);
          action = (if found then drop (Suc (length resource)) perm else [])
      in (resource, action, found \<and> resource \<noteq> [] \<and> action \<noteq> []))"

lemma actor_neq [simp]:
  "ActorInbound \<noteq> ActorSystem" "ActorSystem \<noteq> ActorInbound" "ActorService \<noteq> ActorSystem"
  "ActorSystem \<noteq> ActorService" "ActorAgent \<noteq> ActorSystem" "ActorSystem \<noteq> ActorAgent"
  "ActorInbound \<noteq> ActorService" "ActorService \<noteq> ActorInbound" "ActorInbound \<noteq> ActorAgent"
  "ActorAgent \<noteq> ActorInbound" "ActorService \<noteq> ActorAgent" "ActorAgent \<noteq> ActorService"
  by (simp_all add: store_consts authz_consts)

lemma guard_Inr:
  "(if b then Inl e else x) = Inr y \<longleftrightarrow> \<not> b \<and> x = Inr y"
  "(if b then Inr () else z) = Inr () \<longleftrightarrow> b \<or> z = Inr ()"
  by auto

lemma Require_iff:
  "Require c s perm = Inr () \<longleftrightarrow> suTenantID s \<noteq> [] \<and> KnownPermission perm \<and>
     (suActorKind s = ActorSystem \<or> suActorKind s = ActorInbound \<and> inboundAllowed perm \<or>
      suActorKind s = ActorService \<and> serviceAllowed perm \<and> suUserID s \<noteq> [] \<or>
      suActorKind s = ActorAgent \<and>
        (case c of None \<Rightarrow> False | Some has \<Rightarrow> suUserID s \<noteq> [] \<and> has (suTenantID s) (suUserID s) perm))"
  unfolding Require_def guard_Inr by simp

lemma inboundAllowed_eval [simp]:
  "\<not> inboundAllowed TicketsDelete" "\<not> inboundAllowed RulesManage" "\<not> inboundAllowed MailboxesManage"
  "\<not> inboundAllowed StatsRead" "\<not> inboundAllowed BackupManage"
  by (simp_all add: inboundAllowed_def authz_consts)

text \<open>
  Access is granted exactly as the model says. A caller passes \<open>Require\<close> for a known
  permission iff it acts in a tenant and is the system scope, or the inbound edge or a named mesh
  peer within its fixed allow-list, or a named agent whose permission the checker confirms in the
  caller's own tenant. A missing checker refuses every agent.
\<close>

theorem Require_exact:
  "Require c s perm = Inr () \<longleftrightarrow>
     suTenantID s \<noteq> [] \<and> perm \<in> set Permissions \<and>
     (suActorKind s = ActorSystem \<or>
      suActorKind s = ActorInbound \<and> perm \<in> {TicketsRead, TicketsManage, TagsManage} \<or>
      suActorKind s = ActorService \<and> perm \<in> {TicketsRead, TicketsManage} \<and> suUserID s \<noteq> [] \<or>
      suActorKind s = ActorAgent \<and> suUserID s \<noteq> [] \<and>
        (\<exists>has. c = Some has \<and> has (suTenantID s) (suUserID s) perm))"
  unfolding Require_iff KnownPermission_def inboundAllowed_def serviceAllowed_def
  by (cases c) auto


lemma Split_Permissions: "perm \<in> set Permissions \<Longrightarrow> snd (snd (Split perm))"
  by (auto simp: Permissions_def authz_consts Split_def Let_def)

end
