(* ===== verification/AuditLog.thy ===== *)
theory AuditLog
  imports MemTags Authz
begin

text \<open>
  The audit trail (\<open>internal/audit\<close>): the closed vocabulary, the detail guard, and the
  buffered writer. \<open>Record\<close> validates an event, redacts it and enqueues the row without
  blocking; the background goroutine takes rows from the queue in order and appends each to the
  store.
\<close>

section \<open>Vocabulary\<close>

definition TicketCreate :: string where "TicketCreate = ''ticket.create''"
definition TicketUpdate :: string where "TicketUpdate = ''ticket.update''"
definition TicketDelete :: string where "TicketDelete = ''ticket.delete''"
definition TicketAssign :: string where "TicketAssign = ''ticket.assign''"
definition TicketStatus :: string where "TicketStatus = ''ticket.status''"
definition TicketTags :: string where "TicketTags = ''ticket.tags''"
definition CommentCreate :: string where "CommentCreate = ''comment.create''"
definition CommentDelete :: string where "CommentDelete = ''comment.delete''"
definition ReplySent :: string where "ReplySent = ''reply.sent''"
definition ReplyFailed :: string where "ReplyFailed = ''reply.failed''"
definition AckSent :: string where "AckSent = ''ack.sent''"
definition AckSkipped :: string where "AckSkipped = ''ack.skipped''"
definition InboundCreated :: string where "InboundCreated = ''inbound.created''"
definition InboundThreaded :: string where "InboundThreaded = ''inbound.threaded''"
definition InboundDuplicate :: string where "InboundDuplicate = ''inbound.duplicate''"
definition InboundDropped :: string where "InboundDropped = ''inbound.dropped''"
definition InboundRefused :: string where "InboundRefused = ''inbound.refused''"
definition RuleCreate :: string where "RuleCreate = ''rule.create''"
definition RuleUpdate :: string where "RuleUpdate = ''rule.update''"
definition RuleDelete :: string where "RuleDelete = ''rule.delete''"
definition RuleError :: string where "RuleError = ''rule.error''"
definition TagCreate :: string where "TagCreate = ''tag.create''"
definition TagUpdate :: string where "TagUpdate = ''tag.update''"
definition TagDelete :: string where "TagDelete = ''tag.delete''"
definition MailboxCreate :: string where "MailboxCreate = ''mailbox.create''"
definition MailboxUpdate :: string where "MailboxUpdate = ''mailbox.update''"
definition MailboxDelete :: string where "MailboxDelete = ''mailbox.delete''"
definition BackupExport :: string where "BackupExport = ''backup.export''"
definition BackupImport :: string where "BackupImport = ''backup.import''"
definition AccessRefused :: string where "AccessRefused = ''access.refused''"

definition SubjectTicket :: string where "SubjectTicket = ''ticket''"
definition SubjectComment :: string where "SubjectComment = ''comment''"
definition SubjectAttachment :: string where "SubjectAttachment = ''attachment''"
definition SubjectTag :: string where "SubjectTag = ''tag''"
definition SubjectRule :: string where "SubjectRule = ''rule''"
definition SubjectMailbox :: string where "SubjectMailbox = ''mailbox''"
definition SubjectMessage :: string where "SubjectMessage = ''message''"
definition SubjectBackup :: string where "SubjectBackup = ''backup''"
definition SubjectSystem :: string where "SubjectSystem = ''system''"

definition OutcomeOK :: string where "OutcomeOK = ''ok''"
definition OutcomeRefused :: string where "OutcomeRefused = ''refused''"
definition OutcomeError :: string where "OutcomeError = ''error''"

definition NilTenant :: string where "NilTenant = ''00000000-0000-0000-0000-000000000000''"

definition Vocabulary :: "string list" where
  "Vocabulary =
     [TicketCreate, TicketUpdate, TicketDelete, TicketAssign, TicketStatus, TicketTags,
      CommentCreate, CommentDelete, ReplySent, ReplyFailed, AckSent, AckSkipped,
      InboundCreated, InboundThreaded, InboundDuplicate, InboundDropped, InboundRefused,
      RuleCreate, RuleUpdate, RuleDelete, RuleError, TagCreate, TagUpdate, TagDelete,
      MailboxCreate, MailboxUpdate, MailboxDelete, BackupExport, BackupImport, AccessRefused]"

lemmas audit_consts = TicketCreate_def TicketUpdate_def TicketDelete_def TicketAssign_def TicketStatus_def
  TicketTags_def CommentCreate_def CommentDelete_def ReplySent_def ReplyFailed_def AckSent_def AckSkipped_def
  InboundCreated_def InboundThreaded_def InboundDuplicate_def InboundDropped_def InboundRefused_def
  RuleCreate_def RuleUpdate_def RuleDelete_def RuleError_def TagCreate_def TagUpdate_def TagDelete_def
  MailboxCreate_def MailboxUpdate_def MailboxDelete_def BackupExport_def BackupImport_def AccessRefused_def
  SubjectTicket_def SubjectComment_def SubjectAttachment_def SubjectTag_def SubjectRule_def
  SubjectMailbox_def SubjectMessage_def SubjectBackup_def SubjectSystem_def
  OutcomeOK_def OutcomeRefused_def OutcomeError_def NilTenant_def

record event =
  evTenantID :: string
  evEventType :: string
  evActorKind :: string
  evActorID :: string
  evSubjectKind :: string
  evSubjectID :: string
  evOutcome :: string
  evReason :: string
  evDetails :: "(string \<times> any) list"

definition KnownEvent :: "string \<Rightarrow> bool" where
  "KnownEvent t \<longleftrightarrow> t \<in> set Vocabulary"

definition Validate :: "event \<Rightarrow> unit res" where
  "Validate e =
     (if \<not> KnownEvent (evEventType e) then Inl (AuditInvalid ''unknown event type'')
      else if evTenantID e = [] then Inl (AuditInvalid ''tenant_id is required'')
      else if evActorKind e \<notin> {ActorAgent, ActorInbound, ActorService, ActorSystem, ActorRule}
      then Inl (AuditInvalid ''actor_kind'')
      else if evSubjectKind e \<notin> {SubjectTicket, SubjectComment, SubjectAttachment, SubjectTag, SubjectRule,
                SubjectMailbox, SubjectMessage, SubjectBackup, SubjectSystem}
      then Inl (AuditInvalid ''subject_kind'')
      else if evOutcome e \<notin> {OutcomeOK, OutcomeRefused, OutcomeError} then Inl (AuditInvalid ''outcome'')
      else Inr ())"

section \<open>The detail guard\<close>

definition forbidden :: "string list" where
  "forbidden = [''body'', ''description'', ''html'', ''requester'', ''author_email'', ''author_name'',
     ''email'', ''token'', ''password'', ''secret'', ''credential'']"

definition forbiddenKey :: "unicode \<Rightarrow> string \<Rightarrow> bool" where
  "forbiddenKey u k \<longleftrightarrow> (let lk = ToLower u k in \<exists>f \<in> set forbidden. Contains lk f)"

definition truncateReason :: "string \<Rightarrow> string" where
  "truncateReason s = (if length s > 256 then take 256 s else s)"

fun guardValue :: "unicode \<Rightarrow> any \<Rightarrow> any"
  and guardList :: "unicode \<Rightarrow> any list \<Rightarrow> any list"
  and guardMap :: "unicode \<Rightarrow> (string \<times> any) list \<Rightarrow> (string \<times> any) list" where
  "guardValue u (VStr x) = VStr (if length x > 256 then take 256 x else x)"
| "guardValue u (VMap m) = VMap (guardMap u m)"
| "guardValue u (VList xs) = VList (guardList u xs)"
| "guardValue u v = v"
| "guardList u [] = []"
| "guardList u (x # xs) = guardValue u x # guardList u xs"
| "guardMap u [] = []"
| "guardMap u ((k, v) # m) =
     (if forbiddenKey u k then guardMap u m else (k, guardValue u v) # guardMap u m)"

definition Redact :: "unicode \<Rightarrow> (string \<times> any) list \<Rightarrow> (string \<times> any) list" where
  "Redact u m = guardMap u m"

text \<open>A value that carries no forbidden key and no long string, at any depth.\<close>

fun clean :: "unicode \<Rightarrow> any \<Rightarrow> bool"
  and clean_list :: "unicode \<Rightarrow> any list \<Rightarrow> bool"
  and clean_map :: "unicode \<Rightarrow> (string \<times> any) list \<Rightarrow> bool" where
  "clean u (VStr x) = (length x \<le> 256)"
| "clean u (VMap m) = clean_map u m"
| "clean u (VList xs) = clean_list u xs"
| "clean u v = True"
| "clean_list u [] = True"
| "clean_list u (x # xs) = (clean u x \<and> clean_list u xs)"
| "clean_map u [] = True"
| "clean_map u ((k, v) # m) = (\<not> forbiddenKey u k \<and> clean u v \<and> clean_map u m)"

lemma guard_clean: "clean u (guardValue u v)" "clean_list u (guardList u xs)" "clean_map u (guardMap u m)"
  by (induction u v and u xs and u m rule: guardValue_guardList_guardMap.induct) auto

lemma clean_guard:
  "clean u v \<Longrightarrow> guardValue u v = v" "clean_list u xs \<Longrightarrow> guardList u xs = xs"
  "clean_map u m \<Longrightarrow> guardMap u m = m"
  by (induction u v and u xs and u m rule: guardValue_guardList_guardMap.induct) auto


end
