(* ===== verification/World.thy ===== *)
theory World
  imports MemSpec AuditLog
begin

text \<open>
  What the domain services act on: the store extended by the audit writer
  (\<open>internal/audit\<close>), the event publisher (\<open>internal/events\<close>), the counters
  (\<open>internal/metrics\<close>), the object store (\<open>internal/blob\<close>, its in-memory
  implementation) and the change history (\<open>internal/history\<close>). The dependencies that may be
  nil carry a flag. Logging is not modelled: it has no effect a caller can observe.
\<close>

section \<open>State\<close>

record payload =
  plTicketID :: string
  plSubject :: string
  plStatus :: string
  plPriority :: string
  plAssigneeID :: string
  plSource :: string
  plActorKind :: string

record recorded =
  reTenantID :: string
  reType :: string
  rePayload :: payload

record world = mem +
  evOn :: bool
  published :: "recorded list"
  auOn :: bool
  auQueue :: "audit_row list"
  auCap :: nat
  auClosed :: bool
  auDropped :: int
  auErrors :: int
  meOn :: bool
  counters :: "(string \<times> string list) list"
  blOn :: bool
  objects :: "string table"
  putErr :: "err option"
  delErr :: "err option"
  sha256 :: "string \<Rightarrow> string"

section \<open>The audit writer\<close>

definition rowOf :: "unicode \<Rightarrow> string \<Rightarrow> time \<Rightarrow> event \<Rightarrow> audit_row" where
  "rowOf u i now e = \<lparr>auID = i, auTenantID = evTenantID e, auAt = now, auActorKind = evActorKind e,
     auActorID = evActorID e, auAction = evEventType e, auSubjectKind = evSubjectKind e,
     auSubjectID = evSubjectID e, auOutcome = evOutcome e, auReason = truncateReason (evReason e),
     auDetail = guardMap u (evDetails e)\<rparr>"

definition Record :: "event \<Rightarrow> ('a world_scheme, unit) op" where
  "Record e =
     bnd (of_res (Validate e)) (\<lambda>_.
     bnd NewID (\<lambda>i.
     bnd Now (\<lambda>now.
     bnd (fetch (\<lambda>w. (ucd w, auClosed w, length (auQueue w) < auCap w))) (\<lambda>(u, closed, room).
     if closed then bnd (modify (\<lambda>w. w\<lparr>auDropped := auDropped w + 1\<rparr>)) (\<lambda>_. throw AuditClosed)
     else if room then modify (\<lambda>w. w\<lparr>auQueue := auQueue w @ [rowOf u i now e]\<rparr>)
     else modify (\<lambda>w. w\<lparr>auDropped := auDropped w + 1, auErrors := auErrors w + 1\<rparr>)))))"

definition writeRow :: "audit_row \<Rightarrow> ('a world_scheme, unit) op" where
  "writeRow r =
     bnd (attempt (AppendAudit r)) (\<lambda>res.
     case res of Inl e \<Rightarrow> modify (\<lambda>w. w\<lparr>auErrors := auErrors w + 1\<rparr>) | Inr _ \<Rightarrow> ret ())"

text \<open>One turn of the background loop with a row in the queue, and draining the queue.\<close>

definition runOnce :: "('a world_scheme, unit) op" where
  "runOnce =
     bnd (fetch auQueue) (\<lambda>q.
     case q of [] \<Rightarrow> ret ()
     | r # rest \<Rightarrow> bnd (modify (\<lambda>w. w\<lparr>auQueue := rest\<rparr>)) (\<lambda>_. writeRow r))"

fun drain :: "nat \<Rightarrow> ('a world_scheme, unit) op" where
  "drain 0 = ret ()"
| "drain (Suc n) = bnd runOnce (\<lambda>_. drain n)"

definition Flush :: "('a world_scheme, unit) op" where
  "Flush =
     bnd (fetch auClosed) (\<lambda>closed.
     if closed then ret () else bnd (fetch (\<lambda>w. length (auQueue w))) drain)"

definition Close :: "('a world_scheme, unit) op" where
  "Close =
     bnd (fetch auClosed) (\<lambda>closed.
     if closed then ret ()
     else bnd (modify (\<lambda>w. w\<lparr>auClosed := True\<rparr>)) (\<lambda>_. bnd (fetch (\<lambda>w. length (auQueue w))) drain))"

definition Emit :: "event \<Rightarrow> ('a world_scheme, unit) op" where
  "Emit e = bnd (fetch auOn) (\<lambda>on. if on then bnd (attempt (Record e)) (\<lambda>_. ret ()) else ret ())"

definition ActorOf :: "string \<Rightarrow> string" where
  "ActorOf kind =
     (if kind \<in> {ActorInbound, ActorService, ActorSystem, ActorRule} then kind else ActorAgent)"

section \<open>Events\<close>

definition TicketCreated :: string where "TicketCreated = ''ticket.created''"
definition TicketAssigned :: string where "TicketAssigned = ''ticket.assigned''"
definition TicketStatusChanged :: string where "TicketStatusChanged = ''ticket.status_changed''"
definition TicketCommented :: string where "TicketCommented = ''ticket.commented''"
definition TicketRequesterReplied :: string where "TicketRequesterReplied = ''ticket.requester_replied''"

lemmas event_consts = TicketCreated_def TicketAssigned_def TicketStatusChanged_def TicketCommented_def
  TicketRequesterReplied_def

definition PayloadOf :: "ticket \<Rightarrow> string \<Rightarrow> payload" where
  "PayloadOf t actorKind = \<lparr>plTicketID = tkID t,
     plSubject = (if length (tkSubject t) > 200 then take 200 (tkSubject t) else tkSubject t),
     plStatus = tkStatus t, plPriority = tkPriority t, plAssigneeID = tkAssigneeID t,
     plSource = tkSource t, plActorKind = actorKind\<rparr>"

definition Publish :: "string \<Rightarrow> string \<Rightarrow> payload \<Rightarrow> ('a world_scheme, unit) op" where
  "Publish tenantID eventType p =
     modify (\<lambda>w. w\<lparr>published := published w @ [\<lparr>reTenantID = tenantID, reType = eventType, rePayload = p\<rparr>]\<rparr>)"

definition EmitEvent :: "string \<Rightarrow> string \<Rightarrow> ticket \<Rightarrow> string \<Rightarrow> ('a world_scheme, unit) op" where
  "EmitEvent tenantID eventType t actorKind =
     bnd (fetch evOn) (\<lambda>on. if on then Publish tenantID eventType (PayloadOf t actorKind) else ret ())"

section \<open>Counters\<close>

definition count :: "string \<Rightarrow> string list \<Rightarrow> ('a world_scheme, unit) op" where
  "count name attrs = bnd (fetch meOn) (\<lambda>on.
     if on then modify (\<lambda>w. w\<lparr>counters := counters w @ [(name, attrs)]\<rparr>) else ret ())"

definition MetricInbound :: "string \<Rightarrow> ('a world_scheme, unit) op" where
  "MetricInbound outcome = count ''inbound'' [outcome]"

definition MetricRuleError :: "('a world_scheme, unit) op" where
  "MetricRuleError = count ''rulesErrors'' []"

definition MetricReply :: "string \<Rightarrow> ('a world_scheme, unit) op" where
  "MetricReply result = count ''replies'' [result]"

definition MetricAck :: "string \<Rightarrow> ('a world_scheme, unit) op" where
  "MetricAck result = count ''acks'' [result]"

definition Transition :: "string \<Rightarrow> string \<Rightarrow> ('a world_scheme, unit) op" where
  "Transition src dst = count ''transitions'' [src, dst]"

section \<open>Objects\<close>

definition blobPut :: "string \<Rightarrow> string \<Rightarrow> ('a world_scheme, string) op" where
  "blobPut key data =
     bnd (fetch putErr) (\<lambda>pe.
     case pe of
       Some e \<Rightarrow> bnd (modify (\<lambda>w. w\<lparr>putErr := None\<rparr>)) (\<lambda>_. throw e)
     | None \<Rightarrow>
         bnd (modify (\<lambda>w. w\<lparr>objects := AList.update key data (objects w)\<rparr>)) (\<lambda>_.
         fetch (\<lambda>w. sha256 w data)))"

definition blobGet :: "string \<Rightarrow> ('a world_scheme, string) op" where
  "blobGet key =
     bnd (fetch (\<lambda>w. map_of (objects w) key)) (\<lambda>ob.
     case ob of None \<Rightarrow> throw (BlobError key) | Some data \<Rightarrow> ret data)"

definition blobDelete :: "string \<Rightarrow> ('a world_scheme, unit) op" where
  "blobDelete key =
     bnd (fetch delErr) (\<lambda>de.
     case de of
       Some e \<Rightarrow> bnd (modify (\<lambda>w. w\<lparr>delErr := None\<rparr>)) (\<lambda>_. throw e)
     | None \<Rightarrow> modify (\<lambda>w. w\<lparr>objects := AList.delete key (objects w)\<rparr>))"

definition FailPut :: "err option \<Rightarrow> ('a world_scheme, unit) op" where
  "FailPut e = modify (\<lambda>w. w\<lparr>putErr := e\<rparr>)"

definition FailDelete :: "err option \<Rightarrow> ('a world_scheme, unit) op" where
  "FailDelete e = modify (\<lambda>w. w\<lparr>delErr := e\<rparr>)"

section \<open>Change history\<close>

definition histAppend ::
  "string \<Rightarrow> string \<Rightarrow> string \<Rightarrow> string \<Rightarrow> string \<Rightarrow> string \<Rightarrow> string \<Rightarrow> ('a mem_scheme, unit) op" where
  "histAppend tenantID ticketID field oldValue newValue actorKind actorID =
     (if oldValue = newValue then ret ()
      else
      bnd NewID (\<lambda>i.
      bnd Now (\<lambda>now.
      AppendHistory \<lparr>hiID = i, hiTenantID = tenantID, hiTicketID = ticketID, hiField = field,
        hiOldValue = oldValue, hiNewValue = newValue, hiActorKind = actorKind, hiActorID = actorID,
        hiCreatedAt = now\<rparr>)))"

definition histList :: "string \<Rightarrow> string \<Rightarrow> ('a mem_scheme, history list) op" where
  "histList tenantID ticketID = ListHistory tenantID ticketID"

definition histActorKind :: "subjects \<Rightarrow> string" where
  "histActorKind s =
     (if suActorKind s = ActorAgent then ActorAgent
      else if suActorKind s = ActorInbound then ActorInbound
      else ActorSystem)"

section \<open>Effects outside the store leave it alone\<close>

lemma run_world [run]:
  "bnd (EmitEvent tn ev t ak) g w =
     (if evOn w then g () (w\<lparr>published := published w @ [\<lparr>reTenantID = tn, reType = ev, rePayload = PayloadOf t ak\<rparr>]\<rparr>)
      else g () w)"
  "bnd (count n as) h w = (if meOn w then h () (w\<lparr>counters := counters w @ [(n, as)]\<rparr>) else h () w)"
  by (auto simp: EmitEvent_def Publish_def count_def op_defs)

text \<open>\<open>same_store\<close>: the tables, the armed failures and the clock source are as before.\<close>

definition same_store :: "('a world_scheme, 'b) op \<Rightarrow> bool" where
  "same_store f \<longleftrightarrow> (\<forall>w. db (snd (f w)) = db w \<and> failNext (snd (f w)) = failNext w \<and> ucd (snd (f w)) = ucd w)"

lemma same_storeD:
  "same_store f \<Longrightarrow> db (snd (f w)) = db w" "same_store f \<Longrightarrow> failNext (snd (f w)) = failNext w"
  "same_store f \<Longrightarrow> ucd (snd (f w)) = ucd w"
  by (simp_all add: same_store_def)

lemma same_store_world:
  "same_store (Record e)" "same_store (Emit e)" "same_store (EmitEvent tn ev t ak)" "same_store (count n as)"
  "same_store (blobPut k d)" "same_store (blobGet k)" "same_store (blobDelete k)"
  by (auto simp: same_store_def Record_def Emit_def EmitEvent_def Publish_def count_def blobPut_def blobGet_def
      blobDelete_def op_defs NewID_eq Now_def split: sum.splits prod.splits option.splits)

lemma same_store_ok: "same_store f \<Longrightarrow> preserves store_ok f"
  by (simp add: preserves_iff same_store_def store_ok_def)

lemmas store_ok_world [keeps] = same_store_world [THEN same_store_ok]

lemma store_ok_counters [keeps]:
  "preserves store_ok (MetricInbound x)" "preserves store_ok MetricRuleError" "preserves store_ok (MetricReply x)"
  "preserves store_ok (MetricAck x)" "preserves store_ok (Transition x y)"
  unfolding MetricInbound_def MetricRuleError_def MetricReply_def MetricAck_def Transition_def
  by (rule keeps)+

lemma store_ok_history [keeps]:
  "preserves store_ok (histAppend tn i f ov nv ak ai)" "preserves store_ok (histList tn i)"
  unfolding histAppend_def histList_def by (intro keeps)+

end
