(* ===== verification/TicketSvc.thy ===== *)
theory TicketSvc
  imports World
begin

text \<open>
  The ticket lifecycle service (\<open>internal/tickets\<close>). Every operation confines itself to the
  caller's tenant, validates its input, writes through the store, records the change in the history,
  audits it and publishes a content-safe event, in that order. The agent directory
  (\<open>agents.Directory\<close>) is a parameter: \<open>None\<close> is the nil directory, otherwise its
  \<open>Get\<close> answers for a tenant and a user id.
\<close>

section \<open>Inputs\<close>

record user =
  usID :: string
  usName :: string
  usEmail :: string

definition DisplayName :: "user \<Rightarrow> string" where
  "DisplayName u = (if usName u \<noteq> [] then usName u else usID u)"

type_synonym directory = "string \<Rightarrow> string \<Rightarrow> user res"

record create_input =
  ciSubject :: string
  ciDescription :: string
  ciPriority :: string
  ciRequesterEmail :: string
  ciRequesterName :: string
  ciAssigneeID :: string

record update_input =
  uiSubject :: "string option"
  uiDescription :: "string option"
  uiPriority :: "string option"

record view =
  vwTicket :: ticket
  vwHasHTML :: bool
  vwTags :: "tag list"
  vwAttachments :: "attachment list"

definition MaxSubject :: nat where "MaxSubject = 998"
definition MaxDescription :: nat where "MaxDescription = 2 ^ 20"
definition MaxName :: nat where "MaxName = 200"
definition MaxEmail :: nat where "MaxEmail = 320"

definition tkMapErr :: "err \<Rightarrow> err" where
  "tkMapErr e = (if err_is e RepoNotFound then TkNotFound else e)"

definition tenantOf :: "subjects \<Rightarrow> string res" where
  "tenantOf subj = (if suTenantID subj = [] then Inl (Forbidden ''tenant required'') else Inr (suTenantID subj))"

definition tkInvalid :: "string \<Rightarrow> string \<Rightarrow> err" where
  "tkInvalid field msg = Validation ''tickets'' field msg"

definition flatten :: "string \<Rightarrow> string" where
  "flatten v = map (\<lambda>c. if byte c = 13 \<or> byte c = 10 then CHR '' '' else c) v"

definition cleanSubject :: "string \<Rightarrow> string res" where
  "cleanSubject v =
     (let v' = TrimSpace (flatten v)
      in if v' = [] then Inl (tkInvalid ''subject'' ''required'')
         else if RuneCountInString v' > MaxSubject \<or> \<not> ValidString v'
         then Inl (tkInvalid ''subject'' ''too long or not UTF-8'')
         else if hasControl v' False then Inl (tkInvalid ''subject'' ''control characters'')
         else Inr v')"

definition cleanDescription :: "string \<Rightarrow> string res" where
  "cleanDescription v =
     (if length v > MaxDescription \<or> \<not> ValidString v \<or> hasControl v True
      then Inl (tkInvalid ''description'' ''too long or invalid characters'')
      else Inr v)"

definition cleanRequester :: "unicode \<Rightarrow> string \<Rightarrow> string \<Rightarrow> (string \<times> string) res" where
  "cleanRequester u email name =
     (let email' = TrimSpace email; name' = TrimSpace name
      in if email' \<noteq> [] \<and> (length email' > MaxEmail \<or> hasControl email' False)
         then Inl (tkInvalid ''requester_email'' ''invalid address'')
         else if email' \<noteq> [] \<and> \<not> bareAddress u email'
         then Inl (tkInvalid ''requester_email'' ''invalid address'')
         else if RuneCountInString name' > MaxName \<or> hasControl name' False \<or> \<not> ValidString name'
         then Inl (tkInvalid ''requester_name'' ''too long or invalid characters'')
         else Inr (email', name'))"

definition resolveAssignee :: "directory option \<Rightarrow> string \<Rightarrow> string \<Rightarrow> user res" where
  "resolveAssignee dir tenantID userID =
     (case dir of
        None \<Rightarrow> Inl TkDirectoryUnavailable
      | Some get \<Rightarrow>
          (case get tenantID userID of
             Inr u \<Rightarrow> Inr u
           | Inl e \<Rightarrow>
               if err_is e AgUnknownUser \<or> err_is e AgNotAssignable then Inl TkInvalidAssignee
               else Inl TkDirectoryUnavailable))"

definition auditTicket ::
  "subjects \<Rightarrow> string \<Rightarrow> string \<Rightarrow> string \<Rightarrow> (string \<times> any) list \<Rightarrow> ('a world_scheme, unit) op" where
  "auditTicket subj t ident outcome details =
     Emit \<lparr>evTenantID = suTenantID subj, evEventType = t, evActorKind = ActorOf (suActorKind subj),
       evActorID = ActorID subj, evSubjectKind = SubjectTicket, evSubjectID = ident,
       evOutcome = outcome, evReason = [], evDetails = details\<rparr>"

definition view_op :: "ticket \<Rightarrow> bool \<Rightarrow> ('a world_scheme, view) op" where
  "view_op t full =
     bnd (TagsForTickets (tkTenantID t) [tkID t]) (\<lambda>tags.
     let tt = (case map_of tags (tkID t) of None \<Rightarrow> [] | Some ts \<Rightarrow> ts)
     in if full then
          bnd (ListAttachments (tkTenantID t) (tkID t)) (\<lambda>atts.
          ret \<lparr>vwTicket = t, vwHasHTML = HasHTML t, vwTags = tt, vwAttachments = atts\<rparr>)
        else ret \<lparr>vwTicket = t, vwHasHTML = HasHTML t, vwTags = tt, vwAttachments = []\<rparr>)"

section \<open>Operations\<close>

definition newTicket :: "string \<Rightarrow> string \<Rightarrow> time \<Rightarrow> string \<Rightarrow> string \<Rightarrow> string \<Rightarrow> string \<Rightarrow> string \<Rightarrow> string \<Rightarrow> ticket" where
  "newTicket i tenantID now subject desc prio email name createdBy =
     \<lparr>tkID = i, tkTenantID = tenantID, tkSubject = subject, tkDescription = desc, tkBodyHTML = [],
      tkStatus = StatusOpen, tkPriority = prio, tkSource = SourceManual, tkRequesterEmail = email,
      tkRequesterName = name, tkRecipient = [], tkMailboxID = [], tkExternalID = [], tkAssigneeID = [],
      tkAssigneeName = [], tkCommentCount = 0, tkLastMessageID = [], tkCreatedBy = createdBy,
      tkCreatedAt = now, tkUpdatedAt = now, tkResolvedAt = None\<rparr>"

text \<open>The step of \<open>Create\<close> that assigns the new ticket.\<close>

definition withAssignee :: "directory option \<Rightarrow> string \<Rightarrow> string \<Rightarrow> ticket \<Rightarrow> ticket res" where
  "withAssignee dir tenantID assigneeID t =
     (if assigneeID \<noteq> [] then
        (case resolveAssignee dir tenantID assigneeID of
           Inl e \<Rightarrow> Inl e
         | Inr us \<Rightarrow> Inr (t\<lparr>tkAssigneeID := usID us, tkAssigneeName := DisplayName us\<rparr>))
      else Inr t)"

definition tkCreate :: "directory option \<Rightarrow> subjects \<Rightarrow> create_input \<Rightarrow> ('a world_scheme, view) op" where
  "tkCreate dir subj inp =
     bnd (of_res (tenantOf subj)) (\<lambda>tenantID.
     bnd (of_res (cleanSubject (ciSubject inp))) (\<lambda>subject.
     bnd (of_res (cleanDescription (ciDescription inp))) (\<lambda>desc.
     bnd (fetch ucd) (\<lambda>u.
     bnd (of_res (cleanRequester u (ciRequesterEmail inp) (ciRequesterName inp))) (\<lambda>(email, name).
     let prio = (if ciPriority inp = [] then PriorityNormal else ciPriority inp)
     in if \<not> ValidPriority prio then throw (tkInvalid ''priority'' ''unknown priority'')
        else
        bnd Now (\<lambda>now.
        bnd NewID (\<lambda>i.
        let t = newTicket i tenantID now subject desc prio email name (ActorID subj)
        in bnd (of_res (withAssignee dir tenantID (ciAssigneeID inp) t)) (\<lambda>t.
           bnd (CreateTicket t) (\<lambda>_.
           bnd (map_err tkMapErr (GetTicket tenantID (tkID t))) (\<lambda>stored.
           bnd (auditTicket subj TicketCreate (tkID t) OutcomeOK
                  [(''status'', VStr (tkStatus stored)), (''priority'', VStr (tkPriority stored)),
                   (''source'', VStr (tkSource stored)), (''assigned'', VBool (tkAssigneeID stored \<noteq> []))]) (\<lambda>_.
           bnd (EmitEvent tenantID TicketCreated stored (histActorKind subj)) (\<lambda>_.
           view_op stored False))))))))))))"

definition tkGet :: "subjects \<Rightarrow> string \<Rightarrow> ('a world_scheme, view) op" where
  "tkGet subj ident =
     bnd (of_res (tenantOf subj)) (\<lambda>tenantID.
     bnd (map_err tkMapErr (GetTicket tenantID ident)) (\<lambda>t.
     view_op t True))"

definition tkList ::
  "(ticket list \<Rightarrow> 'req \<Rightarrow> (ticket \<Rightarrow> string \<Rightarrow> sort_val) \<Rightarrow> (ticket \<Rightarrow> string) \<Rightarrow> ticket list) \<Rightarrow>
   (ticket list \<Rightarrow> 'req \<Rightarrow> ticket list \<times> int \<times> 'req) \<Rightarrow>
   subjects \<Rightarrow> ticket_filter \<Rightarrow> 'req \<Rightarrow> ('a world_scheme, view list \<times> int \<times> 'req) op" where
  "tkList SortSlice Window subj f req =
     bnd (of_res (tenantOf subj)) (\<lambda>tenantID.
     if tfStatus f \<noteq> [] \<and> \<not> ValidStatus (tfStatus f) then throw TkInvalidStatus
     else if tfPriority f \<noteq> [] \<and> \<not> ValidPriority (tfPriority f)
     then throw (tkInvalid ''priority'' ''unknown priority'')
     else
     bnd (ListTickets SortSlice Window tenantID (f\<lparr>tfQuery := TrimSpace (tfQuery f)\<rparr>) req) (\<lambda>(items, total, applied).
     bnd (if items = [] then ret [] else TagsForTickets tenantID (map tkID items)) (\<lambda>tags.
     ret (map (\<lambda>t. \<lparr>vwTicket = t, vwHasHTML = HasHTML t,
            vwTags = (case map_of tags (tkID t) of None \<Rightarrow> [] | Some ts \<Rightarrow> ts), vwAttachments = []\<rparr>) items,
          total, applied))))"

text \<open>The validation part of \<open>Update\<close>: the patch and the names of the changed fields.\<close>

definition patchOf :: "update_input \<Rightarrow> (ticket_patch \<times> any list) res" where
  "patchOf inp =
     (case (case uiSubject inp of None \<Rightarrow> Inr None | Some v \<Rightarrow>
              (case cleanSubject v of Inl e \<Rightarrow> Inl e | Inr v' \<Rightarrow> Inr (Some v'))) of
        Inl e \<Rightarrow> Inl e
      | Inr s \<Rightarrow>
          (case (case uiDescription inp of None \<Rightarrow> Inr None | Some v \<Rightarrow>
                   (case cleanDescription v of Inl e \<Rightarrow> Inl e | Inr v' \<Rightarrow> Inr (Some v'))) of
             Inl e \<Rightarrow> Inl e
           | Inr d \<Rightarrow>
               (case uiPriority inp of
                  None \<Rightarrow> Inr (\<lparr>tpSubject = s, tpDescription = d, tpPriority = None\<rparr>,
                    (if s = None then [] else [VStr ''subject'']) @ (if d = None then [] else [VStr ''description'']))
                | Some p \<Rightarrow>
                    if \<not> ValidPriority p then Inl (tkInvalid ''priority'' ''unknown priority'')
                    else Inr (\<lparr>tpSubject = s, tpDescription = d, tpPriority = Some p\<rparr>,
                      (if s = None then [] else [VStr ''subject'']) @
                      (if d = None then [] else [VStr ''description'']) @ [VStr ''priority'']))))"

definition tkUpdate :: "subjects \<Rightarrow> string \<Rightarrow> update_input \<Rightarrow> ('a world_scheme, view) op" where
  "tkUpdate subj ident inp =
     bnd (of_res (tenantOf subj)) (\<lambda>tenantID.
     bnd (of_res (patchOf inp)) (\<lambda>(p, changed).
     bnd (map_err tkMapErr (GetTicket tenantID ident)) (\<lambda>before.
     bnd Now (\<lambda>now.
     bnd (map_err tkMapErr (UpdateTicket tenantID ident p now)) (\<lambda>after.
     bnd (map_err tkMapErr (histAppend tenantID ident FieldPriority (tkPriority before) (tkPriority after)
            (histActorKind subj) (ActorID subj))) (\<lambda>_.
     bnd (auditTicket subj TicketUpdate ident OutcomeOK
            [(''fields'', VList changed), (''priority'', VStr (tkPriority after))]) (\<lambda>_.
     view_op after True)))))))"

text \<open>The best-effort removal of the attachment objects: how many deletes failed.\<close>

fun deleteObjects :: "string list \<Rightarrow> ('a world_scheme, int) op" where
  "deleteObjects [] = ret 0"
| "deleteObjects (k # ks) =
     bnd (attempt (blobDelete k)) (\<lambda>r.
     bnd (deleteObjects ks) (\<lambda>n. ret (case r of Inl _ \<Rightarrow> n + 1 | Inr _ \<Rightarrow> n)))"

definition tkDelete :: "subjects \<Rightarrow> string \<Rightarrow> ('a world_scheme, unit) op" where
  "tkDelete subj ident =
     bnd (of_res (tenantOf subj)) (\<lambda>tenantID.
     bnd (map_err tkMapErr (DeleteTicket tenantID ident)) (\<lambda>keys.
     bnd (fetch blOn) (\<lambda>on.
     bnd (if on then deleteObjects keys else ret 0) (\<lambda>failed.
     auditTicket subj TicketDelete ident OutcomeOK
       [(''attachments'', VInt (int (length keys))), (''objects_failed'', VInt failed)]))))"

definition reasonOf :: "err \<Rightarrow> string" where
  "reasonOf e =
     (if err_is e TkInvalidAssignee then ''invalid_assignee''
      else if err_is e TkDirectoryUnavailable then ''directory_unavailable''
      else ''error'')"

definition AssignAs :: "directory option \<Rightarrow> subjects \<Rightarrow> string \<Rightarrow> string \<Rightarrow> string \<Rightarrow> ('a world_scheme, view) op" where
  "AssignAs dir subj ident assigneeID actorKind =
     bnd (of_res (tenantOf subj)) (\<lambda>tenantID.
     bnd (map_err tkMapErr (GetTicket tenantID ident)) (\<lambda>before.
     bnd (if assigneeID = [] then ret None
          else case resolveAssignee dir tenantID assigneeID of
                 Inl e \<Rightarrow>
                   bnd (auditTicket subj TicketAssign ident OutcomeRefused [(''reason'', VStr (reasonOf e))]) (\<lambda>_.
                   throw e)
               | Inr u \<Rightarrow> ret (Some u)) (\<lambda>us.
     let name = (case us of None \<Rightarrow> [] | Some u \<Rightarrow> DisplayName u)
     in if tkAssigneeID before = assigneeID \<and> (assigneeID = [] \<or> tkAssigneeName before = name)
        then view_op before True
        else
        bnd Now (\<lambda>now.
        bnd (map_err tkMapErr (SetAssignee tenantID ident assigneeID name now)) (\<lambda>after.
        bnd (map_err tkMapErr (histAppend tenantID ident FieldAssignee (tkAssigneeID before) (tkAssigneeID after)
               actorKind (ActorID subj))) (\<lambda>_.
        bnd (auditTicket subj TicketAssign ident OutcomeOK
               [(''assignee_id'', VStr (tkAssigneeID after)),
                (''previous_assignee_id'', VStr (tkAssigneeID before))]) (\<lambda>_.
        bnd (EmitEvent tenantID TicketAssigned after actorKind) (\<lambda>_.
        view_op after True))))))))"

definition Assign :: "directory option \<Rightarrow> subjects \<Rightarrow> string \<Rightarrow> string \<Rightarrow> ('a world_scheme, view) op" where
  "Assign dir subj ident assigneeID = AssignAs dir subj ident assigneeID (histActorKind subj)"

definition SetStatusAs :: "subjects \<Rightarrow> string \<Rightarrow> string \<Rightarrow> string \<Rightarrow> ('a world_scheme, view) op" where
  "SetStatusAs subj ident status actorKind =
     bnd (of_res (tenantOf subj)) (\<lambda>tenantID.
     if \<not> ValidStatus status then throw TkInvalidStatus
     else
     bnd (map_err tkMapErr (GetTicket tenantID ident)) (\<lambda>before.
     if tkStatus before = status then view_op before True
     else
     bnd Now (\<lambda>now.
     bnd (map_err tkMapErr (SetStatus tenantID ident status now)) (\<lambda>after.
     bnd (map_err tkMapErr (histAppend tenantID ident FieldStatus (tkStatus before) (tkStatus after)
            actorKind (ActorID subj))) (\<lambda>_.
     bnd (Transition (tkStatus before) (tkStatus after)) (\<lambda>_.
     bnd (auditTicket subj TicketStatus ident OutcomeOK
            [(''from'', VStr (tkStatus before)), (''to'', VStr (tkStatus after))]) (\<lambda>_.
     bnd (EmitEvent tenantID TicketStatusChanged after actorKind) (\<lambda>_.
     view_op after True))))))))"

definition tkSetStatus :: "subjects \<Rightarrow> string \<Rightarrow> string \<Rightarrow> ('a world_scheme, view) op" where
  "tkSetStatus subj ident status = SetStatusAs subj ident status (histActorKind subj)"

definition SetPriorityAs :: "subjects \<Rightarrow> string \<Rightarrow> string \<Rightarrow> string \<Rightarrow> ('a world_scheme, view) op" where
  "SetPriorityAs subj ident priority actorKind =
     bnd (of_res (tenantOf subj)) (\<lambda>tenantID.
     if \<not> ValidPriority priority then throw (tkInvalid ''priority'' ''unknown priority'')
     else
     bnd (map_err tkMapErr (GetTicket tenantID ident)) (\<lambda>before.
     if tkPriority before = priority then view_op before True
     else
     bnd Now (\<lambda>now.
     bnd (map_err tkMapErr (UpdateTicket tenantID ident
            \<lparr>tpSubject = None, tpDescription = None, tpPriority = Some priority\<rparr> now)) (\<lambda>after.
     bnd (map_err tkMapErr (histAppend tenantID ident FieldPriority (tkPriority before) (tkPriority after)
            actorKind (ActorID subj))) (\<lambda>_.
     bnd (auditTicket subj TicketUpdate ident OutcomeOK
            [(''fields'', VList [VStr ''priority'']), (''priority'', VStr (tkPriority after))]) (\<lambda>_.
     view_op after True))))))"

definition tkHistory :: "subjects \<Rightarrow> string \<Rightarrow> ('a world_scheme, history list) op" where
  "tkHistory subj ident =
     bnd (of_res (tenantOf subj)) (\<lambda>tenantID.
     bnd (map_err tkMapErr (GetTicket tenantID ident)) (\<lambda>_.
     histList tenantID ident))"

definition AssignableUsers :: "(string \<Rightarrow> user list res) option \<Rightarrow> subjects \<Rightarrow> user list res" where
  "AssignableUsers dir subj =
     (case tenantOf subj of
        Inl e \<Rightarrow> Inl e
      | Inr tenantID \<Rightarrow>
          (case dir of
             None \<Rightarrow> Inl TkDirectoryUnavailable
           | Some assignable \<Rightarrow>
               (case assignable tenantID of Inl _ \<Rightarrow> Inl TkDirectoryUnavailable | Inr us \<Rightarrow> Inr us)))"

definition OpenAttachment :: "subjects \<Rightarrow> string \<Rightarrow> string \<Rightarrow> ('a world_scheme, attachment \<times> string) op" where
  "OpenAttachment subj ticketID attID =
     bnd (of_res (tenantOf subj)) (\<lambda>tenantID.
     bnd (map_err tkMapErr (GetTicket tenantID ticketID)) (\<lambda>_.
     bnd (map_err (\<lambda>e. if err_is e RepoNotFound then TkAttachmentNotFound else e)
            (GetAttachment tenantID ticketID attID)) (\<lambda>a.
     bnd (fetch blOn) (\<lambda>on.
     if \<not> on then throw TkNoObjectStore
     else
     bnd (map_err (Wrapped ''tickets: attachment object'') (blobGet (atStorageKey a))) (\<lambda>rc.
     ret (a, rc))))))"

section \<open>Integrity\<close>

lemma view_ok [keeps]: "preserves store_ok (view_op t full)"
  unfolding view_op_def Let_def by (intro keeps)+

lemma auditTicket_ok [keeps]: "preserves store_ok (auditTicket subj t i oc ds)"
  unfolding auditTicket_def by (rule keeps)

lemma deleteObjects_ok [keeps]: "preserves store_ok (deleteObjects ks)"
  by (induction ks) (auto intro!: keeps)

lemma ticket_service_ok [keeps]:
  "preserves store_ok (tkGet subj i)"
  "preserves store_ok (tkList S W subj f req)"
  "preserves store_ok (tkUpdate subj i ui)"
  "preserves store_ok (tkDelete subj i)"
  "preserves store_ok (AssignAs dir subj i aid ak)"
  "preserves store_ok (SetStatusAs subj i st ak)"
  "preserves store_ok (SetPriorityAs subj i pr ak)"
  "preserves store_ok (tkHistory subj i)"
  "preserves store_ok (OpenAttachment subj i j)"
  unfolding tkGet_def tkList_def tkUpdate_def tkDelete_def AssignAs_def SetStatusAs_def SetPriorityAs_def
    tkHistory_def OpenAttachment_def Let_def
  by (intro keeps)+

end
