(* ===== verification/TicketProps.thy ===== *)
theory TicketProps
  imports TicketSvc
begin

text \<open>
  What the ticket operations do, branch by branch, when no store failure is injected, and the
  invariants they keep whatever fails.
\<close>

section \<open>Symbolic execution of the services\<close>

definition emitted :: "event \<Rightarrow> 'a world_scheme \<Rightarrow> 'a world_scheme" where
  "emitted e w = snd (Emit e w)"

lemma Emit_eq: "Emit e w = (Inr (), emitted e w)"
  by (simp add: emitted_def Emit_def op_defs split: prod.splits)

lemma run_Emit [run]:
  "bnd (Emit e) g w = g () (emitted e w)"
  "Emit e w = (Inr (), emitted e w)"
  by (simp_all add: bnd_def Emit_eq)

lemma emitted_frame [simp]:
  "db (emitted e w) = db w" "failNext (emitted e w) = failNext w" "ucd (emitted e w) = ucd w"
  "published (emitted e w) = published w" "evOn (emitted e w) = evOn w" "meOn (emitted e w) = meOn w"
  "counters (emitted e w) = counters w" "objects (emitted e w) = objects w" "blOn (emitted e w) = blOn w"
  "auOn (emitted e w) = auOn w" "clock (emitted e w) = clock w" "putErr (emitted e w) = putErr w"
  "delErr (emitted e w) = delErr w" "sha256 (emitted e w) = sha256 w" "entropy (emitted e w) = entropy w"
  by (auto simp: emitted_def Emit_def Record_def op_defs NewID_eq Now_def afterID_def split: sum.splits prod.splits)

lemma afterID_world [simp]:
  "published (afterID w) = published w" "evOn (afterID w) = evOn w" "meOn (afterID w) = meOn w"
  "counters (afterID w) = counters w" "objects (afterID w) = objects w" "blOn (afterID w) = blOn w"
  "auOn (afterID w) = auOn w" "auQueue (afterID w) = auQueue w" "putErr (afterID w) = putErr w"
  "delErr (afterID w) = delErr w" "sha256 (afterID w) = sha256 w"
  by (simp_all add: afterID_def split: prod.splits)

lemma run_attempt: "bnd (attempt f) g w = g (fst (f w)) (snd (f w))"
  by (simp add: op_defs)

lemma run_map_err [run]:
  "map_err h f w = (case f w of (Inl e, w') \<Rightarrow> (Inl (h e), w') | (Inr x, w') \<Rightarrow> (Inr x, w'))"
  "bnd (map_err h f) g w = (case f w of (Inl e, w') \<Rightarrow> (Inl (h e), w') | (Inr x, w') \<Rightarrow> g x w')"
  by (auto simp: map_err_def bnd_def split: prod.splits sum.splits)

section \<open>The store without an armed failure\<close>

text \<open>
  With no failure armed each step has one outcome, given here as an equation over the state before:
  the ticket row it writes, the history row it appends, the state it leaves.
\<close>

lemma unarmed_get:
  "failNext w = [] \<Longrightarrow> GetTicket tn i w = (ticket_of (db w) tn i, w)"
  by (simp add: GetTicket_def run)

definition wrote :: "string \<Rightarrow> ticket \<Rightarrow> 'a mem_scheme \<Rightarrow> 'a mem_scheme" where
  "wrote i t w = w\<lparr>ticks := Suc (ticks w), db := (db w)\<lparr>tickets := AList.update i t (tickets (db w))\<rparr>\<rparr>"

lemma unarmed_writes:
  assumes "failNext w = []" and "ticket_of (db w) tn i = Inr t"
  shows "SetStatus tn i st at w = (let t' = restated st (orNow at (clock w (ticks w))) t in (Inr t', wrote i t' w))"
    and "UpdateTicket tn i p at w = (let t' = patched p (orNow at (clock w (ticks w))) t in (Inr t', wrote i t' w))"
    and "SetAssignee tn i aid an at w = (let t' = assigned aid an (orNow at (clock w (ticks w))) t in (Inr t', wrote i t' w))"
  using assms by (simp_all add: SetStatus_def UpdateTicket_def SetAssignee_def run Let_def wrote_def)

definition histRow :: "'a mem_scheme \<Rightarrow> string \<Rightarrow> string \<Rightarrow> string \<Rightarrow> string \<Rightarrow> string \<Rightarrow> string \<Rightarrow> string \<Rightarrow> history" where
  "histRow w tn i field ov nv ak ai = (let w1 = afterID w in
     \<lparr>hiID = mintID w, hiTenantID = tn, hiTicketID = i, hiField = field, hiOldValue = ov, hiNewValue = nv,
      hiActorKind = ak, hiActorID = ai,
      hiCreatedAt = orNow (clock w1 (ticks w1)) (clock w1 (Suc (ticks w1)))\<rparr>)"

definition logged :: "history \<Rightarrow> 'a mem_scheme \<Rightarrow> 'a mem_scheme" where
  "logged h w = (afterID w)\<lparr>ticks := Suc (Suc (ticks (afterID w))), db := (db w)\<lparr>history := history (db w) @ [h]\<rparr>\<rparr>"

lemma unarmed_hist:
  assumes "failNext w = []" and "ticket_of (db w) tn i = Inr t"
  shows "histAppend tn i field ov nv ak ai w =
    (Inr (), if ov = nv then w else logged (histRow w tn i field ov nv ak ai) w)"
  using assms by (simp add: histAppend_def AppendHistory_def run histRow_def logged_def Let_def)

definition viewOf :: "'a world_scheme \<Rightarrow> ticket \<Rightarrow> bool \<Rightarrow> view" where
  "viewOf w t full = \<lparr>vwTicket = t, vwHasHTML = HasHTML t,
     vwTags = (case tags_of (ucd w) (db w) (tkTenantID t) (tkID t) of None \<Rightarrow> [] | Some ts \<Rightarrow> ts),
     vwAttachments = (if full then sort_key (\<lambda>a. (atCreatedAt a, atID a))
       (filter (\<lambda>a. atTenantID a = tkTenantID t \<and> atTicketID a = tkID t) (rows (attachments (db w)))) else [])\<rparr>"

lemma unarmed_view: "failNext w = [] \<Longrightarrow> view_op t full w = (Inr (viewOf w t full), w)"
  by (simp add: view_op_def TagsForTickets_def ListAttachments_def run Let_def viewOf_def split: option.splits)

lemma viewOf_ticket [simp]: "vwTicket (viewOf w t full) = t"
  by (simp add: viewOf_def)

lemma wrote_frame [simp]:
  "failNext (wrote i t w) = failNext w" "db (wrote i t w) = (db w)\<lparr>tickets := AList.update i t (tickets (db w))\<rparr>"
  "ucd (wrote i t w) = ucd w" "mem.more (wrote i t w) = mem.more w"
  "clock (wrote i t w) = clock w"
  by (simp_all add: wrote_def)

lemma logged_frame [simp]:
  "failNext (logged h w) = failNext w" "db (logged h w) = (db w)\<lparr>history := history (db w) @ [h]\<rparr>"
  "ucd (logged h w) = ucd w" "mem.more (logged h w) = mem.more w"
  by (simp_all add: logged_def)

lemma world_frame [simp]:
  "published (wrote i t w) = published w" "evOn (wrote i t w) = evOn w" "meOn (wrote i t w) = meOn w"
  "counters (wrote i t w) = counters w" "objects (wrote i t w) = objects w"
  "published (logged h w) = published w" "evOn (logged h w) = evOn w" "meOn (logged h w) = meOn w"
  "counters (logged h w) = counters w" "objects (logged h w) = objects w"
  by (simp_all add: wrote_def logged_def)

lemma ticket_of_Inr: "ticket_of d tn i = Inr t \<longleftrightarrow> map_of (tickets d) i = Some t \<and> tkTenantID t = tn"
  and ticket_of_Inl: "ticket_of d tn i = Inl e \<longleftrightarrow>
    e = RepoNotFound \<and> (\<forall>v. map_of (tickets d) i = Some v \<longrightarrow> tkTenantID v \<noteq> tn)"
  by (simp_all add: ticket_of_def scoped_iff)

lemma ticket_of_wrote [simp]:
  "tkTenantID t = tn \<Longrightarrow> ticket_of (d\<lparr>tickets := AList.update i t (tickets d)\<rparr>) tn i = Inr t"
  "ticket_of (d\<lparr>history := hs\<rparr>) tn i = ticket_of d tn i"
  by (simp_all add: ticket_of_def scoped_def update_conv)

lemma tkMapErr_NotFound [simp]: "tkMapErr RepoNotFound = TkNotFound"
  by (simp add: tkMapErr_def)

lemma histRow_fields [simp]:
  "hiTenantID (histRow w tn i field ov nv ak ai) = tn" "hiTicketID (histRow w tn i field ov nv ak ai) = i"
  "hiField (histRow w tn i field ov nv ak ai) = field" "hiOldValue (histRow w tn i field ov nv ak ai) = ov"
  "hiNewValue (histRow w tn i field ov nv ak ai) = nv" "hiActorKind (histRow w tn i field ov nv ak ai) = ak"
  "hiActorID (histRow w tn i field ov nv ak ai) = ai"
  by (simp_all add: histRow_def Let_def)

lemmas unarmed = unarmed_get unarmed_writes unarmed_hist unarmed_view

section \<open>Status changes\<close>

definition changed_row :: "string \<Rightarrow> string \<Rightarrow> string \<Rightarrow> string \<Rightarrow> string \<Rightarrow> string \<Rightarrow> string \<Rightarrow> history \<Rightarrow> bool" where
  "changed_row tn i field ov nv ak ai h \<longleftrightarrow> hiTenantID h = tn \<and> hiTicketID h = i \<and> hiField h = field \<and>
     hiOldValue h = ov \<and> hiNewValue h = nv \<and> hiActorKind h = ak \<and> hiActorID h = ai"

lemma changed_row_histRow [simp]: "changed_row tn i field ov nv ak ai (histRow w tn i field ov nv ak ai)"
  by (simp add: changed_row_def)

lemma restated_status [simp]: "tkStatus (restated st at t) = st"
  and assigned_assignee [simp]: "tkAssigneeID (assigned aid an at t) = aid"
  by (simp_all add: restated_def assigned_def)

text \<open>
  C22: a status change is recorded as one. With no store failure, \<open>SetStatusAs\<close> refuses an
  unknown status and a ticket the caller's tenant does not have without changing anything; setting
  the current status again changes nothing and publishes nothing; otherwise the ticket gets the new
  status (and its resolved time follows), exactly one history row from the old to the new status is
  appended under the given actor kind, one transition is counted, and one event about the updated
  ticket is published to the tenant.
\<close>

theorem SetStatusAs_behaviour:
  assumes calm: "failNext w = []" and tn: "suTenantID s = tn" "tn \<noteq> []" and on: "evOn w" "meOn w"
  shows "if \<not> ValidStatus st then SetStatusAs s i st ak w = (Inl TkInvalidStatus, w)
    else case ticket_of (db w) tn i of
      Inl _ \<Rightarrow> SetStatusAs s i st ak w = (Inl TkNotFound, w)
    | Inr t \<Rightarrow>
        if tkStatus t = st then \<exists>v. SetStatusAs s i st ak w = (Inr v, w) \<and> vwTicket v = t
        else \<exists>v w' at h. SetStatusAs s i st ak w = (Inr v, w') \<and> vwTicket v = restated st at t \<and>
          changed_row tn i FieldStatus (tkStatus t) st ak (ActorID s) h \<and>
          db w' = (db w)\<lparr>tickets := AList.update i (restated st at t) (tickets (db w)), history := history (db w) @ [h]\<rparr> \<and>
          counters w' = counters w @ [(''transitions'', [tkStatus t, st])] \<and>
          published w' = published w @
            [\<lparr>reTenantID = tn, reType = TicketStatusChanged, rePayload = PayloadOf (restated st at t) ak\<rparr>]"
proof (cases "ticket_of (db w) tn i")
  case (Inl e)
  moreover from this have "e = RepoNotFound" by (simp add: ticket_of_Inl)
  ultimately show ?thesis
    using calm tn by (simp add: SetStatusAs_def tenantOf_def run unarmed)
next
  case (Inr t)
  moreover from this have "tkTenantID t = tn" by (simp add: ticket_of_Inr)
  ultimately show ?thesis
    using calm tn on
    by (simp add: SetStatusAs_def tenantOf_def run unarmed Let_def Transition_def auditTicket_def)
      (auto intro!: exI changed_row_histRow)
qed

definition demo_world :: world where
  "demo_world = mem.extend demo_store (world.fields True [] True [] 16 False 0 0 True [] True
     [(''acme/t1/a1'', ''abc'')] None None (\<lambda>d. ''sum:'' @ d))"

definition demo_agent :: subjects where
  "demo_agent = \<lparr>suTenantID = ''acme'', suUserID = ''u1'', suRoles = [], suActorKind = ActorAgent\<rparr>"

lemmas demo_world_defs = demo_world_def demo_store_eq mem.defs world.defs demo_agent_def

lemma demo_world_simps [simp]:
  "failNext demo_world = []" "db demo_world = demo_tables" "evOn demo_world" "meOn demo_world" "auOn demo_world"
  "published demo_world = []" "counters demo_world = []" "ucd demo_world = ascii_tables"
  "suTenantID demo_agent = ''acme''" "ActorID demo_agent = ''u1''" "suActorKind demo_agent = ActorAgent"
  by (simp_all add: demo_world_defs ActorID_def)

theorem SetStatusAs_behaviour_witness:
  "\<exists>v w' at h. SetStatusAs demo_agent ''t1'' StatusResolved ActorAgent demo_world = (Inr v, w') \<and>
     tkStatus (vwTicket v) = StatusResolved \<and> history (db w') = [h] \<and>
     hiOldValue h = StatusOpen \<and> hiNewValue h = StatusResolved"
  using SetStatusAs_behaviour [of demo_world demo_agent "''acme''" StatusResolved "''t1''" ActorAgent]
  by (auto simp: demo_tables_def ticket_of_def scoped_def ValidStatus_def Statuses_def demo_ticket_def changed_row_def)


section \<open>Assignment\<close>

text \<open>Whom the ticket is to be assigned to: nobody, or the display name of an assignable user.\<close>

definition assignee :: "directory option \<Rightarrow> string \<Rightarrow> string \<Rightarrow> string res" where
  "assignee dir tn aid = (if aid = [] then Inr [] else
     case resolveAssignee dir tn aid of Inl e \<Rightarrow> Inl e | Inr u \<Rightarrow> Inr (DisplayName u))"


definition demo_dir :: "directory" where
  "demo_dir tn i = (if i = ''u2'' then Inr \<lparr>usID = ''u2'', usName = ''Uma'', usEmail = []\<rparr> else Inl AgUnknownUser)"



section \<open>Creation\<close>

lemma unarmed_create:
  assumes "failNext w = []" and "tkExternalID t = []" and "tkMailboxID t = []"
  shows "CreateTicket t w = (if map_of (tickets (db w)) (tkID t) \<noteq> None then (Inl RepoConflict, w)
    else (Inr (), wrote (tkID t) (withDefaults (clock w (ticks w)) t) w))"
  using assms by (simp add: CreateTicket_def run wrote_def)

lemma newTicket_simps [simp]:
  "tkID (newTicket i tn now sb ds pr em nm cb) = i" "tkTenantID (newTicket i tn now sb ds pr em nm cb) = tn"
  "tkExternalID (newTicket i tn now sb ds pr em nm cb) = []" "tkMailboxID (newTicket i tn now sb ds pr em nm cb) = []"
  "tkCommentCount (newTicket i tn now sb ds pr em nm cb) = 0"
  by (simp_all add: newTicket_def)

lemma withAssignee_keeps:
  assumes "withAssignee dir tn aid t = Inr t'"
  shows "tkID t' = tkID t" "tkTenantID t' = tkTenantID t" "tkSubject t' = tkSubject t" "tkDescription t' = tkDescription t"
    "tkStatus t' = tkStatus t" "tkPriority t' = tkPriority t" "tkSource t' = tkSource t"
    "tkRequesterEmail t' = tkRequesterEmail t" "tkRequesterName t' = tkRequesterName t" "tkCreatedBy t' = tkCreatedBy t"
    "tkExternalID t' = tkExternalID t" "tkMailboxID t' = tkMailboxID t" "tkCommentCount t' = tkCommentCount t"
  using assms by (auto simp: withAssignee_def split: if_splits sum.splits)

lemma tkCreate_ok [keeps]: "preserves store_ok (tkCreate dir subj inp)"
  unfolding tkCreate_def Let_def
  by (rule preserves_bnd_of_res keeps CreateTicket_ok | simp add: withAssignee_keeps)+

definition isr :: "'a res \<Rightarrow> bool" where
  "isr r \<longleftrightarrow> (case r of Inl _ \<Rightarrow> False | Inr _ \<Rightarrow> True)"

text \<open>The text a stored ticket may carry.\<close>

definition subject_ok :: "string \<Rightarrow> bool" where
  "subject_ok v \<longleftrightarrow> v \<noteq> [] \<and> RuneCountInString v \<le> MaxSubject \<and> ValidString v \<and> \<not> hasControl v False"

definition description_ok :: "string \<Rightarrow> bool" where
  "description_ok v \<longleftrightarrow> length v \<le> MaxDescription \<and> ValidString v \<and> \<not> hasControl v True"

definition requester_ok :: "unicode \<Rightarrow> string \<Rightarrow> string \<Rightarrow> bool" where
  "requester_ok u email name \<longleftrightarrow>
     (email = [] \<or> (bareAddress u email \<and> length email \<le> MaxEmail \<and> \<not> hasControl email False)) \<and>
     RuneCountInString name \<le> MaxName \<and> ValidString name \<and> \<not> hasControl name False"

lemma clean_ok:
  "cleanSubject v = Inr sb \<Longrightarrow> subject_ok sb"
  "cleanDescription v = Inr ds \<Longrightarrow> description_ok ds"
  "cleanRequester u e n = Inr (em, nm) \<Longrightarrow> requester_ok u em nm"
  by (auto simp: cleanSubject_def cleanDescription_def cleanRequester_def subject_ok_def description_ok_def
      requester_ok_def Let_def not_less split: if_splits)

text \<open>
  C24: creating a ticket is all or nothing. With no store failure, \<open>Create\<close> succeeds exactly
  when the subject, the description, the requester and the priority are valid, the requested
  assignee (if any) is assignable, and the minted id is unused. On success one row is added and
  nothing else of the store changes: an open, manual ticket of the caller's tenant with clean text,
  announced by one event; on failure no row changes and nothing is published.
\<close>

theorem tkCreate_all_or_nothing:
  assumes "failNext w = []" and "suTenantID s = tn" "tn \<noteq> []" and "evOn w"
  shows "(isr (fst (tkCreate dir s inp w)) \<longleftrightarrow>
      isr (cleanSubject (ciSubject inp)) \<and> isr (cleanDescription (ciDescription inp)) \<and>
      isr (cleanRequester (ucd w) (ciRequesterEmail inp) (ciRequesterName inp)) \<and>
      (ciPriority inp = [] \<or> ValidPriority (ciPriority inp)) \<and> isr (assignee dir tn (ciAssigneeID inp)) \<and>
      map_of (tickets (db w)) (mintID (w\<lparr>ticks := Suc (ticks w)\<rparr>)) = None) \<and>
    (case tkCreate dir s inp w of
      (Inl e, w') \<Rightarrow> db w' = db w \<and> published w' = published w
    | (Inr v, w') \<Rightarrow> (let t = vwTicket v in
        tkTenantID t = tn \<and> tkStatus t = StatusOpen \<and> tkSource t = SourceManual \<and> ValidPriority (tkPriority t) \<and>
        subject_ok (tkSubject t) \<and> description_ok (tkDescription t) \<and>
        requester_ok (ucd w) (tkRequesterEmail t) (tkRequesterName t) \<and> tkCreatedBy t = ActorID s \<and>
        map_of (tickets (db w)) (tkID t) = None \<and>
        db w' = (db w)\<lparr>tickets := AList.update (tkID t) t (tickets (db w))\<rparr> \<and>
        published w' = published w @
          [\<lparr>reTenantID = tn, reType = TicketCreated, rePayload = PayloadOf t (histActorKind s)\<rparr>]))"
proof (cases "isr (cleanSubject (ciSubject inp)) \<and> isr (cleanDescription (ciDescription inp)) \<and>
      isr (cleanRequester (ucd w) (ciRequesterEmail inp) (ciRequesterName inp)) \<and>
      (ciPriority inp = [] \<or> ValidPriority (ciPriority inp))")
  case False
  then show ?thesis
    using assms by (auto simp: tkCreate_def tenantOf_def isr_def run Let_def split: sum.splits if_splits)
next
  case True
  then obtain sb ds em nm where ok: "cleanSubject (ciSubject inp) = Inr sb" "cleanDescription (ciDescription inp) = Inr ds"
      "cleanRequester (ucd w) (ciRequesterEmail inp) (ciRequesterName inp) = Inr (em, nm)"
      "ciPriority inp = [] \<or> ValidPriority (ciPriority inp)"
    by (auto simp: isr_def split: sum.splits)
  define prio where "prio = (if ciPriority inp = [] then PriorityNormal else ciPriority inp)"
  define t0 where "t0 = newTicket (mintID (w\<lparr>ticks := Suc (ticks w)\<rparr>)) tn (clock w (ticks w)) sb ds prio em nm (ActorID s)"
  have prio: "ValidPriority prio" using ok(4) by (auto simp: prio_def ValidPriority_iff Priorities_def)
  have asg: "isr (assignee dir tn (ciAssigneeID inp)) \<longleftrightarrow> isr (withAssignee dir tn (ciAssigneeID inp) t0)"
    by (auto simp: assignee_def withAssignee_def isr_def split: sum.splits)
  show ?thesis
  proof (cases "withAssignee dir tn (ciAssigneeID inp) t0")
    case (Inl e)
    with asg assms ok prio show ?thesis
      by (auto simp: tkCreate_def tenantOf_def run t0_def prio_def isr_def Let_def)
  next
    case (Inr t1)
    with asg assms ok prio clean_ok(1) [OF ok(1)] clean_ok(2) [OF ok(2)] clean_ok(3) [OF ok(3)]
      withAssignee_keeps [OF Inr] show ?thesis
      by (auto simp: tkCreate_def tenantOf_def run unarmed unarmed_create
          bnd_def [of "CreateTicket t" for t] withDefaults_def newTicket_def t0_def prio_def isr_def Let_def auditTicket_def)
  qed
qed

lemma length_mintID [simp]: "length (mintID w) = 36"
  by (simp add: mintID_def idText_def idBytes_def EncodeToString_def slice_def hexByte_def split: prod.splits)

definition demo_input :: create_input where
  "demo_input = \<lparr>ciSubject = ''Lamp broken'', ciDescription = ''It is dark'', ciPriority = [],
     ciRequesterEmail = [], ciRequesterName = ''Ann'', ciAssigneeID = ''u2''\<rparr>"

theorem tkCreate_all_or_nothing_witness:
  "isr (fst (tkCreate (Some demo_dir) demo_agent demo_input demo_world)) \<and>
   \<not> isr (fst (tkCreate (Some demo_dir) demo_agent (demo_input\<lparr>ciSubject := '' ''\<rparr>) demo_world))"
proof -
  have "map_of (tickets demo_tables) i = None" if "length i = 36" for i
    using that by (auto simp: demo_tables_def)
  then show ?thesis
    using tkCreate_all_or_nothing [of demo_world demo_agent "''acme''" "Some demo_dir" demo_input]
      tkCreate_all_or_nothing [of demo_world demo_agent "''acme''" "Some demo_dir" "demo_input\<lparr>ciSubject := '' ''\<rparr>"]
    by (simp add: demo_input_def cleanSubject_def cleanDescription_def cleanRequester_def flatten_def str_eval
        assignee_def resolveAssignee_def demo_dir_def isr_def RuneCountInString_def MaxSubject_def MaxDescription_def MaxName_def
        ValidString_ascii hasControl_def IsControl_def chunks_ascii Let_def)
qed

end
