(* ===== verification/Threading.thy ===== *)
theory Threading
  imports World
begin

text \<open>
  The mail-threading rules (\<open>internal/thread\<close>): the \<open>[#id]\<close> reference token, the
  reference line and subject of an outbound reply, outbound message ids, and \<open>Resolve\<close>, which
  maps an inbound message to a ticket of one tenant. The three lookups \<open>Resolve\<close> makes are the
  interface \<open>thread.Store\<close>: parameters of the definition, with the laws its lemmas need in
  the locale \<open>thread_store\<close>, which the in-memory store satisfies.
\<close>

section \<open>Tokens\<close>

definition DefaultDomain :: string where "DefaultDomain = ''tickets.local''"

definition hexDash :: "char \<Rightarrow> bool" where
  "hexDash c \<longleftrightarrow> (let b = byte c in (0x30 \<le> b \<and> b \<le> 0x39) \<or> (0x61 \<le> b \<and> b \<le> 0x66) \<or> (0x41 \<le> b \<and> b \<le> 0x46) \<or> b = 0x2D)"

definition alnumLow :: "char \<Rightarrow> bool" where
  "alnumLow c \<longleftrightarrow> (let b = byte c in (0x61 \<le> b \<and> b \<le> 0x7A) \<or> (0x30 \<le> b \<and> b \<le> 0x39))"

text \<open>
  \<open>tokenRe\<close> at the head of a string: the class excludes the closing bracket, so the greedy
  run is the only candidate.
\<close>

definition tokenAt :: "string \<Rightarrow> string option" where
  "tokenAt s =
     (case s of
        a # b # r \<Rightarrow>
          (let m = takeWhile hexDash r
           in if a = CHR ''['' \<and> b = CHR ''#'' \<and> 8 \<le> length m \<and> length m \<le> 64 \<and>
                 HasPrefix (drop (length m) r) '']''
              then Some m else None)
      | _ \<Rightarrow> None)"

definition domainRe :: "string \<Rightarrow> bool" where
  "domainRe d \<longleftrightarrow> d \<noteq> [] \<and> length d \<le> 253 \<and> alnumLow (hd d) \<and> alnumLow (last d) \<and>
     (\<forall>c \<in> set d. alnumLow c \<or> c = CHR ''.'' \<or> c = CHR ''-'')"

definition Token :: "string \<Rightarrow> string" where
  "Token ticketID = ''[#'' @ ticketID @ '']''"

fun ParseToken :: "string \<Rightarrow> string" where
  "ParseToken [] = []"
| "ParseToken (c # s) = (case tokenAt (c # s) of Some m \<Rightarrow> m | None \<Rightarrow> ParseToken s)"

definition ReferenceLine :: "string \<Rightarrow> string" where
  "ReferenceLine ticketID = ''Ticket reference: '' @ Token ticketID"

definition nl :: string where "nl = [CHR 0x0A]"
definition crlf :: string where "crlf = [CHR 0x0D, CHR 0x0A]"

definition AppendReference :: "string \<Rightarrow> string \<Rightarrow> string" where
  "AppendReference body ticketID =
     (if ParseToken body \<noteq> [] \<or> Contains body (Token ticketID) then body
      else TrimRight body crlf @ nl @ nl @ ''--'' @ nl @ ReferenceLine ticketID @ nl)"

definition hasRePrefix :: "unicode \<Rightarrow> string \<Rightarrow> bool" where
  "hasRePrefix u s \<longleftrightarrow> (let low = ToLower u s in HasPrefix low ''re:'' \<or> HasPrefix low ''re '')"

definition ReplySubject :: "unicode \<Rightarrow> string \<Rightarrow> string" where
  "ReplySubject u original =
     (let s = Join (Fields (Map (\<lambda>r. if IsControl r then Some 0x20 else Some r) original)) '' '';
          s = (if s = [] then ''(no subject)'' else s)
      in if \<not> hasRePrefix u s then ''Re: '' @ s else s)"

definition DomainOf :: "unicode \<Rightarrow> string \<Rightarrow> string" where
  "DomainOf u addr =
     (case after_last CHR ''@'' addr of
        None \<Rightarrow> []
      | Some d \<Rightarrow> if d = [] then [] else ToLower u (TrimSpace d))"

definition MessageID :: "string \<Rightarrow> string \<Rightarrow> ('a rt_scheme, string) op" where
  "MessageID ticketID domain =
     bnd (fetch ucd) (\<lambda>u.
     let d = ToLower u (TrimSpace domain);
         d = (if \<not> domainRe d then DefaultDomain else d)
     in bnd NewID (\<lambda>i. ret (''ticket.'' @ ticketID @ ''.'' @ i @ ''@'' @ d)))"

section \<open>Resolving a message\<close>

definition ByComment :: string where "ByComment = ''comment''"
definition ByExternalID :: string where "ByExternalID = ''external_id''"
definition ByBodyToken :: string where "ByBodyToken = ''body_token''"
definition BySubjectToken :: string where "BySubjectToken = ''subject_token''"

lemmas by_consts = ByComment_def ByExternalID_def ByBodyToken_def BySubjectToken_def

record thread_input =
  tiMessageIDs :: "string list"
  tiText :: string
  tiSubject :: string

record match =
  maTicketID :: string
  maBy :: string

definition noMatch :: match where "noMatch = \<lparr>maTicketID = [], maBy = []\<rparr>"

text \<open>
  One of the three loops: the first element whose lookup succeeds decides, "not found" moves on,
  any other error ends the search.
\<close>

fun firstFound :: "('x \<Rightarrow> ('w, match option) op) \<Rightarrow> 'x list \<Rightarrow> ('w, match option) op" where
  "firstFound f [] = ret None"
| "firstFound f (x # xs) =
     bnd (f x) (\<lambda>r. case r of Some m \<Rightarrow> ret (Some m) | None \<Rightarrow> firstFound f xs)"

definition unlessMissing :: "('b \<Rightarrow> match) \<Rightarrow> ('w, 'b) op \<Rightarrow> ('w, match option) op" where
  "unlessMissing k f =
     bnd (attempt f) (\<lambda>r.
     case r of Inr x \<Rightarrow> ret (Some (k x)) | Inl e \<Rightarrow> if err_is e RepoNotFound then ret None else throw e)"

definition matchComment :: "comment \<Rightarrow> match" where
  "matchComment c = \<lparr>maTicketID = cmTicketID c, maBy = ByComment\<rparr>"

definition matchTicket :: "string \<Rightarrow> ticket \<Rightarrow> match" where
  "matchTicket by t = \<lparr>maTicketID = tkID t, maBy = by\<rparr>"

definition byToken :: "(string \<Rightarrow> string \<Rightarrow> ('w, ticket) op) \<Rightarrow> string \<Rightarrow> string \<times> string \<Rightarrow> ('w, match option) op" where
  "byToken getTicket tenantID c =
     (let tok = ParseToken (fst c)
      in if tok = [] then ret None
         else unlessMissing (matchTicket (snd c)) (getTicket tenantID tok))"

definition Resolve ::
  "(string \<Rightarrow> string \<Rightarrow> ('w, comment) op) \<Rightarrow> (string \<Rightarrow> string \<Rightarrow> ('w, ticket) op) \<Rightarrow>
   (string \<Rightarrow> string \<Rightarrow> ('w, ticket) op) \<Rightarrow> string \<Rightarrow> thread_input \<Rightarrow> ('w, match) op" where
  "Resolve findComment findTicket getTicket tenantID inp =
     (if tenantID = [] then throw ThreadTenant
      else
      bnd (firstFound (\<lambda>i. unlessMissing matchComment (findComment tenantID i)) (tiMessageIDs inp)) (\<lambda>r1.
      case r1 of Some m \<Rightarrow> ret m | None \<Rightarrow>
      bnd (firstFound (\<lambda>i. unlessMissing (matchTicket ByExternalID) (findTicket tenantID i)) (tiMessageIDs inp)) (\<lambda>r2.
      case r2 of Some m \<Rightarrow> ret m | None \<Rightarrow>
      bnd (firstFound (byToken getTicket tenantID)
             [(tiText inp, ByBodyToken), (tiSubject inp, BySubjectToken)]) (\<lambda>r3.
      case r3 of Some m \<Rightarrow> ret m | None \<Rightarrow> ret noMatch))))"

definition resolveIn :: "string \<Rightarrow> thread_input \<Rightarrow> ('a mem_scheme, match) op" where
  "resolveIn = Resolve FindCommentByMessageID FindTicketByExternalID GetTicket"

section \<open>Tokens round trip\<close>

definition token_id :: "string \<Rightarrow> bool" where
  "token_id i \<longleftrightarrow> 8 \<le> length i \<and> length i \<le> 64 \<and> (\<forall>c \<in> set i. hexDash c)"

lemma not_hexDash [simp]: "\<not> hexDash CHR '']''" "\<not> hexDash CHR ''[''" "\<not> hexDash CHR ''#''"
  "\<not> hexDash CHR '' ''" "\<not> hexDash CHR 0x0A"
  by (simp_all add: hexDash_def byte_def)

lemma takeWhile_run: "\<forall>c \<in> set m. P c \<Longrightarrow> \<not> P x \<Longrightarrow> takeWhile P (m @ x # r) = m"
  by (induction m) auto

lemma tokenAt_iff: "tokenAt s = Some m \<longleftrightarrow> token_id m \<and> HasPrefix s (Token m)"
proof
  assume "tokenAt s = Some m"
  then obtain r where r: "s = CHR ''['' # CHR ''#'' # r" "m = takeWhile hexDash r" "8 \<le> length m" "length m \<le> 64"
      "HasPrefix (drop (length m) r) '']''"
    by (auto simp: tokenAt_def Let_def split: list.splits if_splits)
  moreover have "r = m @ drop (length m) r"
    unfolding r(2) by (metis append_take_drop_id takeWhile_eq_take)
  ultimately show "token_id m \<and> HasPrefix s (Token m)"
    by (auto simp: token_id_def HasPrefix_iff Token_def dest: set_takeWhileD)
next
  assume "token_id m \<and> HasPrefix s (Token m)"
  then obtain t where "s = CHR ''['' # CHR ''#'' # m @ CHR '']'' # t" "token_id m"
    by (auto simp: HasPrefix_iff Token_def)
  then show "tokenAt s = Some m"
    by (simp add: tokenAt_def token_id_def takeWhile_run Let_def)
qed

lemma tokenAt_other [simp]: "c \<noteq> CHR ''['' \<Longrightarrow> tokenAt (c # s) = None"
  by (auto simp: tokenAt_def Let_def split: list.splits)

lemma ParseToken_head: "token_id i \<Longrightarrow> ParseToken (Token i @ s) = i"
  using tokenAt_iff [of "Token i @ s" i] by (simp add: HasPrefix_iff) (simp add: Token_def)

lemma ParseToken_Nil: "ParseToken s = [] \<longleftrightarrow> (\<forall>i. token_id i \<longrightarrow> \<not> Contains s (Token i))"
proof (induction s)
  case Nil
  then show ?case by (simp add: Token_def)
next
  case (Cons c s)
  have ne: "token_id i \<Longrightarrow> i \<noteq> []" for i by (auto simp: token_id_def)
  show ?case
  proof (cases "tokenAt (c # s)")
    case None
    then show ?thesis using Cons tokenAt_iff [of "c # s"] by auto
  next
    case (Some m)
    then show ?thesis using tokenAt_iff [of "c # s" m] ne by auto
  qed
qed

lemma ParseToken_found: "ParseToken s \<noteq> [] \<Longrightarrow> token_id (ParseToken s) \<and> Contains s (Token (ParseToken s))"
proof (induction s)
  case (Cons c s)
  then show ?case
    using tokenAt_iff [of "c # s"] by (cases "tokenAt (c # s)") auto
qed simp

lemma prefix_before:
  "HasPrefix (a @ c # b) p \<Longrightarrow> c \<notin> set p \<Longrightarrow> HasPrefix a p"
  by (induction a p rule: HasPrefix.induct) auto

lemma token_chars: "token_id m \<Longrightarrow> c \<in> {CHR '' '', CHR 0x0A} \<Longrightarrow> c \<notin> set (Token m)"
  by (auto simp: Token_def token_id_def)

lemma ParseToken_skip:
  assumes "ParseToken a = []" and "c \<in> {CHR '' '', CHR 0x0A}"
  shows "ParseToken (a @ c # b) = ParseToken b"
  using assms(1)
proof (induction a)
  case Nil
  have "tokenAt (c # b) = None" using assms(2) by (auto simp: tokenAt_def split: list.splits)
  then show ?case by simp
next
  case (Cons x a)
  have none: "tokenAt (x # a) = None"
    using Cons.prems by (auto simp: tokenAt_iff token_id_def split: option.splits)
  have "tokenAt (x # a @ c # b) = None"
  proof (rule ccontr)
    assume "tokenAt (x # a @ c # b) \<noteq> None"
    then obtain m where m: "token_id m" "HasPrefix ((x # a) @ c # b) (Token m)"
      by (auto simp: tokenAt_iff)
    then have "HasPrefix (x # a) (Token m)" using token_chars [OF m(1) assms(2)] prefix_before by blast
    with m(1) none show False using tokenAt_iff [of "x # a" m] by simp
  qed
  with Cons none show ?case by simp
qed

lemma TrimRight_prefix: "\<exists>t. s = TrimRight s cs @ t"
  unfolding TrimRight_def by (metis rev_append rev_rev_ident takeWhile_dropWhile_id)

lemma ParseToken_prefix: "ParseToken (a @ b) = [] \<Longrightarrow> ParseToken a = []"
  by (auto simp: ParseToken_Nil intro: Contains_appendI1)

lemma ParseToken_appended:
  assumes "ParseToken body = []" and "token_id i"
  shows "ParseToken (AppendReference body i) = i"
proof -
  have "ParseToken (TrimRight body crlf) = []"
    using assms(1) TrimRight_prefix [of body crlf] by (metis ParseToken_prefix)
  then have "ParseToken (TrimRight body crlf @ nl @ x) = ParseToken x" for x
    using ParseToken_skip [of "TrimRight body crlf" "CHR 0x0A" x] by (simp add: nl_def)
  moreover have "ParseToken (Token i @ nl) = i" using assms(2) by (rule ParseToken_head)
  ultimately show ?thesis
    using assms by (simp add: AppendReference_def ParseToken_Nil [of body] ReferenceLine_def nl_def)
qed



section \<open>Resolve stays in the tenant\<close>

text \<open>What \<open>Resolve\<close> relies on: the lookups are reads, and what they find belongs to the tenant asked for.\<close>

definition finds :: "('w \<Rightarrow> bool) \<Rightarrow> (match \<Rightarrow> bool) \<Rightarrow> ('w, match option) op \<Rightarrow> bool" where
  "finds I Q f \<longleftrightarrow> triple I f (\<lambda>r w. I w \<and> (\<forall>m. r = Some m \<longrightarrow> Q m)) (\<lambda>_ _. True)"

lemma finds_firstFound: "(\<And>x. x \<in> set xs \<Longrightarrow> finds I Q (f x)) \<Longrightarrow> finds I Q (firstFound f xs)"
  unfolding finds_def
proof (induction xs)
  case Nil
  show ?case by (simp add: triple_def op_defs)
next
  case (Cons x xs)
  let ?Q = "\<lambda>r w. I w \<and> (\<forall>m. r = Some m \<longrightarrow> Q m)"
  have "triple (?Q r) (case r of Some m \<Rightarrow> ret (Some m) | None \<Rightarrow> firstFound f xs) ?Q (\<lambda>_ _. True)" for r
    using Cons by (cases r) (auto simp: triple_def op_defs)
  with Cons.prems show ?case by (auto intro: triple_bnd)
qed

lemma finds_unlessMissing:
  assumes "\<And>w. I w \<Longrightarrow> I (snd (f w))" and "\<And>w x w'. I w \<Longrightarrow> f w = (Inr x, w') \<Longrightarrow> Q (k x)"
  shows "finds I Q (unlessMissing k f)"
  unfolding finds_def triple_def unlessMissing_def op_defs
  using assms by (auto split: sum.splits) (metis prod.collapse)

lemma finds_orElse:
  assumes "finds I Q f" and "triple I g R (\<lambda>_ _. True)" and "\<And>m w. I w \<Longrightarrow> Q m \<Longrightarrow> R m w"
  shows "triple I (bnd f (\<lambda>r. case r of None \<Rightarrow> g | Some m \<Rightarrow> ret m)) R (\<lambda>_ _. True)"
proof (rule triple_bnd [OF assms(1) [unfolded finds_def]])
  show "triple (\<lambda>w. I w \<and> (\<forall>m. r = Some m \<longrightarrow> Q m)) (case r of None \<Rightarrow> g | Some m \<Rightarrow> ret m) R (\<lambda>_ _. True)" for r
    using assms(2,3) by (cases r) (auto simp: triple_def op_defs)
qed

locale thread_store =
  fixes find_comment :: "string \<Rightarrow> string \<Rightarrow> ('w, comment) op"
    and find_ticket :: "string \<Rightarrow> string \<Rightarrow> ('w, ticket) op"
    and get_ticket :: "string \<Rightarrow> string \<Rightarrow> ('w, ticket) op"
    and good :: "'w \<Rightarrow> bool"
    and owns :: "'w \<Rightarrow> string \<Rightarrow> string \<Rightarrow> bool"
  assumes find_comment_owned: "good w \<Longrightarrow> find_comment tn i w = (Inr c, w') \<Longrightarrow> owns w tn (cmTicketID c)"
    and find_ticket_owned: "good w \<Longrightarrow> find_ticket tn i w = (Inr t, w') \<Longrightarrow> owns w tn (tkID t)"
    and get_ticket_owned: "good w \<Longrightarrow> get_ticket tn i w = (Inr t, w') \<Longrightarrow> owns w tn (tkID t)"
    and find_comment_reads: "good w \<Longrightarrow> good (snd (find_comment tn i w)) \<and> owns (snd (find_comment tn i w)) = owns w"
    and find_ticket_reads: "good w \<Longrightarrow> good (snd (find_ticket tn i w)) \<and> owns (snd (find_ticket tn i w)) = owns w"
    and get_ticket_reads: "good w \<Longrightarrow> good (snd (get_ticket tn i w)) \<and> owns (snd (get_ticket tn i w)) = owns w"
begin

lemma resolve_confined:
  assumes g: "good w" and r: "Resolve find_comment find_ticket get_ticket tn inp w = (Inr m, w')"
  shows "(m = noMatch \<or> owns w tn (maTicketID m)) \<and> good w' \<and> owns w' = owns w"
proof -
  define I where "I v \<longleftrightarrow> good v \<and> owns v = owns w" for v
  define Q where "Q (x :: match) \<longleftrightarrow> owns w tn (maTicketID x)" for x
  have c: "finds I Q (unlessMissing matchComment (find_comment tn i))" for i
    by (rule finds_unlessMissing) (auto simp: I_def Q_def matchComment_def dest: find_comment_owned find_comment_reads)
  have t: "finds I Q (unlessMissing (matchTicket b) (find_ticket tn i))" for i b
    by (rule finds_unlessMissing) (auto simp: I_def Q_def matchTicket_def dest: find_ticket_owned find_ticket_reads)
  have gt: "finds I Q (unlessMissing (matchTicket b) (get_ticket tn i))" for i b
    by (rule finds_unlessMissing) (auto simp: I_def Q_def matchTicket_def dest: get_ticket_owned get_ticket_reads)
  have k: "finds I Q (byToken get_ticket tn x)" for x
    by (cases "ParseToken (fst x) = []") (simp_all add: byToken_def gt, simp add: finds_def triple_def op_defs)
  have "triple I (Resolve find_comment find_ticket get_ticket tn inp)
      (\<lambda>m v. I v \<and> (m = noMatch \<or> Q m)) (\<lambda>_ _. True)"
  proof (cases "tn = []")
    case False
    then show ?thesis unfolding Resolve_def if_not_P [OF False]
      by (intro finds_orElse [where Q = Q] finds_firstFound c t k) (simp_all add: triple_def op_defs)
  qed (simp add: Resolve_def triple_def op_defs)
  from tripleD(1) [OF this _ r] g show ?thesis by (simp add: I_def Q_def)
qed

end

text \<open>The in-memory store provides this interface.\<close>

lemma find_filter: "find P xs = Some x \<Longrightarrow> P x \<and> x \<in> set xs"
  by (auto simp: find_Some_iff)

interpretation ms: thread_store FindCommentByMessageID FindTicketByExternalID GetTicket
  store_ok "\<lambda>w. owned (tickets (db w))"
proof
  fix w w' :: "'a mem_scheme" and tn i c
  assume ok: "store_ok w" and r: "FindCommentByMessageID tn i w = (Inr c, w')"
  then have "c \<in> set (rows (comments (db w)))" "cmTenantID c = tn"
    by (auto simp: FindCommentByMessageID_def run split: if_splits option.splits dest: find_filter)
  then show "owned (tickets (db w)) tn (cmTicketID c)"
    using mem_invD(13) [OF ok [unfolded store_ok_def]] by (auto simp: comment_refs_def)
next
  fix w w' :: "'a mem_scheme" and tn i t
  assume ok: "store_ok w"
  note tok = mem_invD(1) [OF ok [unfolded store_ok_def]]
  have own: "t \<in> set (rows (tickets (db w))) \<Longrightarrow> tkTenantID t = tn \<Longrightarrow> owned (tickets (db w)) tn (tkID t)"
    by (auto simp: owned_def rows_lookup_iff [OF tok])
  show "owned (tickets (db w)) tn (tkID t)" if "FindTicketByExternalID tn i w = (Inr t, w')"
    using that own by (auto simp: FindTicketByExternalID_def run split: if_splits option.splits dest: find_filter)
  show "owned (tickets (db w)) tn (tkID t)" if "GetTicket tn i w = (Inr t, w')"
    using that own by (auto simp: GetTicket_def run ticket_of_def scoped_iff split: if_splits dest: lookup_mem_rows)
next
  fix w :: "'a mem_scheme" and tn i
  show "store_ok w \<Longrightarrow> store_ok (snd (FindCommentByMessageID tn i w)) \<and>
      owned (tickets (db (snd (FindCommentByMessageID tn i w)))) = owned (tickets (db w))"
    by (auto simp: FindCommentByMessageID_def run store_ok_def split: option.splits)
  show "store_ok w \<Longrightarrow> store_ok (snd (FindTicketByExternalID tn i w)) \<and>
      owned (tickets (db (snd (FindTicketByExternalID tn i w)))) = owned (tickets (db w))"
    by (auto simp: FindTicketByExternalID_def run store_ok_def split: option.splits)
  show "store_ok w \<Longrightarrow> store_ok (snd (GetTicket tn i w)) \<and>
      owned (tickets (db (snd (GetTicket tn i w)))) = owned (tickets (db w))"
    by (auto simp: GetTicket_def run store_ok_def)
qed

lemma firstFound_cases:
  assumes "firstFound f xs w = (Inr r, w')" and "\<And>x v v'. f x v = (Inr None, v') \<Longrightarrow> v' = v"
  shows "(r = None \<and> w' = w \<and> (\<forall>x \<in> set xs. f x w = (Inr None, w))) \<or>
    (\<exists>m x v v'. r = Some m \<and> x \<in> set xs \<and> f x v = (Inr (Some m), v'))"
  using assms(1)
proof (induction xs arbitrary: w)
  case (Cons x xs)
  then obtain q v where q: "f x w = (Inr q, v)" "(case q of Some m \<Rightarrow> ret (Some m) | None \<Rightarrow> firstFound f xs) v = (Inr r, w')"
    by (auto simp: bnd_Inr_iff)
  show ?case
  proof (cases q)
    case None
    with q assms(2) have "f x w = (Inr None, w)" "firstFound f xs w = (Inr r, w')" by auto
    with Cons.IH show ?thesis by fastforce
  next
    case (Some m)
    with q have "f x w = (Inr (Some m), v)" "r = Some m" by (auto simp: op_defs)
    then show ?thesis by auto
  qed
qed (simp add: op_defs)

lemma unlessMissing_iff:
  "unlessMissing k f w = (Inr None, w') \<longleftrightarrow> (\<exists>e. f w = (Inl e, w') \<and> err_is e RepoNotFound)"
  "unlessMissing k f w = (Inr (Some m), w') \<longleftrightarrow> (\<exists>x. f w = (Inr x, w') \<and> m = k x)"
  by (cases "f w", auto simp: unlessMissing_def op_defs split: sum.splits if_splits)+

lemma stage_miss:
  assumes "bnd (firstFound f xs) (\<lambda>r. case r of Some m \<Rightarrow> ret m | None \<Rightarrow> g) w = (Inr noMatch, w')"
    and still: "\<forall>x v v'. f x v = (Inr None, v') \<longrightarrow> v' = v"
    and real: "\<forall>x \<in> set xs. \<forall>v v' m. f x v = (Inr (Some m), v') \<longrightarrow> m \<noteq> noMatch"
  shows "(\<forall>x \<in> set xs. f x w = (Inr None, w)) \<and> g w = (Inr noMatch, w')"
proof -
  from assms(1) obtain r v where r: "firstFound f xs w = (Inr r, v)"
      "(case r of Some m \<Rightarrow> ret m | None \<Rightarrow> g) v = (Inr noMatch, w')" by (auto simp: bnd_Inr_iff)
  from firstFound_cases [OF r(1)] still show ?thesis
    using r(2) real by (fastforce simp: op_defs)
qed

text \<open>A lookup of the store that misses leaves the store alone and says that nothing is there.\<close>

lemma lookups_miss:
  "FindCommentByMessageID tn i w = (Inl e, w') \<Longrightarrow> err_is e RepoNotFound \<Longrightarrow>
     w' = w \<and> (i = [] \<or> (\<forall>c \<in> set (rows (comments (db w))). \<not> (cmTenantID c = tn \<and> cmMessageID c = i)))"
  "FindTicketByExternalID tn i w = (Inl e, w') \<Longrightarrow> err_is e RepoNotFound \<Longrightarrow>
     w' = w \<and> (i = [] \<or> (\<forall>t \<in> set (rows (tickets (db w))). \<not> (tkTenantID t = tn \<and> tkExternalID t = i)))"
  "GetTicket tn i w = (Inl e, w') \<Longrightarrow> err_is e RepoNotFound \<Longrightarrow> w' = w \<and> \<not> owned (tickets (db w)) tn i"
  by (auto simp: FindCommentByMessageID_def FindTicketByExternalID_def GetTicket_def run ticket_of_def scoped_iff
      owned_def find_None_iff split: if_splits option.splits)

lemma unless_miss:
  "unlessMissing k (FindCommentByMessageID tn i) w = (Inr None, w') \<Longrightarrow> w' = w \<and>
     (i = [] \<or> (\<forall>c \<in> set (rows (comments (db w))). \<not> (cmTenantID c = tn \<and> cmMessageID c = i)))"
  "unlessMissing k' (FindTicketByExternalID tn i) w = (Inr None, w') \<Longrightarrow> w' = w \<and>
     (i = [] \<or> (\<forall>t \<in> set (rows (tickets (db w))). \<not> (tkTenantID t = tn \<and> tkExternalID t = i)))"
  "unlessMissing k'' (GetTicket tn i) w = (Inr None, w') \<Longrightarrow> w' = w \<and> \<not> owned (tickets (db w)) tn i"
  by (auto simp: unlessMissing_iff dest: lookups_miss)

lemma resolve_miss:
  assumes "resolveIn tn inp w = (Inr noMatch, w')"
  shows "(\<forall>i \<in> set (tiMessageIDs inp). i \<noteq> [] \<longrightarrow>
        (\<forall>c \<in> set (rows (comments (db w))). \<not> (cmTenantID c = tn \<and> cmMessageID c = i)) \<and>
        (\<forall>t \<in> set (rows (tickets (db w))). \<not> (tkTenantID t = tn \<and> tkExternalID t = i))) \<and>
    (\<forall>s \<in> {tiText inp, tiSubject inp}. ParseToken s \<noteq> [] \<longrightarrow> \<not> owned (tickets (db w)) tn (ParseToken s)) \<and> w' = w"
proof -
  have ne: "tn \<noteq> []" using assms by (auto simp: resolveIn_def Resolve_def op_defs)
  let ?f1 = "\<lambda>i. unlessMissing matchComment (FindCommentByMessageID tn i)"
  let ?f2 = "\<lambda>i. unlessMissing (matchTicket ByExternalID) (FindTicketByExternalID tn i)"
  note mc = matchComment_def matchTicket_def noMatch_def by_consts
  have 1: "\<forall>i v v'. ?f1 i v = (Inr None, v') \<longrightarrow> v' = v"
    "\<forall>i \<in> set (tiMessageIDs inp). \<forall>v v' m. ?f1 i v = (Inr (Some m), v') \<longrightarrow> m \<noteq> noMatch"
    by (auto dest: lookups_miss simp: unlessMissing_iff mc)
  have 2: "\<forall>i v v'. ?f2 i v = (Inr None, v') \<longrightarrow> v' = v"
    "\<forall>i \<in> set (tiMessageIDs inp). \<forall>v v' m. ?f2 i v = (Inr (Some m), v') \<longrightarrow> m \<noteq> noMatch"
    by (auto dest: lookups_miss simp: unlessMissing_iff mc)
  let ?toks = "[(tiText inp, ByBodyToken), (tiSubject inp, BySubjectToken)]"
  have tok: "byToken GetTicket tn x v = (Inr None, v') \<Longrightarrow>
      v' = v \<and> (ParseToken (fst x) = [] \<or> \<not> owned (tickets (db v)) tn (ParseToken (fst x)))"
    "byToken GetTicket tn x v = (Inr (Some m), v') \<Longrightarrow> snd x = maBy m" for x v v' m
    by (auto dest: lookups_miss simp: unlessMissing_iff mc byToken_def Let_def op_defs split: if_splits)
  have 3: "\<forall>x v v'. byToken GetTicket tn x v = (Inr None, v') \<longrightarrow> v' = v"
    "\<forall>x \<in> set ?toks. \<forall>v v' m. byToken GetTicket tn x v = (Inr (Some m), v') \<longrightarrow> m \<noteq> noMatch"
    by (auto dest: tok simp: mc)
  note s1 = stage_miss [OF assms [unfolded resolveIn_def Resolve_def if_not_P [OF ne]] 1]
  note s2 = stage_miss [OF s1 [THEN conjunct2] 2]
  note s3 = stage_miss [OF s2 [THEN conjunct2] 3]
  have "\<forall>x \<in> set ?toks. ParseToken (fst x) = [] \<or> \<not> owned (tickets (db w)) tn (ParseToken (fst x))"
    using s3 tok(1) by blast
  moreover have "w' = w" using s3 by (simp add: op_defs)
  moreover have "i \<noteq> [] \<longrightarrow>
      (\<forall>c \<in> set (rows (comments (db w))). \<not> (cmTenantID c = tn \<and> cmMessageID c = i)) \<and>
      (\<forall>t \<in> set (rows (tickets (db w))). \<not> (tkTenantID t = tn \<and> tkExternalID t = i))"
    if "i \<in> set (tiMessageIDs inp)" for i
    using unless_miss(1) [OF bspec [OF s1 [THEN conjunct1] that]] unless_miss(2) [OF bspec [OF s2 [THEN conjunct1] that]]
    by blast
  ultimately show ?thesis by auto
qed

text \<open>
  C19: threading never crosses tenants. Whatever message ids, body and subject an inbound message
  carries, in a store with integrity and whatever lookups fail, a resolved message belongs to a
  ticket of the tenant it was routed to; a failing lookup is reported, never taken for "no thread":
  a message without a match matches no recorded message, no ticket root and no referenced ticket of
  the tenant.
\<close>

theorem Resolve_confined:
  assumes "store_ok w" and "resolveIn tn inp w = (Inr m, w')"
  shows "(m \<noteq> noMatch \<longrightarrow> (\<exists>t. map_of (tickets (db w)) (maTicketID m) = Some t \<and> tkTenantID t = tn)) \<and>
    (m = noMatch \<longrightarrow>
      (\<forall>i \<in> set (tiMessageIDs inp). i \<noteq> [] \<longrightarrow>
        (\<forall>c \<in> set (rows (comments (db w))). \<not> (cmTenantID c = tn \<and> cmMessageID c = i)) \<and>
        (\<forall>t \<in> set (rows (tickets (db w))). \<not> (tkTenantID t = tn \<and> tkExternalID t = i))) \<and>
      (\<forall>s \<in> {tiText inp, tiSubject inp}. ParseToken s \<noteq> [] \<longrightarrow> \<not> owned (tickets (db w)) tn (ParseToken s)))"
proof (cases "m = noMatch")
  case True
  with assms resolve_miss [of tn inp w w'] show ?thesis by simp
next
  case False
  with ms.resolve_confined [OF assms(1) assms(2) [unfolded resolveIn_def]] show ?thesis
    by (auto simp: owned_def)
qed

theorem Resolve_confined_witness:
  "store_ok demo_store \<and>
   resolveIn ''acme'' \<lparr>tiMessageIDs = [''msg1@acme.io''], tiText = [], tiSubject = []\<rparr> demo_store =
     (Inr \<lparr>maTicketID = ''t1'', maBy = ByComment\<rparr>, demo_store) \<and>
   (\<exists>t. map_of (tickets (db demo_store)) ''t1'' = Some t \<and> tkTenantID t = ''acme'')"
proof -
  have r: "resolveIn ''acme'' \<lparr>tiMessageIDs = [''msg1@acme.io''], tiText = [], tiSubject = []\<rparr> demo_store =
     (Inr \<lparr>maTicketID = ''t1'', maBy = ByComment\<rparr>, demo_store)"
    by (simp add: resolveIn_def Resolve_def unlessMissing_def FindCommentByMessageID_def matchComment_def
        op_defs fail_def look_def demo_store_eq demo_tables_def demo_comment_def)
  show ?thesis
    using Resolve_confined [OF demo_ok r] r demo_ok by (simp add: noMatch_def by_consts)
qed

end
