(* ===== verification/Mailer.thy ===== *)
theory Mailer
  imports TicketProps Threading
begin

text \<open>
  Outbound mail (\<open>internal/mailer\<close>): the header checks, the relay sender as a sequence of
  SMTP commands against a relay that answers in any way, and the in-memory sender. Both senders
  provide the interface the services rely on (\<open>mailer.Sender\<close>, the locale
  \<open>mail_sender\<close>). The bytes of the message (\<open>Build\<close>) are not modelled: the command
  that carries them names the mail and the time instead. The record \<open>desk\<close> is the state of
  the services that send mail.
\<close>

section \<open>Mails and their headers\<close>

record out_mail =
  omFrom :: string
  omFromName :: string
  omTo :: string
  omToName :: string
  omSubject :: string
  omText :: string
  omMessageID :: string
  omInReplyTo :: string
  omReferences :: "string list"
  omAutoReply :: bool

definition maxReferences :: nat where "maxReferences = 100"

definition HeaderSafe :: "string \<Rightarrow> bool" where
  "HeaderSafe v \<longleftrightarrow> ValidString v \<and>
     (\<forall>r \<in> set (runes v). \<not> (r = 0x0D \<or> r = 0x0A \<or> r = 0 \<or> (r < 0x20 \<and> r \<noteq> 0x09) \<or> r = 0x7F))"

definition mailBareAddress :: "unicode \<Rightarrow> string \<Rightarrow> bool" where
  "mailBareAddress u v \<longleftrightarrow> \<not> (v = [] \<or> length v > 320) \<and> bareAddress u v"

definition validID :: "string \<Rightarrow> bool" where
  "validID i \<longleftrightarrow> i \<noteq> [] \<and> length i \<le> 998 \<and> HeaderSafe i \<and>
     (\<forall>c \<in> set i. c \<notin> {CHR ''<'', CHR ''>'', CHR '' '', CHR 0x09, CHR '',''})"

definition ValidateMail :: "unicode \<Rightarrow> out_mail \<Rightarrow> unit res" where
  "ValidateMail u m =
     (if \<exists>v \<in> set [omFrom m, omFromName m, omTo m, omToName m, omSubject m]. \<not> HeaderSafe v then Inl MailHeader
      else if \<not> validID (omMessageID m) \<or> (omInReplyTo m \<noteq> [] \<and> \<not> validID (omInReplyTo m)) \<or>
              length (omReferences m) > maxReferences
      then Inl MailHeader
      else if \<exists>r \<in> set (omReferences m). \<not> validID r then Inl MailHeader
      else if \<not> mailBareAddress u (omFrom m) \<or> \<not> mailBareAddress u (omTo m) then Inl MailAddress
      else Inr ())"

section \<open>The relay sender\<close>

definition TLSImplicit :: string where "TLSImplicit = ''implicit''"
definition TLSStartTLS :: string where "TLSStartTLS = ''starttls''"
definition TLSNone :: string where "TLSNone = ''none''"

lemmas tls_consts = TLSImplicit_def TLSStartTLS_def TLSNone_def

record smtp_config =
  scHost :: string
  scPort :: int
  scTLS :: string
  scAllowPlaintext :: bool
  scUsername :: string
  scPassword :: "string res option"

text \<open>What the sender does on the connection, in the order it does it.\<close>

datatype smtp_cmd =
    Dial string int
  | WrapTLS
  | Greeting
  | Hello string
  | StartTLS
  | SendAuth string string
  | MailFrom string
  | RcptTo string
  | DataCmd
  | WriteBody out_mail time
  | CloseData
  | Quit

datatype relay_err = ReplyCode int | NetFailure

text \<open>
  A session with a relay: the commands issued so far, what the relay answers to the last of them
  (any function of the commands), whether it offers STARTTLS, and the mails it has accepted.
\<close>

record session =
  issued :: "smtp_cmd list"
  answer :: "smtp_cmd list \<Rightarrow> relay_err option"
  offersTLS :: "smtp_cmd list \<Rightarrow> bool"
  accepted :: "out_mail list"

definition Enabled :: "smtp_config \<Rightarrow> bool" where
  "Enabled cfg \<longleftrightarrow> scHost cfg \<noteq> []"

definition relayErr :: "string \<Rightarrow> err \<Rightarrow> relay_err \<Rightarrow> err" where
  "relayErr stepName sentinel e =
     (case e of ReplyCode code \<Rightarrow> Wrapped stepName sentinel | NetFailure \<Rightarrow> MailNet stepName)"

definition helloName :: "string \<Rightarrow> string" where
  "helloName sender =
     (case after_last CHR ''@'' sender of
        Some d \<Rightarrow> if d = [] then ''localhost'' else d
      | None \<Rightarrow> ''localhost'')"

text \<open>One command; a failing answer ends the delivery with the given error.\<close>

definition command :: "smtp_cmd \<Rightarrow> (relay_err \<Rightarrow> err) \<Rightarrow> (session, unit) op" where
  "command c onErr =
     bnd (modify (\<lambda>w. w\<lparr>issued := issued w @ [c]\<rparr>)) (\<lambda>_.
     bnd (fetch (\<lambda>w. answer w (issued w))) (\<lambda>a.
     case a of None \<Rightarrow> ret () | Some e \<Rightarrow> throw (onErr e)))"

text \<open>The checks before the connection: transport security, then the password.\<close>

definition transport :: "smtp_config \<Rightarrow> unit res" where
  "transport cfg =
     (if scTLS cfg = TLSImplicit \<or> scTLS cfg = TLSStartTLS then Inr ()
      else if scTLS cfg = TLSNone then
        (if \<not> scAllowPlaintext cfg then Inl (MailPlaintext [])
         else if scUsername cfg \<noteq> [] then Inl MailAuthTLS
         else Inr ())
      else Inl MailConfig)"

definition password :: "smtp_config \<Rightarrow> string res" where
  "password cfg =
     (if scUsername cfg \<noteq> [] then
        (case scPassword cfg of
           None \<Rightarrow> Inl (MailAuth ''password unavailable'')
         | Some r \<Rightarrow>
             (case r of
                Inl _ \<Rightarrow> Inl (MailAuth ''password unavailable'')
              | Inr p \<Rightarrow> if p = [] then Inl (MailAuth ''password unavailable'') else Inr p))
      else Inr [])"

definition SmtpSend :: "unicode \<Rightarrow> smtp_config \<Rightarrow> time \<Rightarrow> out_mail \<Rightarrow> (session, unit) op" where
  "SmtpSend u cfg now m =
     (if \<not> Enabled cfg then throw MailDisabled
      else
      bnd (of_res (ValidateMail u m)) (\<lambda>_.
      bnd (of_res (transport cfg)) (\<lambda>_.
      bnd (of_res (password cfg)) (\<lambda>pw.
      bnd (command (Dial (scHost cfg) (scPort cfg)) (\<lambda>_. MailNet ''dial'')) (\<lambda>_.
      bnd (if scTLS cfg = TLSImplicit then modify (\<lambda>w. w\<lparr>issued := issued w @ [WrapTLS]\<rparr>) else ret ()) (\<lambda>_.
      bnd (command Greeting (relayErr ''greeting'' MailRelay)) (\<lambda>_.
      bnd (command (Hello (helloName (omFrom m))) (relayErr ''hello'' MailRelay)) (\<lambda>_.
      bnd (if scTLS cfg = TLSStartTLS then
             bnd (fetch (\<lambda>w. offersTLS w (issued w))) (\<lambda>offered.
             if \<not> offered then throw (MailPlaintext ''relay offers no STARTTLS'')
             else command StartTLS (\<lambda>_. MailNet ''starttls''))
           else ret ()) (\<lambda>_.
      bnd (if scUsername cfg \<noteq> [] then
             command (SendAuth (scUsername cfg) pw) (relayErr ''auth'' (MailAuth []))
           else ret ()) (\<lambda>_.
      bnd (command (MailFrom (omFrom m)) (relayErr ''sender'' MailRelay)) (\<lambda>_.
      bnd (command (RcptTo (omTo m)) (relayErr ''recipient'' MailRelay)) (\<lambda>_.
      bnd (command DataCmd (relayErr ''data'' MailRelay)) (\<lambda>_.
      bnd (command (WriteBody m now) (relayErr ''data'' MailRelay)) (\<lambda>_.
      bnd (command CloseData (relayErr ''data'' MailRelay)) (\<lambda>_.
      bnd (modify (\<lambda>w. w\<lparr>accepted := accepted w @ [m]\<rparr>)) (\<lambda>_.
      bnd (attempt (command Quit (\<lambda>_. MailRelay))) (\<lambda>_.
      ret ())))))))))))))))))"

section \<open>The in-memory sender and the state of the mailing services\<close>

record desk = world +
  mlOn :: bool
  mlDisabled :: bool
  mlErr :: "err option"
  mlSent :: "out_mail list"
  tkOn :: bool

definition mlEnabled :: "'a desk_scheme \<Rightarrow> bool" where
  "mlEnabled w \<longleftrightarrow> \<not> mlDisabled w"

definition FakeSend :: "out_mail \<Rightarrow> ('a desk_scheme, unit) op" where
  "FakeSend m =
     bnd (fetch (\<lambda>w. (mlDisabled w, ucd w, mlErr w))) (\<lambda>(disabled, u, e).
     if disabled then throw MailDisabled
     else
     bnd (of_res (ValidateMail u m)) (\<lambda>_.
     case e of
       Some x \<Rightarrow> throw x
     | None \<Rightarrow> modify (\<lambda>w. w\<lparr>mlSent := mlSent w @ [m]\<rparr>)))"

definition Messages :: "('a desk_scheme, out_mail list) op" where
  "Messages = fetch mlSent"

section \<open>Nothing in the clear\<close>

lemma run_command [run]:
  "bnd (command c f) g w = (let w' = w\<lparr>issued := issued w @ [c]\<rparr> in
     case answer w (issued w @ [c]) of None \<Rightarrow> g () w' | Some e \<Rightarrow> (Inl (f e), w'))"
  "command c f w = (let w' = w\<lparr>issued := issued w @ [c]\<rparr> in
     case answer w (issued w @ [c]) of None \<Rightarrow> (Inr (), w') | Some e \<Rightarrow> (Inl (f e), w'))"
  by (auto simp: command_def op_defs Let_def split: option.splits)

declare run_attempt [run]

text \<open>The commands that carry credentials, addresses or content; and whether TLS is up.\<close>

fun sensitive :: "smtp_cmd \<Rightarrow> bool" where
  "sensitive (SendAuth _ _) = True"
| "sensitive (MailFrom _) = True"
| "sensitive (RcptTo _) = True"
| "sensitive (WriteBody _ _) = True"
| "sensitive _ = False"

definition secured :: "smtp_cmd list \<Rightarrow> bool" where
  "secured cs \<longleftrightarrow> WrapTLS \<in> set cs \<or> StartTLS \<in> set cs"

text \<open>Every sensitive command comes after TLS is up.\<close>

fun guarded :: "bool \<Rightarrow> smtp_cmd list \<Rightarrow> bool" where
  "guarded up [] = True"
| "guarded up (c # cs) = ((sensitive c \<longrightarrow> up) \<and> guarded (up \<or> c = WrapTLS \<or> c = StartTLS) cs)"

lemma guardedD: "guarded up (pre @ c # post) \<Longrightarrow> sensitive c \<Longrightarrow> up \<or> secured pre"
  by (induction pre arbitrary: up) (fastforce simp: secured_def)+

lemma SmtpSend_trace:
  assumes "issued w = []"
  shows "guarded (scTLS cfg = TLSNone \<and> scAllowPlaintext cfg \<and> scUsername cfg = []) (issued (snd (SmtpSend u cfg now m w)))"
proof (cases "Enabled cfg \<and> ValidateMail u m = Inr () \<and> (\<exists>p. password cfg = Inr p) \<and> transport cfg = Inr ()")
  case False
  then show ?thesis
    using assms by (cases "ValidateMail u m"; cases "transport cfg"; cases "password cfg") (auto simp: SmtpSend_def run)
next
  case True
  then obtain p where ok: "Enabled cfg" "ValidateMail u m = Inr ()" "password cfg = Inr p" "transport cfg = Inr ()" by blast
  note go = SmtpSend_def run Let_def assms ok
  consider "scTLS cfg = TLSImplicit" | "scTLS cfg = TLSStartTLS" | "scTLS cfg = TLSNone" "scAllowPlaintext cfg" "scUsername cfg = []"
    using ok(4) by (auto simp: transport_def split: if_splits)
  then show ?thesis
  proof cases
    case 1
    then show ?thesis by (simp add: go tls_consts split: option.split)
  next
    case 2
    then show ?thesis by (simp add: go tls_consts split: option.split)
  next
    case 3
    then show ?thesis by (simp add: go tls_consts split: option.split)
  qed
qed


definition demo_mail :: out_mail where
  "demo_mail = \<lparr>omFrom = ''help@acme.io'', omFromName = ''Help'', omTo = ''ann@x.io'', omToName = [],
     omSubject = ''Re: Printer'', omText = ''on it'', omMessageID = ''m1@acme.io'', omInReplyTo = [],
     omReferences = [], omAutoReply = False\<rparr>"

definition demo_relay :: session where
  "demo_relay = \<lparr>issued = [], answer = (\<lambda>_. None), offersTLS = (\<lambda>_. True), accepted = []\<rparr>"

definition demo_smtp :: smtp_config where
  "demo_smtp = \<lparr>scHost = ''relay'', scPort = 587, scTLS = TLSStartTLS, scAllowPlaintext = False,
     scUsername = ''bot'', scPassword = Some (Inr ''s3cret'')\<rparr>"

lemma demo_mail_valid: "ValidateMail ascii_tables demo_mail = Inr ()"
  by (simp add: ValidateMail_def demo_mail_def HeaderSafe_def validID_def mailBareAddress_def bareAddress_def
      dotAtom_def isAtext_def before_first_def ValidString_ascii runes_ascii byte_def maxReferences_def Let_def)

lemma demo_delivery:
  "SmtpSend ascii_tables demo_smtp 7 demo_mail demo_relay =
    (Inr (), demo_relay\<lparr>issued := [Dial ''relay'' 587, Greeting, Hello ''acme.io'', StartTLS, SendAuth ''bot'' ''s3cret'',
       MailFrom ''help@acme.io'', RcptTo ''ann@x.io'', DataCmd, WriteBody demo_mail 7, CloseData, Quit],
       accepted := [demo_mail]\<rparr>)"
  by (simp add: SmtpSend_def run Let_def demo_mail_valid Enabled_def transport_def password_def demo_smtp_def demo_relay_def
      tls_consts helloName_def after_last_def) (simp add: demo_mail_def)


section \<open>The sender interface\<close>

text \<open>What the services rely on when they send: an error delivers nothing, success delivers the mail, and only valid mail is delivered.\<close>

locale mail_sender =
  fixes send :: "out_mail \<Rightarrow> ('w, unit) op"
    and delivered :: "'w \<Rightarrow> out_mail list"
    and tables :: "'w \<Rightarrow> unicode"
  assumes send_ok: "send m w = (Inr (), w') \<Longrightarrow> delivered w' = delivered w @ [m] \<and> ValidateMail (tables w) m = Inr ()"
    and send_err: "send m w = (Inl e, w') \<Longrightarrow> delivered w' = delivered w"
    and send_tables: "tables (snd (send m w)) = tables w"
begin

lemma delivered_valid:
  "preserves (\<lambda>w. tables w = u \<and> (\<forall>m \<in> set (delivered w). ValidateMail u m = Inr ())) (send m)"
proof (rule preservesI)
  fix w
  assume w: "tables w = u \<and> (\<forall>m \<in> set (delivered w). ValidateMail u m = Inr ())"
  obtain r w' where r: "send m w = (r, w')" by fastforce
  show "tables (snd (send m w)) = u \<and> (\<forall>m \<in> set (delivered (snd (send m w))). ValidateMail u m = Inr ())"
    using w r send_ok [of m w w'] send_err [of m w _ w'] send_tables [of m w] by (cases r) auto
qed

lemma outbox_grows: "\<exists>ms. delivered (snd (send m w)) = delivered w @ ms \<and> set ms \<subseteq> {m}"
proof -
  obtain r w' where r: "send m w = (r, w')" by fastforce
  then show ?thesis using send_ok [of m w w'] send_err [of m w _ w'] by (cases r) auto
qed

end

interpretation fake: mail_sender FakeSend mlSent ucd
  by unfold_locales (auto simp: FakeSend_def run split: if_splits sum.splits option.splits)

lemma command_keeps: "preserves (\<lambda>w. accepted w = A) (command c f)"
  by (auto simp: preserves_iff run Let_def split: option.splits)

lemma SmtpSend_triple:
  "triple (\<lambda>w. accepted w = A) (SmtpSend u cfg now m) (\<lambda>_ w. accepted w = A @ [m]) (\<lambda>_ w. accepted w = A)"
proof -
  have last: "triple (\<lambda>w. accepted w = A) (bnd (modify (\<lambda>w. w\<lparr>accepted := accepted w @ [m]\<rparr>))
      (\<lambda>_. bnd (attempt (command Quit f)) (\<lambda>_. ret ()))) (\<lambda>_ w. accepted w = A @ [m]) (\<lambda>_ w. accepted w = A)" for f
    by (simp add: triple_def run Let_def split: option.split)
  have wrap: "preserves (\<lambda>w. accepted w = A) (modify (\<lambda>w. w\<lparr>issued := issued w @ [WrapTLS]\<rparr>))"
    by (simp add: preserves_iff op_defs)
  have off: "triple (\<lambda>w. accepted w = A) (throw e) Q (\<lambda>_ w. accepted w = A)" for e and Q :: "unit \<Rightarrow> session \<Rightarrow> bool"
    by (simp add: triple_def op_defs)
  show ?thesis unfolding SmtpSend_def
    by (cases "Enabled cfg", simp_all only: not_True_eq_False not_False_eq_True if_True if_False off)
      (rule last wrap triple_keep_bnd command_keeps keeps)+
qed

lemma SmtpSend_accepts:
  "SmtpSend u cfg now m w = (Inr (), w') \<Longrightarrow> accepted w' = accepted w @ [m]"
  "SmtpSend u cfg now m w = (Inl e, w') \<Longrightarrow> accepted w' = accepted w"
  by (rule tripleD(1) [OF SmtpSend_triple]; simp) (rule tripleD(2) [OF SmtpSend_triple]; simp)

lemma SmtpSend_valid:
  assumes "SmtpSend u cfg now m w = (Inr (), w')"
  shows "ValidateMail u m = Inr ()"
proof (cases "ValidateMail u m")
  case (Inl e)
  then have "\<exists>e'. fst (SmtpSend u cfg now m w) = Inl e'" by (simp add: SmtpSend_def op_defs)
  with assms show ?thesis by simp
qed simp

interpretation smtp: mail_sender "SmtpSend u cfg now" accepted "\<lambda>_. u"
  by unfold_locales (auto dest: SmtpSend_accepts SmtpSend_valid)

end
