(* ===== verification/CommentSvc.thy ===== *)
theory CommentSvc
  imports Mailer
begin

text \<open>
  The ticket conversation (\<open>internal/comments\<close>): internal notes, and public replies that are
  recorded first, then mailed to the requester, then marked sent or failed; a delivered reply
  re-opens a resolved or closed ticket. The service acts on a \<open>desk\<close>: the store, the audit
  writer, the event publisher, the object store and the mail sender.
\<close>

definition MaxBody :: nat where "MaxBody = 2 ^ 20"

definition ResultSent :: string where "ResultSent = ''sent''"
definition ResultFailed :: string where "ResultFailed = ''failed''"
definition ResultSkipped :: string where "ResultSkipped = ''skipped''"

definition cleanBody :: "string \<Rightarrow> string res" where
  "cleanBody v =
     (let v' = TrimSpace v
      in if v' = [] then Inl (Validation ''comments'' ''body'' ''required'')
         else if length v' > MaxBody \<or> \<not> ValidString v'
         then Inl (Validation ''comments'' ''body'' ''too long or not UTF-8'')
         else if \<exists>r \<in> set (runes v'). IsControl r \<and> r \<noteq> 0x0A \<and> r \<noteq> 0x0D \<and> r \<noteq> 0x09
         then Inl (Validation ''comments'' ''body'' ''control characters'')
         else Inr v')"

definition cmTicket :: "string \<Rightarrow> string \<Rightarrow> ('a mem_scheme, ticket) op" where
  "cmTicket tenantID ident =
     map_err (\<lambda>e. if err_is e RepoNotFound then TkNotFound else e) (GetTicket tenantID ident)"

definition author :: "directory option \<Rightarrow> subjects \<Rightarrow> comment \<Rightarrow> comment" where
  "author dir subj c =
     (let c1 = c\<lparr>cmAuthorID := ActorID subj\<rparr>
      in if \<not> IsHuman subj then c1\<lparr>cmAuthorKind := AuthorSystem\<rparr>
         else c1\<lparr>cmAuthorKind := AuthorAgent,
                 cmAuthorName :=
                   (case dir of
                      None \<Rightarrow> suUserID subj
                    | Some get \<Rightarrow>
                        (case get (suTenantID subj) (suUserID subj) of
                           Inr u \<Rightarrow> DisplayName u
                         | Inl _ \<Rightarrow> suUserID subj))\<rparr>)"

definition auditComment ::
  "subjects \<Rightarrow> string \<Rightarrow> string \<Rightarrow> string \<Rightarrow> (string \<times> any) list \<Rightarrow> ('a world_scheme, unit) op" where
  "auditComment subj t ident outcome details =
     Emit \<lparr>evTenantID = suTenantID subj, evEventType = t, evActorKind = ActorOf (suActorKind subj),
       evActorID = ActorID subj, evSubjectKind = SubjectComment, evSubjectID = ident,
       evOutcome = outcome, evReason = [], evDetails = details\<rparr>"

definition commented :: "subjects \<Rightarrow> string \<Rightarrow> string \<Rightarrow> ('a world_scheme, unit) op" where
  "commented subj tenantID ticketID =
     bnd (attempt (GetTicket tenantID ticketID)) (\<lambda>r.
     case r of
       Inr t \<Rightarrow> EmitEvent tenantID TicketCommented t (histActorKind subj)
     | Inl _ \<Rightarrow> ret ())"

definition cmList :: "subjects \<Rightarrow> string \<Rightarrow> ('a mem_scheme, comment list) op" where
  "cmList subj ticketID =
     bnd (of_res (tenantOf subj)) (\<lambda>tenantID.
     bnd (cmTicket tenantID ticketID) (\<lambda>_.
     ListComments tenantID ticketID))"

definition newComment :: "string \<Rightarrow> string \<Rightarrow> string \<Rightarrow> string \<Rightarrow> bool \<Rightarrow> string \<Rightarrow> comment" where
  "newComment i tenantID ticketID body internal msgID =
     \<lparr>cmID = i, cmTenantID = tenantID, cmTicketID = ticketID, cmBody = body, cmInternal = internal,
      cmAuthorKind = [], cmAuthorID = [], cmAuthorName = [], cmAuthorEmail = [], cmMessageID = msgID,
      cmDelivery = DeliveryNone, cmCreatedAt = 0\<rparr>"

definition AddNote :: "directory option \<Rightarrow> subjects \<Rightarrow> string \<Rightarrow> string \<Rightarrow> ('a world_scheme, comment) op" where
  "AddNote dir subj ticketID body =
     bnd (of_res (tenantOf subj)) (\<lambda>tenantID.
     bnd (of_res (cleanBody body)) (\<lambda>body'.
     bnd (cmTicket tenantID ticketID) (\<lambda>_.
     bnd NewID (\<lambda>i.
     let c = author dir subj (newComment i tenantID ticketID body' True [])
     in bnd (map_err (\<lambda>e. if err_is e RepoNotFound then TkNotFound else e) (CreateComment c)) (\<lambda>_.
        bnd (attempt (GetComment tenantID (cmID c))) (\<lambda>r.
        let stored = (case r of Inr x \<Rightarrow> x | Inl _ \<Rightarrow> c)
        in bnd (auditComment subj CommentCreate (cmID c) OutcomeOK
                  [(''ticket_id'', VStr ticketID), (''internal'', VBool True)]) (\<lambda>_.
           bnd (commented subj tenantID ticketID) (\<lambda>_.
           ret stored))))))))"

definition sender :: "ticket \<Rightarrow> ('a mem_scheme, mailbox) op" where
  "sender t =
     (let firstActive =
        bnd (ListMailboxes (tkTenantID t)) (\<lambda>mbs.
        case find mbActive mbs of
          Some mb \<Rightarrow> ret mb
        | None \<Rightarrow> throw (CmReplyUnavailable ''no mailbox to send from''))
      in if tkMailboxID t \<noteq> [] then
           bnd (attempt (GetMailbox (tkTenantID t) (tkMailboxID t))) (\<lambda>r.
           case r of
             Inr mb \<Rightarrow> ret mb
           | Inl e \<Rightarrow> if \<not> err_is e RepoNotFound then throw e else firstActive)
         else firstActive)"

text \<open>The threading headers of a reply: \<open>In-Reply-To\<close> and \<open>References\<close>.\<close>

definition threadHeaders :: "ticket \<Rightarrow> string \<times> string list" where
  "threadHeaders t =
     (let (irt, refs) = (if tkExternalID t \<noteq> [] then (tkExternalID t, [tkExternalID t]) else ([], []))
      in if tkLastMessageID t \<noteq> [] then
           (tkLastMessageID t,
            if tkLastMessageID t \<noteq> tkExternalID t then refs @ [tkLastMessageID t] else refs)
         else (irt, refs))"

definition replyMail :: "unicode \<Rightarrow> mailbox \<Rightarrow> ticket \<Rightarrow> string \<Rightarrow> string \<Rightarrow> out_mail" where
  "replyMail u mb t body msgID =
     \<lparr>omFrom = mbAddress mb, omFromName = mbDisplayName mb, omTo = tkRequesterEmail t,
      omToName = tkRequesterName t, omSubject = ReplySubject u (tkSubject t),
      omText = AppendReference body (tkID t), omMessageID = msgID,
      omInReplyTo = fst (threadHeaders t), omReferences = snd (threadHeaders t), omAutoReply = False\<rparr>"

text \<open>
  What follows a delivered reply: the ticket is re-opened when it was resolved or closed.
\<close>

definition reopen :: "subjects \<Rightarrow> ticket \<Rightarrow> ('a desk_scheme, bool) op" where
  "reopen subj t =
     bnd (fetch tkOn) (\<lambda>on.
     if (tkStatus t = StatusResolved \<or> tkStatus t = StatusClosed) \<and> on then
       bnd (attempt (SetStatusAs subj (tkID t) StatusOpen (histActorKind subj))) (\<lambda>r.
       ret (case r of Inl _ \<Rightarrow> False | Inr _ \<Rightarrow> True))
     else ret False)"

text \<open>
  Sending the recorded reply and settling its delivery state. The result carries the comment and,
  when the relay refused the mail, the error reported beside it.
\<close>

definition deliver ::
  "subjects \<Rightarrow> string \<Rightarrow> ticket \<Rightarrow> mailbox \<Rightarrow> out_mail \<Rightarrow> comment \<Rightarrow> ('a desk_scheme, comment \<times> err option) op" where
  "deliver subj tenantID t mb out c =
     bnd (attempt (FakeSend out)) (\<lambda>sendErr.
     let c1 = c\<lparr>cmDelivery := (case sendErr of Inr _ \<Rightarrow> DeliverySent | Inl _ \<Rightarrow> DeliveryFailed)\<rparr>
     in bnd (attempt (SetCommentDelivery tenantID (cmID c1) (cmDelivery c1))) (\<lambda>_.
        bnd (attempt (GetComment tenantID (cmID c1))) (\<lambda>r.
        let c2 = (case r of Inr stored \<Rightarrow> stored | Inl _ \<Rightarrow> c1)
        in case sendErr of
             Inl _ \<Rightarrow>
               bnd (MetricReply ResultFailed) (\<lambda>_.
               bnd (auditComment subj ReplyFailed (cmID c2) OutcomeError [(''ticket_id'', VStr (tkID t))]) (\<lambda>_.
               bnd (commented subj tenantID (tkID t)) (\<lambda>_.
               ret (c2, Some CmDeliveryFailed))))
           | Inr _ \<Rightarrow>
               bnd (MetricReply ResultSent) (\<lambda>_.
               bnd (reopen subj t) (\<lambda>reopened.
               bnd (auditComment subj ReplySent (cmID c2) OutcomeOK
                      [(''ticket_id'', VStr (tkID t)), (''mailbox_id'', VStr (mbID mb)), (''reopened'', VBool reopened)]) (\<lambda>_.
               bnd (commented subj tenantID (tkID t)) (\<lambda>_.
               ret (c2, None))))))))"

text \<open>The second half of \<open>Reply\<close>: the composed mail is checked, recorded and delivered.\<close>

definition sendReply ::
  "directory option \<Rightarrow> subjects \<Rightarrow> string \<Rightarrow> ticket \<Rightarrow> mailbox \<Rightarrow> string \<Rightarrow> out_mail \<Rightarrow>
   ('a desk_scheme, comment \<times> err option) op" where
  "sendReply dir subj tenantID t mb body out =
     bnd (fetch ucd) (\<lambda>u.
     case ValidateMail u out of
       Inl _ \<Rightarrow>
         bnd (auditComment subj ReplyFailed [] OutcomeRefused
                [(''ticket_id'', VStr (tkID t)), (''reason'', VStr ''unsafe_header'')]) (\<lambda>_.
         throw CmUnsafeHeader)
     | Inr _ \<Rightarrow>
         bnd NewID (\<lambda>i.
         let c = author dir subj (newComment i tenantID (tkID t) body False (omMessageID out))
         in bnd (map_err (\<lambda>e. if err_is e RepoNotFound then TkNotFound else e) (CreateComment c)) (\<lambda>_.
            deliver subj tenantID t mb out c)))"

definition Reply ::
  "directory option \<Rightarrow> string \<Rightarrow> subjects \<Rightarrow> string \<Rightarrow> string \<Rightarrow> ('a desk_scheme, comment \<times> err option) op" where
  "Reply dir mailDomain subj ticketID body =
     bnd (of_res (tenantOf subj)) (\<lambda>tenantID.
     bnd (of_res (cleanBody body)) (\<lambda>body'.
     bnd (cmTicket tenantID ticketID) (\<lambda>t.
     if tkRequesterEmail t = [] then throw (CmReplyUnavailable ''the ticket has no requester address'')
     else
     bnd (fetch (\<lambda>w. mlOn w \<and> mlEnabled w)) (\<lambda>usable.
     if \<not> usable then throw (CmReplyUnavailable ''outbound mail is not configured'')
     else
     bnd (sender t) (\<lambda>mb.
     bnd (fetch ucd) (\<lambda>u.
     let domain = (if DomainOf u (mbAddress mb) = [] then mailDomain else DomainOf u (mbAddress mb))
     in bnd (MessageID (tkID t) domain) (\<lambda>msgID.
        sendReply dir subj tenantID t mb body' (replyMail u mb t body' msgID))))))))"

definition cmAdd ::
  "directory option \<Rightarrow> string \<Rightarrow> subjects \<Rightarrow> string \<Rightarrow> string \<Rightarrow> bool \<Rightarrow> ('a desk_scheme, comment \<times> err option) op" where
  "cmAdd dir mailDomain subj ticketID body internal =
     (if internal then bnd (AddNote dir subj ticketID body) (\<lambda>c. ret (c, None))
      else Reply dir mailDomain subj ticketID body)"

definition cmDelete :: "subjects \<Rightarrow> string \<Rightarrow> ('a world_scheme, unit) op" where
  "cmDelete subj ident =
     (let onErr = (\<lambda>e. if err_is e RepoNotFound then CmCommentNotFound else e)
      in bnd (of_res (tenantOf subj)) (\<lambda>tenantID.
         bnd (map_err onErr (GetComment tenantID ident)) (\<lambda>c.
         bnd (map_err onErr (DeleteComment tenantID ident)) (\<lambda>keys.
         bnd (fetch blOn) (\<lambda>on.
         bnd (if on then deleteObjects keys else ret 0) (\<lambda>failed.
         auditComment subj CommentDelete ident OutcomeOK
           [(''ticket_id'', VStr (cmTicketID c)), (''attachments'', VInt (int (length keys))),
            (''objects_failed'', VInt failed)]))))))"

section \<open>Integrity\<close>

lemma FakeSend_ok [keeps]: "preserves store_ok (FakeSend m)"
  by (auto simp: preserves_iff FakeSend_def run store_ok_def split: sum.splits option.splits)

lemma MessageID_ok [keeps]: "preserves store_ok (MessageID i d)"
  unfolding MessageID_def Let_def by (intro keeps)+

lemma comment_service_ok [keeps]:
  "preserves store_ok (cmTicket tn i)"
  "preserves store_ok (auditComment subj ev i oc ds)"
  unfolding cmTicket_def auditComment_def by (intro keeps)+

lemma commented_ok [keeps]: "preserves store_ok (commented subj tn i)"
  unfolding commented_def by (intro keeps)+

lemma sender_ok [keeps]: "preserves store_ok (sender t)"
  unfolding sender_def Let_def by (intro keeps)+

lemma reopen_ok [keeps]: "preserves store_ok (reopen subj t)"
  unfolding reopen_def by (intro keeps)+

lemma deliver_ok [keeps]: "preserves store_ok (deliver subj tn t mb out c)"
  unfolding deliver_def Let_def by (intro keeps)+

lemma sendReply_ok [keeps]: "preserves store_ok (sendReply dir subj tn t mb b out)"
  unfolding sendReply_def Let_def by (intro keeps)+

lemma comment_ops_ok [keeps]:
  "preserves store_ok (cmList subj i)"
  "preserves store_ok (AddNote dir subj i b)"
  "preserves store_ok (Reply dir md subj i b)"
  "preserves store_ok (cmDelete subj i)"
  unfolding cmList_def AddNote_def Reply_def cmDelete_def Let_def by (intro keeps)+

end
