(* ===== verification/CommentProps.thy ===== *)
theory CommentProps
  imports CommentSvc
begin

text \<open>
  What a reply guarantees: it is recorded before it is mailed, whatever fails; its delivery state
  says what happened to the mail; the requester's answer to it finds the ticket again; and an
  internal note is never mailed.
\<close>

section \<open>What is recorded and what is mailed\<close>

text \<open>Predicates over the recorded comments and the mails sent; most operations touch neither.\<close>

definition seen :: "(comment table \<Rightarrow> out_mail list \<Rightarrow> bool) \<Rightarrow> 'a desk_scheme \<Rightarrow> bool" where
  "seen P w = P (comments (db w)) (mlSent w)"

lemma seen_basic [keeps]:
  "preserves (seen P) (fail m)" "preserves (seen P) Now" "preserves (seen P) NewID" "preserves (seen P) (look f)"
  "preserves (seen P) (Emit e)" "preserves (seen P) (EmitEvent tn ev t ak)" "preserves (seen P) (count n as)"
  by (auto simp: preserves_iff seen_def fail_def Now_def NewID_eq look_def EmitEvent_def Publish_def count_def
      Emit_def Record_def afterID_def op_defs split: sum.splits prod.splits)

lemma seen_save [keeps]: "(\<And>d. comments (u d) = comments d) \<Longrightarrow> preserves (seen P) (save u)"
  by (simp add: preserves_iff seen_def save_def op_defs)

lemma seen_store [keeps]:
  "preserves (seen P) (GetTicket tn i)" "preserves (seen P) (GetComment tn i)" "preserves (seen P) (GetMailbox tn i)"
  "preserves (seen P) (ListMailboxes tn)" "preserves (seen P) (TagsForTickets tn is)" "preserves (seen P) (ListAttachments tn i)"
  "preserves (seen P) (SetStatus tn i st at)" "preserves (seen P) (AppendHistory h)"
  unfolding GetTicket_def GetComment_def GetMailbox_def ListMailboxes_def TagsForTickets_def ListAttachments_def
    SetStatus_def AppendHistory_def Let_def
  by (rule keeps | simp)+

lemma seen_services [keeps]:
  "preserves (seen P) (cmTicket tn i)" "preserves (seen P) (auditComment subj ev i oc ds)"
  "preserves (seen P) (histAppend tn i f ov nv ak ai)" "preserves (seen P) (view_op t full)"
  "preserves (seen P) (MetricReply x)" "preserves (seen P) (Transition x y)" "preserves (seen P) (MessageID i d)"
  "preserves (seen P) (auditTicket subj ev i oc ds)"
  unfolding cmTicket_def auditComment_def histAppend_def view_op_def MetricReply_def Transition_def MessageID_def
    auditTicket_def Let_def
  by (rule keeps | simp)+

lemma seen_status [keeps]: "preserves (seen P) (SetStatusAs subj i st ak)"
  unfolding SetStatusAs_def by (rule keeps)+

lemma seen_reply [keeps]:
  "preserves (seen P) (commented subj tn i)" "preserves (seen P) (sender t)" "preserves (seen P) (reopen subj t)"
  unfolding commented_def sender_def reopen_def Let_def by (rule keeps)+

section \<open>Recorded before it is mailed\<close>

text \<open>A public comment of the ticket with this id and message id is in the table.\<close>

definition recordedAs :: "string \<Rightarrow> string \<Rightarrow> string \<Rightarrow> string \<Rightarrow> comment table \<Rightarrow> bool" where
  "recordedAs tn tk i msg C \<longleftrightarrow> (\<exists>x. map_of C i = Some x \<and> cmTenantID x = tn \<and> cmTicketID x = tk \<and>
     cmMessageID x = msg \<and> \<not> cmInternal x)"

lemma recordedAs_row:
  "recordedAs tn tk i msg C \<Longrightarrow> \<exists>x \<in> set (rows C). cmTenantID x = tn \<and> cmTicketID x = tk \<and> cmMessageID x = msg \<and> \<not> cmInternal x"
  unfolding recordedAs_def rows_def by (auto intro!: bexI dest: map_of_SomeD)

lemma recordedAs_delivery:
  "recordedAs tn tk i msg C \<Longrightarrow> map_of C k = Some c \<Longrightarrow> recordedAs tn tk i msg (AList.update k (c\<lparr>cmDelivery := v\<rparr>) C)"
  by (auto simp: recordedAs_def update_conv)

lemma SetCommentDelivery_recorded [keeps]:
  "preserves (seen (\<lambda>C S. recordedAs tn tk i msg C \<and> Q S)) (SetCommentDelivery tn' k v)"
  by (auto simp: preserves_iff seen_def SetCommentDelivery_def run comment_of_def scoped_iff intro: recordedAs_delivery
      split: sum.splits)

lemma deliver_recorded:
  "triple (seen (\<lambda>C S. recordedAs tn tk (cmID c) msg C \<and> S = old)) (deliver subj tn t mb out c)
     (\<lambda>_. seen (\<lambda>C S. recordedAs tn tk (cmID c) msg C \<and> (S = old \<or> S = old @ [out] \<and> omMessageID out \<noteq> [])))
     (\<lambda>_. seen (\<lambda>C S. recordedAs tn tk (cmID c) msg C \<and> (S = old \<or> S = old @ [out] \<and> omMessageID out \<noteq> [])))"
  unfolding deliver_def Let_def
  by (rule triple_enter, auto simp: triple_def attempt_def FakeSend_def run seen_def ValidateMail_def validID_def split: sum.splits option.splits)
    (rule keeps)+

lemma CreateComment_recorded:
  assumes "\<not> cmInternal c"
  shows "triple (seen (\<lambda>_ S. S = old)) (CreateComment c)
     (\<lambda>_. seen (\<lambda>C S. recordedAs (cmTenantID c) (cmTicketID c) (cmID c) (cmMessageID c) C \<and> S = old)) (\<lambda>_. seen (\<lambda>_ S. S = old))"
  using assms
  by (auto simp: triple_def CreateComment_def run seen_def recordedAs_def update_conv Let_def split: sum.splits)

lemma author_keeps [simp]:
  "cmID (author dir s c) = cmID c" "cmTenantID (author dir s c) = cmTenantID c" "cmTicketID (author dir s c) = cmTicketID c"
  "cmMessageID (author dir s c) = cmMessageID c" "cmInternal (author dir s c) = cmInternal c" "cmBody (author dir s c) = cmBody c"
  "cmDelivery (author dir s c) = cmDelivery c" "cmCreatedAt (author dir s c) = cmCreatedAt c"
  by (simp_all add: author_def Let_def)

lemma newComment_simps [simp]:
  "cmID (newComment i tn tk b nt msg) = i" "cmTenantID (newComment i tn tk b nt msg) = tn"
  "cmTicketID (newComment i tn tk b nt msg) = tk" "cmMessageID (newComment i tn tk b nt msg) = msg"
  "cmInternal (newComment i tn tk b nt msg) = nt" "cmBody (newComment i tn tk b nt msg) = b"
  "cmDelivery (newComment i tn tk b nt msg) = DeliveryNone" "cmCreatedAt (newComment i tn tk b nt msg) = 0"
  by (simp_all add: newComment_def)

text \<open>No mail went out, or exactly one did and a public comment with its message id is recorded.\<close>

definition covered :: "string \<Rightarrow> string \<Rightarrow> out_mail list \<Rightarrow> comment table \<Rightarrow> out_mail list \<Rightarrow> bool" where
  "covered tn tk old C S \<longleftrightarrow> S = old \<or> (\<exists>m i. S = old @ [m] \<and> recordedAs tn tk i (omMessageID m) C \<and> omMessageID m \<noteq> [])"

lemma sendReply_covered:
  "triple (seen (\<lambda>_ S. S = old)) (sendReply dir s tn t mb b out)
     (\<lambda>_. seen (covered tn (tkID t) old)) (\<lambda>_. seen (covered tn (tkID t) old))"
proof -
  let ?N = "seen (\<lambda>_ S. S = old)" and ?F = "seen (covered tn (tkID t) old)"
  have NF: "?N w \<Longrightarrow> ?F w" for w :: "'b desk_scheme" by (simp add: seen_def covered_def)
  define c where "c i = author dir s (newComment i tn (tkID t) b False (omMessageID out))" for i
  have rec: "triple ?N (map_err h (CreateComment (c i)))
      (\<lambda>_. seen (\<lambda>C S. recordedAs tn (tkID t) (cmID (c i)) (omMessageID out) C \<and> S = old)) (\<lambda>_. ?F)" for i h
    using CreateComment_recorded [of "c i" old]
    by (intro triple_map_err) (auto simp: seen_def covered_def c_def elim: triple_conseq)
  have del: "triple (seen (\<lambda>C S. recordedAs tn (tkID t) (cmID (c i)) (omMessageID out) C \<and> S = old))
      (deliver s tn t mb out (c i)) (\<lambda>_. ?F) (\<lambda>_. ?F)" for i
    using deliver_recorded by (rule triple_conseq) (auto simp: seen_def covered_def)
  have off: "triple ?N (throw e) (\<lambda>_. ?F) (\<lambda>_. ?F)" for e by (simp add: triple_def op_defs NF)
  have "triple ?N (case r of Inl _ \<Rightarrow> bnd (auditComment s ReplyFailed [] OutcomeRefused ds) (\<lambda>_. throw CmUnsafeHeader)
      | Inr _ \<Rightarrow> bnd NewID (\<lambda>i. bnd (map_err h (CreateComment (c i))) (\<lambda>_. deliver s tn t mb out (c i))))
      (\<lambda>_. ?F) (\<lambda>_. ?F)" for r :: "unit res" and ds h
    by (cases r) (simp_all, (rule triple_then, rule keeps, erule NF, rule off triple_bnd [OF rec del])+)
  then show ?thesis
    unfolding sendReply_def Let_def c_def by (intro triple_then [where I = ?N] keeps NF)
qed

lemma cmTicket_found:
  "triple (\<lambda>w. store_ok w \<and> seen P w) (cmTicket tn i) (\<lambda>t w. tkID t = i \<and> seen P w) (\<lambda>_. seen P)"
proof -
  have "tkID t = i" if "store_ok w" "map_of (tickets (db w)) i = Some t" for t and w :: "'b desk_scheme"
    using that table_lookup_id [OF mem_invD(1)] by (auto simp: store_ok_def)
  then show ?thesis
    by (auto simp: triple_def cmTicket_def map_err_def GetTicket_def run ticket_of_def scoped_def seen_def
        split: option.splits)
qed

lemma seen_covered: "seen (\<lambda>_ S. S = old) w \<Longrightarrow> seen (covered tn tk old) w"
  by (simp add: seen_def covered_def)

lemma covered_throw: "triple (seen (\<lambda>_ S. S = old)) (throw e) (\<lambda>_. seen (covered tn tk old)) (\<lambda>_. seen (covered tn tk old))"
  by (simp add: triple_def op_defs seen_covered)

lemma Reply_covered_from:
  "triple (seen (\<lambda>_ S. S = old)) (if tkRequesterEmail t = [] then throw e1 else bnd (fetch f) (\<lambda>usable.
      if \<not> usable then throw e2 else bnd (sender t) (\<lambda>mb. bnd (fetch ucd) (\<lambda>u.
      bnd (MessageID (tkID t) (d u mb)) (\<lambda>msgID. sendReply dir s tn t mb b (replyMail u mb t b msgID))))))
      (\<lambda>_. seen (covered tn (tkID t) old)) (\<lambda>_. seen (covered tn (tkID t) old))"
  by (auto intro!: triple_then [where I = "seen (\<lambda>_ S. S = old)"] keeps covered_throw sendReply_covered seen_covered)

lemma cmTicket_covered:
  "triple (\<lambda>w. store_ok w \<and> seen (\<lambda>_ S. S = old) w) (cmTicket tn i)
     (\<lambda>t w. tkID t = i \<and> seen (\<lambda>_ S. S = old) w) (\<lambda>_. seen (covered tn' i old))"
  by (rule triple_conseq [OF cmTicket_found [where P = "\<lambda>_ S. S = old"]]) (auto simp: seen_covered)

lemma Reply_covered:
  "triple (\<lambda>w. store_ok w \<and> seen (\<lambda>_ S. S = old) w) (Reply dir md s i b)
     (\<lambda>_. seen (covered (suTenantID s) i old)) (\<lambda>_. seen (covered (suTenantID s) i old))"
proof (cases "suTenantID s = [] \<or> (\<exists>e. cleanBody b = Inl e)")
  case True
  then show ?thesis
    by (auto simp: Reply_def tenantOf_def triple_def op_defs of_res_def seen_def covered_def split: sum.split)
next
  case False
  then obtain b' where b': "suTenantID s \<noteq> []" "cleanBody b = Inr b'" by (cases "cleanBody b") auto
  show ?thesis
    unfolding Reply_def tenantOf_def Let_def if_not_P [OF b'(1)] b'(2) bnd_of_res
    by (rule triple_bnd [OF cmTicket_covered], rule triple_pure, erule subst, rule Reply_covered_from)
qed

lemma FindComment_unique:
  assumes "message_unique (db w)" "c \<in> set (rows (comments (db w)))" "cmMessageID c \<noteq> []" "failNext w = []"
  shows "FindCommentByMessageID (cmTenantID c) (cmMessageID c) w = (Inr c, w)"
proof (cases "find (\<lambda>x. cmTenantID x = cmTenantID c \<and> cmMessageID x = cmMessageID c) (rows (comments (db w)))")
  case None
  with assms(2) show ?thesis by (auto simp: find_None_iff)
next
  case (Some x)
  then have "x \<in> set (rows (comments (db w)))" "cmTenantID x = cmTenantID c" "cmMessageID x = cmMessageID c"
    by (auto simp: find_Some_iff)
  with assms have "x = c" by (auto simp: message_unique_def dest: inj_onD)
  with Some assms show ?thesis by (simp add: FindCommentByMessageID_def run)
qed

section \<open>Minted ids in mail headers\<close>

definition plain :: "char \<Rightarrow> bool" where
  "plain c \<longleftrightarrow> 0x21 \<le> byte c \<and> byte c < 0x7F \<and> c \<notin> {CHR ''<'', CHR ''>'', CHR '',''}"

lemma validID_plain:
  assumes "i \<noteq> []" "length i \<le> 998" "\<forall>c \<in> set i. plain c"
  shows "validID i"
proof -
  have p: "0x21 \<le> byte c" "byte c < 0x7F" if "c \<in> set i" for c using that assms(3) by (simp_all add: plain_def)
  have asc: "ascii i" unfolding ascii_def
  proof
    fix c assume "c \<in> set i"
    from p(2) [OF this] show "byte c < 0x80" by simp
  qed
  have "\<not> (byte c = 0x0D \<or> byte c = 0x0A \<or> byte c = 0 \<or> (byte c < 0x20 \<and> byte c \<noteq> 0x09) \<or> byte c = 0x7F)"
    if "c \<in> set i" for c using p [OF that] by linarith
  then have "HeaderSafe i"
    unfolding HeaderSafe_def runes_ascii [OF asc] by (simp add: ValidString_ascii [OF asc])
  moreover have "\<not> plain CHR '' ''" "\<not> plain CHR 0x09" "\<not> plain CHR ''<''" "\<not> plain CHR ''>''" "\<not> plain CHR '',''"
    by (simp_all add: plain_def byte_def)
  ultimately show ?thesis using assms unfolding validID_def by blast
qed

lemma plain_tokens: "hexDash c \<Longrightarrow> plain c" "alnumLow c \<Longrightarrow> plain c"
  by (auto simp: hexDash_def alnumLow_def plain_def byte_def Let_def)

lemma plain_dots: "plain CHR ''.''" "plain CHR ''-''" "plain CHR ''@''" "plain CHR ''t''" "plain CHR ''i''"
  "plain CHR ''c''" "plain CHR ''k''" "plain CHR ''e''"
  by (simp_all add: plain_def byte_def)

lemma byte_hexDigit: "n < 16 \<Longrightarrow> byte (hexDigit n) = (if n < 10 then 48 + n else 87 + n)"
  unfolding hexDigit_def by (rule byte_char_of) simp

lemma hexDash_digit: "n < 16 \<Longrightarrow> hexDash (hexDigit n)"
  unfolding hexDash_def Let_def by (simp only: byte_hexDigit) (cases "n < 10"; simp only: if_True if_False; linarith)

lemma mintID_token [simp]: "token_id (mintID w)"
proof -
  have h: "hexDash c" if "c \<in> set (hexByte b)" for b c
    using that unsigned_less [where 'a = nat and w = b]
    by (auto simp: hexByte_def less_mult_imp_div_less intro!: hexDash_digit)
  have e: "hexDash c" if "c \<in> set (EncodeToString bs)" for bs c
    using that h by (auto simp: EncodeToString_def)
  have d: "hexDash CHR ''-''" by (simp add: hexDash_def byte_def)
  have "\<forall>c \<in> set (idText bs). hexDash c" for bs
    by (auto simp: idText_def slice_def Let_def d dest!: in_set_takeD in_set_dropD intro: e)
  then have "\<forall>c \<in> set (mintID w). hexDash c" by (simp add: mintID_def case_prod_beta)
  then show ?thesis by (simp add: token_id_def)
qed

lemma message_plain:
  assumes "\<forall>c \<in> set i. plain c" "length i \<le> 64" "domainRe e"
  shows "validID (''ticket.'' @ i @ ''.'' @ mintID v @ ''@'' @ e)"
proof (rule validID_plain)
  have "\<forall>c \<in> set e. plain c" "\<forall>c \<in> set (mintID v). plain c"
    using assms mintID_token [of v] unfolding domainRe_def token_id_def by (auto simp: plain_tokens plain_dots)
  then show "\<forall>c \<in> set (''ticket.'' @ i @ ''.'' @ mintID v @ ''@'' @ e). plain c"
    using assms by (auto simp: plain_dots)
  show "length (''ticket.'' @ i @ ''.'' @ mintID v @ ''@'' @ e) \<le> 998"
    using assms by (simp add: domainRe_def)
qed simp

text \<open>
  C30: the module never builds a \<open>Message-ID\<close> its own mail check refuses. For every ticket
  whose id has the form of a minted one, and whatever domain is configured or taken from the
  mailbox, \<open>MessageID\<close> returns an id that \<open>Validate\<close> accepts.
\<close>

theorem MessageID_valid:
  assumes "token_id i"
  shows "\<exists>m w'. MessageID i d w = (Inr m, w') \<and> validID m"
proof -
  have i: "\<forall>c \<in> set i. plain c" "length i \<le> 64" using assms by (auto simp: token_id_def plain_tokens)
  have "domainRe DefaultDomain" by (simp add: domainRe_def DefaultDomain_def alnumLow_def byte_def)
  then show ?thesis using message_plain [OF i, of DefaultDomain w] message_plain [OF i, of "ToLower (ucd w) (TrimSpace d)" w]
    by (simp add: MessageID_def run Let_def)
qed

theorem MessageID_valid_witness:
  "token_id ''0a1b2c3d'' \<and> (\<exists>m w'. MessageID ''0a1b2c3d'' ''ACME.io'' demo_rt = (Inr m, w') \<and> validID m)"
proof -
  have "token_id ''0a1b2c3d''" by (simp add: token_id_def hexDash_def byte_def)
  with MessageID_valid [OF this] show ?thesis by simp
qed

section \<open>What a reply leaves behind\<close>

lemma desk_frame [simp]:
  "mlSent (emitted e w) = mlSent w" "mlErr (emitted e w) = mlErr w" "mlDisabled (emitted e w) = mlDisabled w" "tkOn (emitted e w) = tkOn w"
  "mlSent (afterID w) = mlSent w" "mlErr (afterID w) = mlErr w" "mlDisabled (afterID w) = mlDisabled w" "tkOn (afterID w) = tkOn w"
  "mlSent (wrote i t w) = mlSent w" "mlSent (logged h w) = mlSent w" "tkOn (wrote i t w) = tkOn w" "tkOn (logged h w) = tkOn w"
  by (auto simp: emitted_def Emit_def Record_def op_defs NewID_eq Now_def afterID_def wrote_def logged_def
      split: sum.splits prod.splits)

definition statusOf :: "tables \<Rightarrow> string \<Rightarrow> string option" where
  "statusOf d i = map_option tkStatus (map_of (tickets d) i)"

lemma SetStatusAs_opens:
  assumes "failNext w = []" "suTenantID s \<noteq> []" "ticket_of (db w) (suTenantID s) i = Inr t" "tkStatus t \<noteq> StatusOpen"
  shows "\<exists>v w'. SetStatusAs s i StatusOpen ak w = (Inr v, w') \<and> statusOf (db w') i = Some StatusOpen \<and>
     mlSent w' = mlSent w \<and> comments (db w') = comments (db w) \<and> failNext w' = []"
  using assms ticket_of_Inr [of "db w" "suTenantID s" i t]
  by (simp add: SetStatusAs_def tenantOf_def run unarmed Let_def Transition_def auditTicket_def ValidStatus_def Statuses_def
      statusOf_def update_conv)

text \<open>The stored comment once its delivery state is settled, and the ticket's status after.\<close>

definition settled :: "err option \<Rightarrow> comment \<Rightarrow> comment" where
  "settled e c = c\<lparr>cmDelivery := (case e of None \<Rightarrow> DeliverySent | Some _ \<Rightarrow> DeliveryFailed)\<rparr>"

definition answered :: "err option \<Rightarrow> string \<Rightarrow> string" where
  "answered e st = (if e = None \<and> (st = StatusResolved \<or> st = StatusClosed) then StatusOpen else st)"

lemma ticket_of_comments [simp]: "ticket_of (d\<lparr>comments := cs\<rparr>) tn i = ticket_of d tn i"
  by (simp add: ticket_of_def)

lemma commented_total:
  "commented s tn i w = (Inr (), snd (commented s tn i w))" "db (snd (commented s tn i w)) = db w"
  "mlSent (snd (commented s tn i w)) = mlSent w"
  by (auto simp: commented_def attempt_def GetTicket_def run EmitEvent_def Publish_def split: sum.splits)

lemma reopen_total: "reopen s t w = (Inr (projr (fst (reopen s t w))), snd (reopen s t w))"
  by (simp add: reopen_def run)

lemma reopen_calm:
  assumes "failNext w = []" "suTenantID s \<noteq> []" "tkOn w"
    and "\<exists>t'. ticket_of (db w) (suTenantID s) (tkID t) = Inr t' \<and> tkStatus t' = tkStatus t"
  shows "statusOf (db (snd (reopen s t w))) (tkID t) = Some (answered None (tkStatus t))"
    "comments (db (snd (reopen s t w))) = comments (db w)" "mlSent (snd (reopen s t w)) = mlSent w"
proof -
  obtain t' where t': "ticket_of (db w) (suTenantID s) (tkID t) = Inr t'" "tkStatus t' = tkStatus t" using assms(4) by blast
  then have "statusOf (db w) (tkID t) = Some (tkStatus t)" by (simp add: statusOf_def ticket_of_Inr)
  with SetStatusAs_opens [OF assms(1,2) t'(1), of "histActorKind s"] t' assms(3)
  show "statusOf (db (snd (reopen s t w))) (tkID t) = Some (answered None (tkStatus t))"
    "comments (db (snd (reopen s t w))) = comments (db w)" "mlSent (snd (reopen s t w)) = mlSent w"
    by (auto simp: reopen_def run answered_def StatusOpen_def StatusResolved_def StatusClosed_def)
qed

lemma deliver_calm:
  assumes "failNext w = []" "suTenantID s = tn" "tn \<noteq> []" "ticket_of (db w) tn (tkID t) = Inr t'" "tkStatus t' = tkStatus t"
    "map_of (comments (db w)) (cmID c) = Some c'" "cmTenantID c' = tn" "tkOn w" "\<not> mlDisabled w"
    "ValidateMail (ucd w) out = Inr ()"
  shows "\<exists>w'. deliver s tn t mb out c w = (Inr (settled (mlErr w) c', map_option (\<lambda>_. CmDeliveryFailed) (mlErr w)), w') \<and>
     mlSent w' = mlSent w @ (if mlErr w = None then [out] else []) \<and>
     map_of (comments (db w')) (cmID c) = Some (settled (mlErr w) c') \<and>
     statusOf (db w') (tkID t) = Some (answered (mlErr w) (tkStatus t))"
proof -
  note exec = deliver_def FakeSend_def run Let_def SetCommentDelivery_def GetComment_def comment_of_def scoped_def update_conv
    settled_def MetricReply_def auditComment_def bnd_step [OF commented_total(1)] commented_total(2,3)
    bnd_step [OF reopen_total] reopen_calm
  show ?thesis
    using assms by (cases "mlErr w") (simp_all add: exec, simp_all add: statusOf_def ticket_of_Inr answered_def)
qed

lemma MessageID_parts:
  "MessageID i d w = (Inr msg, w1) \<Longrightarrow> w1 = afterID w"
  by (auto simp: MessageID_def run Let_def)

definition recorded :: "comment \<Rightarrow> ticket \<Rightarrow> 'a mem_scheme \<Rightarrow> 'a mem_scheme" where
  "recorded c t w = (let c' = storedComment (clock w (ticks w)) c in
     w\<lparr>ticks := Suc (ticks w), db := (db w)\<lparr>comments := AList.update (cmID c) c' (comments (db w)),
       tickets := AList.update (tkID t) (counted c' t) (tickets (db w))\<rparr>\<rparr>)"

lemma CreateComment_calm:
  assumes "failNext w = []" "ticket_of (db w) (cmTenantID c) (cmTicketID c) = Inr t" "map_of (comments (db w)) (cmID c) = None"
    "message_free (db w) c"
  shows "CreateComment c w = (Inr (), recorded c t w)"
  using assms by (auto simp: CreateComment_def run recorded_def Let_def message_free_def)

text \<open>The domain a reply's \<open>Message-ID\<close> is minted under.\<close>

definition replyDomain :: "unicode \<Rightarrow> string \<Rightarrow> mailbox \<Rightarrow> string" where
  "replyDomain u md mb = (if DomainOf u (mbAddress mb) = [] then md else DomainOf u (mbAddress mb))"

lemma Reply_calm:
  assumes calm: "failNext w = []" and tn: "suTenantID s = tn" "tn \<noteq> []" and t: "ticket_of (db w) tn i = Inr t" "tkID t = i"
    and body: "cleanBody b = Inr b'" and req: "tkRequesterEmail t \<noteq> []"
    and mail: "mlOn w" "\<not> mlDisabled w" "tkOn w" and sender: "sender t w = (Inr mb, w)"
    and msg: "MessageID i (replyDomain (ucd w) md mb) w = (Inr msg, w1)"
    and valid: "ValidateMail (ucd w) (replyMail (ucd w) mb t b' msg) = Inr ()"
    and fresh: "map_of (comments (db w)) (mintID w1) = None" "message_free (db w) (newComment (mintID w1) tn i b' False msg)"
  shows "\<exists>c w'. Reply dir md s i b w = (Inr (c, map_option (\<lambda>_. CmDeliveryFailed) (mlErr w)), w') \<and>
    map_of (comments (db w)) (cmID c) = None \<and> map_of (comments (db w')) (cmID c) = Some c \<and>
    cmTenantID c = tn \<and> cmTicketID c = i \<and> cmBody c = b' \<and> \<not> cmInternal c \<and> cmAuthorID c = ActorID s \<and> cmMessageID c = msg \<and>
    cmDelivery c = (if mlErr w = None then DeliverySent else DeliveryFailed) \<and>
    mlSent w' = mlSent w @ (if mlErr w = None then [replyMail (ucd w) mb t b' msg] else []) \<and>
    statusOf (db w') i = Some (answered (mlErr w) (tkStatus t))"
proof -
  have w1: "w1 = afterID w" using msg by (rule MessageID_parts)
  have tt: "tkTenantID t = tn" "map_of (tickets (db w)) i = Some t" using t by (simp_all add: ticket_of_Inr)
  define out where "out = replyMail (ucd w) mb t b' msg"
  define c where "c = author dir s (newComment (mintID w1) tn i b' False msg)"
  define w2 where "w2 = recorded c t (afterID w1)"
  have c: "cmID c = mintID w1" "cmTenantID c = tn" "cmTicketID c = i" "cmMessageID c = msg" "cmBody c = b'"
      "\<not> cmInternal c" "cmAuthorID c = ActorID s"
    by (simp_all add: c_def) (simp add: author_def Let_def)
  have create: "CreateComment c (afterID w1) = (Inr (), w2)"
    unfolding w2_def using calm t fresh c by (intro CreateComment_calm) (simp_all add: w1 message_free_def)
  have "ucd w1 = ucd w" "omMessageID out = msg" by (simp_all add: w1 out_def replyMail_def)
  then have "Reply dir md s i b w = deliver s tn t mb out c w2"
    using tn t body req mail valid create
    by (simp add: Reply_def tenantOf_def cmTicket_def unarmed_get [OF calm] run mlEnabled_def bnd_step [where f = "sender t", OF sender] Let_def
        bnd_step [where f = "MessageID i d" for d, OF msg [unfolded replyDomain_def]] sendReply_def out_def [symmetric] c_def [symmetric])
  moreover define sc where "sc = storedComment (clock (afterID w1) (ticks (afterID w1))) c"
  have ct: "tkTenantID (counted sc t) = tkTenantID t" "tkStatus (counted sc t) = tkStatus t" by (simp_all add: counted_def)
  have "map_of (comments (db w2)) (cmID c) = Some sc" "ticket_of (db w2) tn (tkID t) = Inr (counted sc t)"
    "failNext w2 = []" "tkOn w2" "\<not> mlDisabled w2" "ucd w2 = ucd w" "mlErr w2 = mlErr w" "mlSent w2 = mlSent w"
    using calm mail tt ct
    by (simp_all add: w2_def recorded_def Let_def ticket_of_def scoped_def update_conv sc_def [symmetric]) (simp_all add: w1)
  ultimately obtain w' where w': "Reply dir md s i b w = (Inr (settled (mlErr w) sc, map_option (\<lambda>_. CmDeliveryFailed) (mlErr w)), w')"
    "mlSent w' = mlSent w @ (if mlErr w = None then [out] else [])"
    "map_of (comments (db w')) (cmID c) = Some (settled (mlErr w) sc)" "statusOf (db w') i = Some (answered (mlErr w) (tkStatus t))"
    using deliver_calm [of w2 s tn t "counted sc t" c sc out mb] tn t(2) valid c(2) ct by (auto simp: out_def sc_def storedComment_def)
  have "cmID (settled e sc) = cmID c" "cmTenantID (settled e sc) = cmTenantID c" "cmTicketID (settled e sc) = cmTicketID c"
    "cmBody (settled e sc) = cmBody c" "cmInternal (settled e sc) = cmInternal c" "cmAuthorID (settled e sc) = cmAuthorID c"
    "cmMessageID (settled e sc) = cmMessageID c" "cmDelivery (settled e sc) = (if e = None then DeliverySent else DeliveryFailed)" for e
    by (auto simp: settled_def sc_def storedComment_def split: option.split)
  with w' c fresh(1) show ?thesis
    by (intro exI [of _ "settled (mlErr w) sc"] exI [of _ w']) (simp add: out_def)
qed

definition demo_desk :: desk where
  "demo_desk = world.extend demo_world (desk.fields True False None [] True)"

lemma demo_desk_simps [simp]:
  "failNext demo_desk = []" "db demo_desk = demo_tables" "ucd demo_desk = ascii_tables" "mlSent demo_desk = []"
  "mlOn demo_desk" "\<not> mlDisabled demo_desk" "mlErr demo_desk = None" "tkOn demo_desk" "store_ok demo_desk"
  using demo_ok by (simp_all add: demo_desk_def demo_world_defs desk.defs store_ok_def)

definition demo_thread :: ticket where "demo_thread = the (map_of (tickets demo_tables) ''t1'')"
definition demo_from :: mailbox where "demo_from = the (map_of (mailboxes demo_tables) ''m1'')"
definition demo_msg :: string where "demo_msg = ''ticket.'' @ ''t1'' @ ''.'' @ mintID demo_desk @ ''@'' @ ''acme.io''"

lemma demo_subject: "ReplySubject ascii_tables ''Printer on fire'' = ''Re: Printer on fire''"
  by (simp add: ReplySubject_def Map_def str_eval EncodeRune_def enc_bytes_def IsControl_def)
    (simp add: Fields_def chunks_ascii fields_eval hasRePrefix_def str_eval HasPrefix_iff Let_def)

lemma demo_msg_valid: "validID demo_msg"
  unfolding demo_msg_def
  by (rule message_plain) (simp_all add: domainRe_def alnumLow_def byte_def plain_dots plain_def [of "CHR ''1''"])

lemma demo_out:
  defines "out \<equiv> replyMail ascii_tables demo_from demo_thread ''On its way'' demo_msg"
  shows "omFrom out = ''help@acme.io''" "omFromName out = ''Acme Help''" "omTo out = ''ann@x.io''" "omToName out = ''Ann''"
    "omSubject out = ''Re: Printer on fire''" "omMessageID out = demo_msg" "omInReplyTo out = ''msg1@acme.io''"
    "omReferences out = [''root@x.io'', ''msg1@acme.io'']"
    and "HeaderSafe ''help@acme.io''" "HeaderSafe ''Acme Help''" "HeaderSafe ''ann@x.io''" "HeaderSafe ''Ann''"
    "HeaderSafe ''Re: Printer on fire''" "validID ''msg1@acme.io''" "validID ''root@x.io''"
    "mailBareAddress ascii_tables ''help@acme.io''" "mailBareAddress ascii_tables ''ann@x.io''"
  by (simp_all add: out_def replyMail_def threadHeaders_def demo_thread_def demo_from_def demo_tables_def demo_ticket_def
      demo_mailbox_def demo_subject HeaderSafe_def validID_def mailBareAddress_def bareAddress_def
      dotAtom_def isAtext_def before_first_def ValidString_ascii runes_ascii byte_def Let_def)

lemma demo_reply_parts:
  "ticket_of (db demo_desk) ''acme'' ''t1'' = Inr demo_thread" "tkID demo_thread = ''t1''"
  "cleanBody ''On its way'' = Inr ''On its way''" "tkRequesterEmail demo_thread \<noteq> []"
  "sender demo_thread demo_desk = (Inr demo_from, demo_desk)"
  "replyDomain ascii_tables ''acme.io'' demo_from = ''acme.io''"
  "MessageID ''t1'' ''acme.io'' demo_desk = (Inr demo_msg, afterID demo_desk)"
  "ValidateMail ascii_tables (replyMail ascii_tables demo_from demo_thread ''On its way'' demo_msg) = Inr ()"
  "map_of (comments (db demo_desk)) (mintID (afterID demo_desk)) = None"
  "message_free (db demo_desk) (newComment (mintID (afterID demo_desk)) ''acme'' ''t1'' ''On its way'' False demo_msg)"
  subgoal by (simp add: ticket_of_def scoped_def demo_tables_def demo_thread_def demo_ticket_def)
  subgoal by (simp add: demo_thread_def demo_tables_def demo_ticket_def)
  subgoal by (simp add: cleanBody_def str_eval ValidString_ascii MaxBody_def IsControl_def)
  subgoal by (simp add: demo_thread_def demo_tables_def demo_ticket_def)
  subgoal by (simp add: sender_def run GetMailbox_def scoped_def demo_thread_def demo_from_def demo_tables_def demo_ticket_def demo_mailbox_def Let_def mailbox_of_def)
  subgoal by (simp add: replyDomain_def DomainOf_def after_last_def demo_from_def demo_tables_def demo_mailbox_def str_eval)
  subgoal by (simp add: MessageID_def run Let_def demo_msg_def domainRe_def alnumLow_def str_eval)
  subgoal by (simp add: ValidateMail_def demo_out demo_msg_valid maxReferences_def)
  subgoal using length_mintID [of "afterID demo_desk"] by (auto simp: demo_tables_def simp del: length_mintID)
  subgoal by (auto simp: message_free_def demo_tables_def rows_def demo_comment_def demo_msg_def)
  done

text \<open>
  C21: what a reply does when the store does not fail. For a ticket of the agent's tenant with
  a requester, a usable sender mailbox, a valid mail and fresh ids, \<open>Reply\<close> records one public
  comment by the agent with the cleaned body and the minted \<open>Message-ID\<close>. When the relay
  accepts, exactly that mail left, the comment is marked sent, and a resolved or closed ticket is
  open again; when the relay refuses, nothing left, the comment is kept and marked failed, the
  failure is reported beside it, and the ticket keeps its status.
\<close>

theorem Reply_behaviour:
  assumes calm: "failNext w = []" and tn: "suTenantID s = tn" "tn \<noteq> []" and t: "ticket_of (db w) tn i = Inr t" "tkID t = i"
    and body: "cleanBody b = Inr b'" and req: "tkRequesterEmail t \<noteq> []"
    and mail: "mlOn w" "\<not> mlDisabled w" "tkOn w" and sender: "sender t w = (Inr mb, w)"
    and msg: "MessageID i (replyDomain (ucd w) md mb) w = (Inr msg, w1)"
    and valid: "ValidateMail (ucd w) (replyMail (ucd w) mb t b' msg) = Inr ()"
    and fresh: "map_of (comments (db w)) (mintID w1) = None" "message_free (db w) (newComment (mintID w1) tn i b' False msg)"
  shows "\<exists>c w'. Reply dir md s i b w = (Inr (c, map_option (\<lambda>_. CmDeliveryFailed) (mlErr w)), w') \<and>
    map_of (comments (db w)) (cmID c) = None \<and> map_of (comments (db w')) (cmID c) = Some c \<and>
    cmTenantID c = tn \<and> cmTicketID c = i \<and> cmBody c = b' \<and> \<not> cmInternal c \<and> cmAuthorID c = ActorID s \<and> cmMessageID c = msg \<and>
    cmDelivery c = (if mlErr w = None then DeliverySent else DeliveryFailed) \<and>
    mlSent w' = mlSent w @ (if mlErr w = None then [replyMail (ucd w) mb t b' msg] else []) \<and>
    statusOf (db w') i = Some (answered (mlErr w) (tkStatus t))"
  using assms by (rule Reply_calm)

theorem Reply_behaviour_witness:
  "\<exists>c w'. Reply None ''acme.io'' demo_agent ''t1'' ''On its way'' demo_desk = (Inr (c, None), w') \<and>
     cmDelivery c = DeliverySent \<and> mlSent w' = [replyMail ascii_tables demo_from demo_thread ''On its way'' demo_msg] \<and>
     map_of (comments (db w')) (cmID c) = Some c"
  using Reply_behaviour [of demo_desk demo_agent "''acme''" "''t1''" demo_thread "''On its way''" "''On its way''" demo_from
      "''acme.io''" demo_msg "afterID demo_desk" None] demo_reply_parts
  by auto

lemma demo_reply_sent:
  obtains c w' where "Reply None ''acme.io'' demo_agent ''t1'' ''On its way'' demo_desk = (Inr (c, None), w')"
    "mlSent w' = [replyMail ascii_tables demo_from demo_thread ''On its way'' demo_msg]"
  using Reply_calm [of demo_desk demo_agent "''acme''" "''t1''" demo_thread "''On its way''" "''On its way''" demo_from
      "''acme.io''" demo_msg "afterID demo_desk" None] demo_reply_parts
  by auto

text \<open>
  C20: a public reply is recorded before it is mailed, whatever fails. From a store with
  integrity, with any store operations failing, with the relay accepting or refusing, and whether
  \<open>Reply\<close> succeeds or not, at most one mail leaves; when one left, a public comment of that very
  ticket in the agent's tenant carries its \<open>Message-ID\<close>.
\<close>

theorem Reply_recorded_before_sent:
  assumes "store_ok w" and "Reply dir md s i b w = (r, w')"
  shows "mlSent w' = mlSent w \<or>
    (\<exists>m c. mlSent w' = mlSent w @ [m] \<and> c \<in> set (rows (comments (db w'))) \<and> cmTenantID c = suTenantID s \<and>
       cmTicketID c = i \<and> cmMessageID c = omMessageID m \<and> \<not> cmInternal c)"
proof -
  have "seen (covered (suTenantID s) i (mlSent w)) w'"
    using Reply_covered [of "mlSent w" dir md s i b] assms by (cases r) (auto simp: triple_def seen_def)
  then show ?thesis by (auto simp: seen_def covered_def dest!: recordedAs_row)
qed

theorem Reply_recorded_before_sent_witness:
  "\<exists>r w' c. Reply None ''acme.io'' demo_agent ''t1'' ''On its way'' demo_desk = (r, w') \<and>
     map omMessageID (mlSent w') = [demo_msg] \<and> c \<in> set (rows (comments (db w'))) \<and> cmMessageID c = demo_msg"
proof -
  obtain c w' where w': "Reply None ''acme.io'' demo_agent ''t1'' ''On its way'' demo_desk = (Inr (c, None), w')"
    "mlSent w' = [replyMail ascii_tables demo_from demo_thread ''On its way'' demo_msg]" by (rule demo_reply_sent)
  show ?thesis
    using Reply_recorded_before_sent [OF demo_desk_simps(9) w'(1)] w' demo_out(6) by auto
qed

text \<open>
  C26: the requester's answer to a reply finds the ticket again. After a reply left, a message
  whose thread headers name the reply's \<open>Message-ID\<close> first is resolved to that ticket by the
  recorded comment, whatever else the message says; no other ticket can claim it.
\<close>

theorem Reply_answer_threads:
  assumes "store_ok w" and "Reply dir md s i b w = (r, w')" and "mlSent w' = mlSent w @ [m]" and "failNext w' = []"
    and "tiMessageIDs inp = omMessageID m # rest"
  shows "resolveIn (suTenantID s) inp w' = (Inr \<lparr>maTicketID = i, maBy = ByComment\<rparr>, w')"
proof -
  have ok: "message_unique (db w')"
    using preservesD [OF comment_ops_ok(3) assms(1), of dir md s i b] assms(2) by (auto simp: store_ok_def dest: mem_invD)
  have ten: "suTenantID s \<noteq> []" using assms(2,3) by (auto simp: Reply_def tenantOf_def op_defs)
  obtain k where "recordedAs (suTenantID s) i k (omMessageID m) (comments (db w'))" and m: "omMessageID m \<noteq> []"
    using Reply_covered [of "mlSent w" dir md s i b] assms(1-3)
    by (cases r) (auto simp: triple_def seen_def covered_def)
  then obtain c where "c \<in> set (rows (comments (db w')))" "cmTenantID c = suTenantID s" "cmMessageID c = omMessageID m"
    and c: "cmTicketID c = i"
    by (auto dest!: recordedAs_row)
  then have "FindCommentByMessageID (suTenantID s) (omMessageID m) w' = (Inr c, w')"
    using FindComment_unique [OF ok, of c] m assms(4) by simp
  then show ?thesis
    using ten c by (simp add: resolveIn_def Resolve_def assms(5) unlessMissing_def run matchComment_def)
qed

text \<open>No operation arms a failure.\<close>

definition disarmed :: "'a mem_scheme \<Rightarrow> bool" where
  "disarmed w \<longleftrightarrow> failNext w = []"

lemma disarmed_basic [keeps]:
  "preserves disarmed (fail m)" "preserves disarmed Now" "preserves disarmed NewID" "preserves disarmed (look f)"
  "preserves disarmed (save u)" "preserves disarmed (Emit e)" "preserves disarmed (EmitEvent tn ev t ak)"
  "preserves disarmed (count n as)" "preserves disarmed (FakeSend out)"
  by (auto simp: preserves_iff disarmed_def fail_def Now_def NewID_eq look_def save_def EmitEvent_def Publish_def count_def
      Emit_def Record_def FakeSend_def afterID_def op_defs split: sum.splits prod.splits option.splits)

lemma disarmed_store [keeps]:
  "preserves disarmed (GetTicket tn i)" "preserves disarmed (GetComment tn i)" "preserves disarmed (GetMailbox tn i)"
  "preserves disarmed (ListMailboxes tn)" "preserves disarmed (TagsForTickets tn is)" "preserves disarmed (ListAttachments tn i)"
  "preserves disarmed (SetStatus tn i st at)" "preserves disarmed (AppendHistory h)" "preserves disarmed (CreateComment c)"
  "preserves disarmed (SetCommentDelivery tn i v)"
  unfolding GetTicket_def GetComment_def GetMailbox_def ListMailboxes_def TagsForTickets_def ListAttachments_def
    SetStatus_def AppendHistory_def CreateComment_def SetCommentDelivery_def Let_def
  by (rule keeps)+

lemma disarmed_services [keeps]:
  "preserves disarmed (cmTicket tn i)" "preserves disarmed (auditComment subj ev i oc ds)"
  "preserves disarmed (histAppend tn i f ov nv ak ai)" "preserves disarmed (view_op t full)"
  "preserves disarmed (MetricReply x)" "preserves disarmed (Transition x y)" "preserves disarmed (MessageID i d)"
  "preserves disarmed (auditTicket subj ev i oc ds)"
  unfolding cmTicket_def auditComment_def histAppend_def view_op_def MetricReply_def Transition_def MessageID_def
    auditTicket_def Let_def
  by (rule keeps)+

lemma disarmed_reply [keeps]:
  "preserves disarmed (Reply dir md s i b)"
  unfolding Reply_def sendReply_def deliver_def reopen_def sender_def commented_def SetStatusAs_def Let_def
  by (rule keeps)+

theorem Reply_answer_threads_witness:
  "\<exists>r w'. Reply None ''acme.io'' demo_agent ''t1'' ''On its way'' demo_desk = (r, w') \<and>
     resolveIn ''acme'' \<lparr>tiMessageIDs = [demo_msg], tiText = [], tiSubject = []\<rparr> w' =
       (Inr \<lparr>maTicketID = ''t1'', maBy = ByComment\<rparr>, w')"
proof -
  obtain c w' where w': "Reply None ''acme.io'' demo_agent ''t1'' ''On its way'' demo_desk = (Inr (c, None), w')"
    "mlSent w' = [replyMail ascii_tables demo_from demo_thread ''On its way'' demo_msg]" by (rule demo_reply_sent)
  moreover have "failNext w' = []" using preservesD [OF disarmed_reply, of demo_desk None "''acme.io''" demo_agent "''t1''" "''On its way''"] w'(1)
    by (simp add: disarmed_def)
  ultimately show ?thesis
    using Reply_answer_threads [OF demo_desk_simps(9) w'(1), of "replyMail ascii_tables demo_from demo_thread ''On its way'' demo_msg"
        "\<lparr>tiMessageIDs = [demo_msg], tiText = [], tiSubject = []\<rparr>" "[]"] demo_out(6) by auto
qed

end
