(* ===== verification/TagSvc.thy ===== *)
theory TagSvc
  imports TicketProps
begin

text \<open>
  The tag vocabulary of a tenant and the tag set of a ticket (\<open>internal/tags\<close>). A tag created
  or changed through the service always has a clean name, a valid colour and a clean description,
  and keeps the kind it was created with.
\<close>

section \<open>The service\<close>

definition tgMaxName :: nat where "tgMaxName = 100"
definition tgMaxDescription :: nat where "tgMaxDescription = 1000"
definition MaxTicketTags :: nat where "MaxTicketTags = 100"

definition Colors :: "string list" where
  "Colors = [''primary'', ''secondary'', ''accent'', ''info'', ''success'', ''warning'', ''error'', ''neutral'']"

definition hexDigitChar :: "char \<Rightarrow> bool" where
  "hexDigitChar c \<longleftrightarrow> (let b = byte c in (0x30 \<le> b \<and> b \<le> 0x39) \<or> (0x61 \<le> b \<and> b \<le> 0x66) \<or> (0x41 \<le> b \<and> b \<le> 0x46))"

definition hexColor :: "string \<Rightarrow> bool" where
  "hexColor c \<longleftrightarrow> c \<noteq> [] \<and> hd c = CHR ''#'' \<and> length (tl c) \<in> {3, 6} \<and> (\<forall>x \<in> set (tl c). hexDigitChar x)"

definition ValidColor :: "string \<Rightarrow> bool" where
  "ValidColor c \<longleftrightarrow> c = [] \<or> hexColor c \<or> c \<in> set Colors"

record tag_input =
  tgiName :: "string option"
  tgiKind :: "string option"
  tgiColor :: "string option"
  tgiDescription :: "string option"

definition tgInvalid :: "string \<Rightarrow> string \<Rightarrow> err" where
  "tgInvalid field msg = Validation ''tags'' field msg"

definition CleanName :: "string \<Rightarrow> string res" where
  "CleanName v =
     (let v' = TrimSpace v
      in if v' = [] then Inl (tgInvalid ''name'' ''required'')
         else if \<not> ValidString v' \<or> RuneCountInString v' > tgMaxName \<or> hasControl v' False
         then Inl (tgInvalid ''name'' ''too long or invalid characters'')
         else Inr v')"

text \<open>
  \<open>apply\<close> validates the given fields onto the tag, in the order name, colour, description; the
  first invalid field is reported.
\<close>

definition applyTagName :: "tag_input \<Rightarrow> tag \<Rightarrow> tag res" where
  "applyTagName inp t =
     (case tgiName inp of
        None \<Rightarrow> Inr t
      | Some v \<Rightarrow> (case CleanName v of Inl e \<Rightarrow> Inl e | Inr n \<Rightarrow> Inr (t\<lparr>tgName := n\<rparr>)))"

definition applyTagColor :: "tag_input \<Rightarrow> tag \<Rightarrow> tag res" where
  "applyTagColor inp t =
     (case tgiColor inp of
        None \<Rightarrow> Inr t
      | Some v \<Rightarrow>
          (let c = TrimSpace v
           in if \<not> ValidColor c
              then Inl (tgInvalid ''color'' (''a palette colour ('' @ Join Colors '', '' @ '') or #rrggbb''))
              else Inr (t\<lparr>tgColor := c\<rparr>)))"

definition applyTagDescription :: "tag_input \<Rightarrow> tag \<Rightarrow> tag res" where
  "applyTagDescription inp t =
     (case tgiDescription inp of
        None \<Rightarrow> Inr t
      | Some v \<Rightarrow>
          (let d = TrimSpace v
           in if \<not> ValidString d \<or> RuneCountInString d > tgMaxDescription \<or> hasControl d True
              then Inl (tgInvalid ''description'' ''too long or invalid characters'')
              else Inr (t\<lparr>tgDescription := d\<rparr>)))"

definition applyTag :: "tag_input \<Rightarrow> tag \<Rightarrow> tag res" where
  "applyTag inp t =
     (case applyTagName inp t of
        Inl e \<Rightarrow> Inl e
      | Inr t1 \<Rightarrow>
          (case applyTagColor inp t1 of
             Inl e \<Rightarrow> Inl e
           | Inr t2 \<Rightarrow> applyTagDescription inp t2))"

definition tgMapErr :: "err \<Rightarrow> err" where
  "tgMapErr e = (if err_is e RepoNotFound then TgNotFound else if err_is e RepoConflict then TgConflict else e)"

definition auditTag ::
  "subjects \<Rightarrow> string \<Rightarrow> string \<Rightarrow> string \<Rightarrow> string \<Rightarrow> string \<Rightarrow> (string \<times> any) list \<Rightarrow> ('a world_scheme, unit) op" where
  "auditTag subj t kind ident outcome reason details =
     Emit \<lparr>evTenantID = suTenantID subj, evEventType = t, evActorKind = ActorOf (suActorKind subj),
       evActorID = ActorID subj, evSubjectKind = kind, evSubjectID = ident,
       evOutcome = outcome, evReason = reason, evDetails = details\<rparr>"

definition tgSummary :: "tag \<Rightarrow> (string \<times> any) list" where
  "tgSummary t = [(''name'', VStr (tgName t)), (''kind'', VStr (tgKind t)), (''color'', VStr (tgColor t))]"

definition tgList ::
  "(tag list \<Rightarrow> 'req \<Rightarrow> (tag \<Rightarrow> string \<Rightarrow> sort_val) \<Rightarrow> (tag \<Rightarrow> string) \<Rightarrow> tag list) \<Rightarrow>
   (tag list \<Rightarrow> 'req \<Rightarrow> tag list \<times> int \<times> 'req) \<Rightarrow>
   subjects \<Rightarrow> string \<Rightarrow> 'req \<Rightarrow> ('a world_scheme, tag list \<times> int \<times> 'req) op" where
  "tgList SortSlice Window subj kind req =
     bnd (of_res (tenantOf subj)) (\<lambda>tenantID.
     if kind \<noteq> [] \<and> \<not> ValidKind kind then throw (tgInvalid ''kind'' ''tag or category'')
     else PageTags SortSlice Window tenantID kind req)"

text \<open>A write whose conflict is audited as refused; the error is mapped in every case.\<close>

definition tgWrite :: "subjects \<Rightarrow> string \<Rightarrow> string \<Rightarrow> ('a world_scheme, unit) op \<Rightarrow> ('a world_scheme, unit) op" where
  "tgWrite subj event ident f =
     bnd (attempt f) (\<lambda>r.
     case r of
       Inr _ \<Rightarrow> ret ()
     | Inl e \<Rightarrow>
         if err_is (tgMapErr e) TgConflict then
           bnd (auditTag subj event SubjectTag ident OutcomeRefused ''conflict'' []) (\<lambda>_. throw (tgMapErr e))
         else throw (tgMapErr e))"

definition tgCreate :: "subjects \<Rightarrow> tag_input \<Rightarrow> ('a world_scheme, tag) op" where
  "tgCreate subj inp =
     bnd (of_res (tenantOf subj)) (\<lambda>tenantID.
     if tgiName inp = None then throw (tgInvalid ''name'' ''required'')
     else
     bnd NewID (\<lambda>i.
     let kind = (case tgiKind inp of Some k \<Rightarrow> if k \<noteq> [] then k else KindTag | None \<Rightarrow> KindTag)
     in if \<not> ValidKind kind then throw (tgInvalid ''kind'' ''tag or category'')
        else
        bnd (of_res (applyTag inp \<lparr>tgID = i, tgTenantID = tenantID, tgName = [], tgKind = kind, tgColor = [],
               tgDescription = [], tgCreatedAt = 0\<rparr>)) (\<lambda>t.
        bnd (tgWrite subj TagCreate (tgID t) (CreateTag t)) (\<lambda>_.
        bnd (map_err tgMapErr (GetTag tenantID (tgID t))) (\<lambda>stored.
        bnd (auditTag subj TagCreate SubjectTag (tgID t) OutcomeOK [] (tgSummary stored)) (\<lambda>_.
        ret stored))))))"

definition tgUpdate :: "subjects \<Rightarrow> string \<Rightarrow> tag_input \<Rightarrow> ('a world_scheme, tag) op" where
  "tgUpdate subj ident inp =
     bnd (of_res (tenantOf subj)) (\<lambda>tenantID.
     bnd (map_err tgMapErr (GetTag tenantID ident)) (\<lambda>t0.
     if (case tgiKind inp of Some k \<Rightarrow> k \<noteq> [] \<and> k \<noteq> tgKind t0 | None \<Rightarrow> False)
     then throw (tgInvalid ''kind'' ''cannot be changed after creation'')
     else
     bnd (of_res (applyTag inp t0)) (\<lambda>t.
     bnd (tgWrite subj TagUpdate ident (UpdateTag t)) (\<lambda>_.
     bnd (map_err tgMapErr (GetTag tenantID ident)) (\<lambda>stored.
     bnd (auditTag subj TagUpdate SubjectTag ident OutcomeOK [] (tgSummary stored)) (\<lambda>_.
     ret stored))))))"

definition tgDelete :: "subjects \<Rightarrow> string \<Rightarrow> ('a world_scheme, unit) op" where
  "tgDelete subj ident =
     bnd (of_res (tenantOf subj)) (\<lambda>tenantID.
     bnd (map_err tgMapErr (DeleteTag tenantID ident)) (\<lambda>_.
     auditTag subj TagDelete SubjectTag ident OutcomeOK [] []))"

definition tgSetTicketTags :: "subjects \<Rightarrow> string \<Rightarrow> string list \<Rightarrow> ('a world_scheme, unit) op" where
  "tgSetTicketTags subj ticketID ids =
     bnd (of_res (tenantOf subj)) (\<lambda>tenantID.
     let uniq = rev (fold (\<lambda>i seen. if i \<in> set seen then seen else i # seen) ids [])
     in if length uniq > MaxTicketTags then throw (tgInvalid ''tag_ids'' ''at most 100 tags'')
        else
        bnd (map_err (\<lambda>e. if err_is e RepoNotFound then TgTicketNotFound else e) (GetTicket tenantID ticketID)) (\<lambda>_.
        bnd (attempt (SetTicketTags tenantID ticketID uniq)) (\<lambda>r.
        case r of
          Inl e \<Rightarrow>
            if err_is e RepoNotFound then
              bnd (auditTag subj TicketTags SubjectTicket ticketID OutcomeRefused ''unknown_tag'' []) (\<lambda>_.
              throw TgUnknownTag)
            else throw e
        | Inr _ \<Rightarrow>
            auditTag subj TicketTags SubjectTicket ticketID OutcomeOK [] [(''tags'', VInt (int (length uniq)))])))"

lemma tag_service_ok [keeps]:
  "preserves store_ok (auditTag subj ev k i oc rs ds)"
  "preserves store_ok (tgList S W subj k req)"
  "preserves store_ok (tgCreate subj inp)"
  "preserves store_ok (tgUpdate subj i inp)"
  "preserves store_ok (tgDelete subj i)"
  "preserves store_ok (tgSetTicketTags subj i is)"
  unfolding auditTag_def tgList_def tgCreate_def tgUpdate_def tgDelete_def tgSetTicketTags_def tgWrite_def Let_def
  by (intro keeps)+

section \<open>The vocabulary stays clean\<close>

definition tag_clean :: "tag \<Rightarrow> bool" where
  "tag_clean t \<longleftrightarrow> tgName t \<noteq> [] \<and> ValidString (tgName t) \<and> RuneCountInString (tgName t) \<le> tgMaxName \<and>
     \<not> hasControl (tgName t) False \<and> ValidColor (tgColor t) \<and> ValidString (tgDescription t) \<and>
     RuneCountInString (tgDescription t) \<le> tgMaxDescription \<and> \<not> hasControl (tgDescription t) True \<and> ValidKind (tgKind t)"

definition vocab_clean :: "'a mem_scheme \<Rightarrow> bool" where
  "vocab_clean w \<longleftrightarrow> (\<forall>t \<in> set (rows (tags (db w))). tag_clean t)"

lemma applyTag_keeps:
  "applyTag inp t = Inr t' \<Longrightarrow> tgID t' = tgID t \<and> tgTenantID t' = tgTenantID t \<and> tgKind t' = tgKind t \<and> tgCreatedAt t' = tgCreatedAt t"
  by (auto simp: applyTag_def applyTagName_def applyTagColor_def applyTagDescription_def Let_def split: sum.splits option.splits if_splits)

lemma applyTag_clean:
  assumes "applyTag inp t = Inr t'" "tag_clean t"
  shows "tag_clean t'"
  using assms
  by (auto simp: applyTag_def applyTagName_def applyTagColor_def applyTagDescription_def CleanName_def tag_clean_def Let_def
      split: sum.splits option.splits if_splits)

lemma applyTag_fresh:
  assumes "applyTag inp \<lparr>tgID = i, tgTenantID = tn, tgName = [], tgKind = k, tgColor = [], tgDescription = [], tgCreatedAt = 0\<rparr> = Inr t"
    "tgiName inp \<noteq> None" "ValidKind k"
  shows "tag_clean t"
proof -
  have "ValidString []" "RuneCountInString [] = 0" "\<not> hasControl [] b" for b
    by (simp_all add: ValidString_def RuneCountInString_def hasControl_def runes_def)
  with assms show ?thesis
    by (auto simp: applyTag_def applyTagName_def applyTagColor_def applyTagDescription_def CleanName_def tag_clean_def ValidColor_def Let_def
        split: sum.splits option.splits if_splits)
qed

lemma vocab_basic [keeps]:
  "preserves vocab_clean (fail m)" "preserves vocab_clean Now" "preserves vocab_clean NewID" "preserves vocab_clean (look f)"
  "preserves vocab_clean (Emit e)"
  by (auto simp: preserves_iff vocab_clean_def fail_def Now_def NewID_eq look_def Emit_def Record_def afterID_def op_defs
      split: sum.splits prod.splits)

lemma vocab_save [keeps]: "(\<And>d. tags (u d) = tags d) \<Longrightarrow> preserves vocab_clean (save u)"
  by (simp add: preserves_iff vocab_clean_def save_def op_defs)

lemma vocab_store [keeps]:
  "preserves vocab_clean (GetTag tn i)" "preserves vocab_clean (GetTicket tn i)" "preserves vocab_clean (SetTicketTags tn i is)"
  "preserves vocab_clean (auditTag subj ev k i oc rs ds)" "preserves vocab_clean (PageTags S W tn k req)"
  unfolding GetTag_def GetTicket_def SetTicketTags_def auditTag_def PageTags_def ListTags_def failLocked_def Let_def by (rule keeps | simp)+

lemma rows_update_subset: "set (rows (AList.update k v tb)) \<subseteq> insert v (set (rows tb))"
  by (induction tb) (auto simp: rows_def)

lemma rows_delete_subset: "set (rows (AList.delete k tb)) \<subseteq> set (rows tb)"
  by (induction tb) (auto simp: rows_def)

lemma vocab_put: "tag_clean t \<Longrightarrow> preserves vocab_clean (save (\<lambda>d. d\<lparr>tags := AList.update k t (tags d)\<rparr>))"
  using rows_update_subset [of k t] by (fastforce simp: preserves_iff vocab_clean_def save_def op_defs)

lemma vocab_drop [keeps]: "preserves vocab_clean (save (\<lambda>d. d\<lparr>tags := AList.delete k (tags d)\<rparr>))"
  using rows_delete_subset [of k] by (fastforce simp: preserves_iff vocab_clean_def save_def op_defs)

lemma CreateTag_clean:
  assumes "tag_clean t"
  shows "preserves vocab_clean (CreateTag t)"
proof -
  have "tag_clean (storedTag now (t\<lparr>tgKind := if tgKind t = [] then KindTag else tgKind t\<rparr>))" for now
    using assms by (auto simp: tag_clean_def storedTag_def ValidKind_def)
  then show ?thesis
    unfolding CreateTag_def createTag_def Let_def by (intro keeps vocab_put)
qed

lemma UpdateTag_clean:
  assumes "tag_clean t"
  shows "preserves vocab_clean (UpdateTag t)"
proof -
  have "tag_clean (t\<lparr>tgKind := tgKind cur, tgCreatedAt := at\<rparr>)" if "tag_of (db w) tn i = Inr cur" "vocab_clean w"
    for cur at tn i and w :: "'a mem_scheme"
    using that assms by (auto simp: tag_of_def scoped_iff vocab_clean_def rows_def tag_clean_def dest!: map_of_SomeD)
  then show ?thesis
    using rows_update_subset [of "tgID t"]
    by (fastforce simp: preserves_iff UpdateTag_def run Let_def vocab_clean_def split: sum.splits)
qed

lemma vocab_ops [keeps]:
  "preserves vocab_clean (DeleteTag tn i)"
  unfolding DeleteTag_def by (intro keeps) simp

lemma tgWrite_clean: "preserves vocab_clean f \<Longrightarrow> preserves vocab_clean (tgWrite subj ev i f)"
  unfolding tgWrite_def by (intro keeps)

lemma tgCreate_clean [keeps]: "preserves vocab_clean (tgCreate subj inp)"
  unfolding tgCreate_def Let_def
  by (rule preserves_bnd_of_res keeps tgWrite_clean CreateTag_clean applyTag_fresh | assumption | simp)+

lemma GetTag_clean:
  assumes "\<And>t. tag_clean t \<Longrightarrow> preserves vocab_clean (g t)"
  shows "preserves vocab_clean (bnd (map_err h (GetTag tn i)) g)"
proof -
  have "tag_clean t" if "tag_of (db w) tn i = Inr t" "vocab_clean w" for t and w :: "'a mem_scheme"
    using that by (auto simp: tag_of_def scoped_iff vocab_clean_def rows_def dest!: map_of_SomeD)
  moreover have "vocab_clean (w\<lparr>failNext := x\<rparr>) = vocab_clean w" for x and w :: "'a mem_scheme" by (simp add: vocab_clean_def)
  ultimately show ?thesis
    using assms by (auto simp: preserves_iff run GetTag_def split: sum.splits prod.splits)
qed

lemma tgUpdate_clean [keeps]: "preserves vocab_clean (tgUpdate subj i inp)"
  unfolding tgUpdate_def
  by (rule GetTag_clean preserves_bnd_of_res tgWrite_clean UpdateTag_clean keeps | erule (1) applyTag_clean | simp)+

lemma tgOther_clean [keeps]:
  "preserves vocab_clean (tgDelete subj i)" "preserves vocab_clean (tgSetTicketTags subj i is)"
  "preserves vocab_clean (tgList S W subj k req)"
  unfolding tgDelete_def tgSetTicketTags_def tgList_def Let_def by (rule keeps | simp)+

datatype tag_call =
    TagCreateCall subjects tag_input
  | TagUpdateCall subjects string tag_input
  | TagDeleteCall subjects string
  | TicketTagsCall subjects string "string list"
  | TagFailure string

fun tag_step :: "tag_call \<Rightarrow> 'a world_scheme \<Rightarrow> 'a world_scheme" where
  "tag_step (TagCreateCall s inp) w = snd (tgCreate s inp w)"
| "tag_step (TagUpdateCall s i inp) w = snd (tgUpdate s i inp w)"
| "tag_step (TagDeleteCall s i) w = snd (tgDelete s i w)"
| "tag_step (TicketTagsCall s i gs) w = snd (tgSetTicketTags s i gs w)"
| "tag_step (TagFailure m) w = w\<lparr>failNext := m # failNext w\<rparr>"

text \<open>
  C34: the vocabulary stays clean. Whatever calls the tag service gets, by whichever callers and
  with whatever store failures in between, every tag of the store has a non-empty, valid name
  of at most a hundred characters without control characters, a colour that is empty, a palette
  name or a hex value, a bounded clean description, and one of the two kinds.
\<close>

theorem tags_stay_clean:
  assumes "vocab_clean w"
  shows "\<forall>t \<in> set (rows (tags (db (fold tag_step calls w)))). tag_clean t"
proof -
  have "vocab_clean (tag_step c v)" if "vocab_clean v" for c and v :: "'a world_scheme"
  proof (cases c)
    case (TagFailure m)
    with that show ?thesis by (simp add: vocab_clean_def)
  qed (use that preservesD [OF tgCreate_clean] preservesD [OF tgUpdate_clean] preservesD [OF tgOther_clean(1)]
      preservesD [OF tgOther_clean(2)] in simp_all)
  then have "vocab_clean (fold tag_step calls v)" if "vocab_clean v" for v :: "'a world_scheme"
    using that by (induction calls arbitrary: v) simp_all
  from this [OF assms] show ?thesis by (simp add: vocab_clean_def)
qed

theorem tags_stay_clean_witness:
  "list_all tag_clean (rows (tags (db (fold tag_step [TagCreateCall demo_agent \<lparr>tgiName = Some '' vip '', tgiKind = None, tgiColor = Some ''#ff0000'',
     tgiDescription = None\<rparr>] demo_world))))"
proof -
  have "vocab_clean demo_world"
    by (simp add: vocab_clean_def demo_tables_def rows_def tag_clean_def demo_tag_def ValidString_ascii RuneCountInString_def
        runes_ascii chunks_ascii hasControl_def IsControl_def ValidColor_def hexColor_def Colors_def ValidKind_def tgMaxName_def tgMaxDescription_def byte_def)
  from tags_stay_clean [OF this] show ?thesis unfolding list.pred_set by blast
qed

end
