(* ===== verification/MailboxSvc.thy ===== *)
theory MailboxSvc
  imports TagSvc
begin

text \<open>
  The support mailboxes of a tenant (\<open>internal/mailboxes\<close>): the address mail is routed by, the
  reply identity and the acknowledgement settings. Addresses are validated and normalised before
  the store sees them.
\<close>

section \<open>The service\<close>

definition DefaultDisplayName :: string where "DefaultDisplayName = ''Support''"
definition MaxAddress :: nat where "MaxAddress = 320"
definition MaxDisplayName :: nat where "MaxDisplayName = 200"
definition MaxTemplate :: nat where "MaxTemplate = 8192"

record mailbox_input =
  mbiAddress :: "string option"
  mbiDisplayName :: "string option"
  mbiActive :: "bool option"
  mbiAutoAck :: "bool option"
  mbiAutoAckTemplate :: "string option"

definition mbInvalid :: "string \<Rightarrow> string \<Rightarrow> err" where
  "mbInvalid field msg = Validation ''mailboxes'' field msg"

definition NormalizeAddress :: "unicode \<Rightarrow> string \<Rightarrow> string res" where
  "NormalizeAddress u v =
     (let v' = ToLower u (TrimSpace v)
      in if v' = [] \<or> length v' > MaxAddress \<or> hasControl v' False \<or> \<not> ValidString v'
         then Inl (mbInvalid ''address'' ''a single email address is required'')
         else if \<not> bareAddress u v' then Inl (mbInvalid ''address'' ''a single email address is required'')
         else Inr v')"

text \<open>\<open>apply\<close>, field by field in the order of the code.\<close>

definition applyAddress :: "unicode \<Rightarrow> mailbox_input \<Rightarrow> mailbox \<Rightarrow> mailbox res" where
  "applyAddress u inp m =
     (case mbiAddress inp of
        None \<Rightarrow> Inr m
      | Some v \<Rightarrow> (case NormalizeAddress u v of Inl e \<Rightarrow> Inl e | Inr a \<Rightarrow> Inr (m\<lparr>mbAddress := a\<rparr>)))"

definition applyDisplayName :: "mailbox_input \<Rightarrow> mailbox \<Rightarrow> mailbox res" where
  "applyDisplayName inp m =
     (case mbiDisplayName inp of
        None \<Rightarrow> Inr m
      | Some v \<Rightarrow>
          (let n = TrimSpace v
           in if RuneCountInString n > MaxDisplayName \<or> hasControl n False \<or> \<not> ValidString n
              then Inl (mbInvalid ''display_name'' ''too long or invalid characters'')
              else Inr (m\<lparr>mbDisplayName := (if n = [] then DefaultDisplayName else n)\<rparr>)))"

definition applyTemplate :: "mailbox_input \<Rightarrow> mailbox \<Rightarrow> mailbox res" where
  "applyTemplate inp m =
     (case mbiAutoAckTemplate inp of
        None \<Rightarrow> Inr m
      | Some tpl \<Rightarrow>
          if length tpl > MaxTemplate \<or> hasControl tpl True \<or> \<not> ValidString tpl
          then Inl (mbInvalid ''auto_ack_template'' ''too long or invalid characters'')
          else Inr (m\<lparr>mbAutoAckTemplate := tpl\<rparr>))"

definition applyMailbox :: "unicode \<Rightarrow> mailbox_input \<Rightarrow> mailbox \<Rightarrow> mailbox res" where
  "applyMailbox u inp m =
     (case applyAddress u inp m of
        Inl e \<Rightarrow> Inl e
      | Inr m1 \<Rightarrow>
          (case applyDisplayName inp m1 of
             Inl e \<Rightarrow> Inl e
           | Inr m2 \<Rightarrow>
               (let m3 = (case mbiActive inp of None \<Rightarrow> m2 | Some b \<Rightarrow> m2\<lparr>mbActive := b\<rparr>);
                    m4 = (case mbiAutoAck inp of None \<Rightarrow> m3 | Some b \<Rightarrow> m3\<lparr>mbAutoAck := b\<rparr>)
                in applyTemplate inp m4)))"

definition mbMapErr :: "err \<Rightarrow> err" where
  "mbMapErr e =
     (if err_is e RepoNotFound then MbNotFound
      else if err_is e RepoConflict then MbConflict
      else if err_is e RepoNotEmpty then MbInUse
      else e)"

definition auditMailbox ::
  "subjects \<Rightarrow> string \<Rightarrow> string \<Rightarrow> string \<Rightarrow> (string \<times> any) list \<Rightarrow> ('a world_scheme, unit) op" where
  "auditMailbox subj t ident outcome details =
     Emit \<lparr>evTenantID = suTenantID subj, evEventType = t, evActorKind = ActorOf (suActorKind subj),
       evActorID = ActorID subj, evSubjectKind = SubjectMailbox, evSubjectID = ident,
       evOutcome = outcome, evReason = [], evDetails = details\<rparr>"

definition mbSettings :: "mailbox \<Rightarrow> (string \<times> any) list" where
  "mbSettings m = [(''address'', VStr (mbAddress m)), (''active'', VBool (mbActive m)), (''auto_ack'', VBool (mbAutoAck m))]"

definition mbList ::
  "(mailbox list \<Rightarrow> 'req \<Rightarrow> (mailbox \<Rightarrow> string \<Rightarrow> sort_val) \<Rightarrow> (mailbox \<Rightarrow> string) \<Rightarrow> mailbox list) \<Rightarrow>
   (mailbox list \<Rightarrow> 'req \<Rightarrow> mailbox list \<times> int \<times> 'req) \<Rightarrow>
   subjects \<Rightarrow> 'req \<Rightarrow> ('a mem_scheme, mailbox list \<times> int \<times> 'req) op" where
  "mbList SortSlice Window subj req =
     bnd (of_res (tenantOf subj)) (\<lambda>tenantID.
     PageMailboxes SortSlice Window tenantID req)"

definition mbGet :: "subjects \<Rightarrow> string \<Rightarrow> ('a mem_scheme, mailbox) op" where
  "mbGet subj ident =
     bnd (of_res (tenantOf subj)) (\<lambda>tenantID.
     map_err mbMapErr (GetMailbox tenantID ident))"

text \<open>A write whose refusal for the given reason is audited; the error is mapped in every case.\<close>

definition mbWrite ::
  "subjects \<Rightarrow> string \<Rightarrow> string \<Rightarrow> err \<Rightarrow> string \<Rightarrow> ('a world_scheme, unit) op \<Rightarrow> ('a world_scheme, unit) op" where
  "mbWrite subj event ident refusal reason f =
     bnd (attempt f) (\<lambda>r.
     case r of
       Inr _ \<Rightarrow> ret ()
     | Inl e \<Rightarrow>
         if err_is (mbMapErr e) refusal then
           bnd (auditMailbox subj event ident OutcomeRefused [(''reason'', VStr reason)]) (\<lambda>_. throw (mbMapErr e))
         else throw (mbMapErr e))"

definition newMailbox :: "string \<Rightarrow> string \<Rightarrow> mailbox" where
  "newMailbox i tenantID =
     \<lparr>mbID = i, mbTenantID = tenantID, mbAddress = [], mbDisplayName = DefaultDisplayName, mbActive = True,
      mbAutoAck = False, mbAutoAckTemplate = [], mbCreatedAt = 0, mbUpdatedAt = 0\<rparr>"

definition mbCreate :: "subjects \<Rightarrow> mailbox_input \<Rightarrow> ('a world_scheme, mailbox) op" where
  "mbCreate subj inp =
     bnd (of_res (tenantOf subj)) (\<lambda>tenantID.
     if mbiAddress inp = None then throw (mbInvalid ''address'' ''a single email address is required'')
     else
     bnd NewID (\<lambda>i.
     bnd (fetch ucd) (\<lambda>u.
     bnd (of_res (applyMailbox u inp (newMailbox i tenantID))) (\<lambda>m.
     bnd (mbWrite subj MailboxCreate (mbID m) MbConflict ''conflict'' (CreateMailbox m)) (\<lambda>_.
     bnd (map_err mbMapErr (GetMailbox tenantID (mbID m))) (\<lambda>stored.
     bnd (auditMailbox subj MailboxCreate (mbID m) OutcomeOK (mbSettings stored)) (\<lambda>_.
     ret stored)))))))"

definition mbUpdate :: "subjects \<Rightarrow> string \<Rightarrow> mailbox_input \<Rightarrow> ('a world_scheme, mailbox) op" where
  "mbUpdate subj ident inp =
     bnd (of_res (tenantOf subj)) (\<lambda>tenantID.
     bnd (map_err mbMapErr (GetMailbox tenantID ident)) (\<lambda>m0.
     bnd (fetch ucd) (\<lambda>u.
     bnd (of_res (applyMailbox u inp m0)) (\<lambda>m.
     bnd (mbWrite subj MailboxUpdate ident MbConflict ''conflict'' (UpdateMailbox m)) (\<lambda>_.
     bnd (map_err mbMapErr (GetMailbox tenantID ident)) (\<lambda>stored.
     bnd (auditMailbox subj MailboxUpdate ident OutcomeOK (mbSettings stored)) (\<lambda>_.
     ret stored)))))))"

definition mbDelete :: "subjects \<Rightarrow> string \<Rightarrow> bool \<Rightarrow> ('a world_scheme, unit) op" where
  "mbDelete subj ident force =
     bnd (of_res (tenantOf subj)) (\<lambda>tenantID.
     bnd (mbWrite subj MailboxDelete ident MbInUse ''in_use'' (DeleteMailbox tenantID ident force)) (\<lambda>_.
     auditMailbox subj MailboxDelete ident OutcomeOK [(''force'', VBool force)]))"

lemma mailbox_service_ok [keeps]:
  "preserves store_ok (auditMailbox subj ev i oc ds)"
  "preserves store_ok (mbList S W subj req)"
  "preserves store_ok (mbGet subj i)"
  "preserves store_ok (mbCreate subj inp)"
  "preserves store_ok (mbUpdate subj i inp)"
  "preserves store_ok (mbDelete subj i force)"
  unfolding auditMailbox_def mbList_def mbGet_def mbCreate_def mbUpdate_def mbDelete_def mbWrite_def
  by (intro keeps)+

section \<open>A created mailbox is the route of its address\<close>

lemma applyMailbox_keeps:
  assumes "applyMailbox u inp m = Inr m'"
  shows "mbID m' = mbID m" "mbTenantID m' = mbTenantID m" "mbCreatedAt m' = mbCreatedAt m" "mbUpdatedAt m' = mbUpdatedAt m"
    "mbiAddress inp = Some v \<Longrightarrow> NormalizeAddress u v = Inr (mbAddress m')"
  using assms
  by (auto simp: applyMailbox_def applyAddress_def applyDisplayName_def applyTemplate_def Let_def split: sum.splits option.splits if_splits)

lemma route_unique:
  assumes "failNext w = []" "mb \<in> set (rows (mailboxes (db w)))" "\<forall>x \<in> set (rows (mailboxes (db w))). mbAddress x = mbAddress mb \<longrightarrow> x = mb"
    "normAddr (ucd w) a = mbAddress mb" "mbAddress mb \<noteq> []"
  shows "RouteMailbox a w = (Inr \<lparr>rtTenantID = mbTenantID mb, rtMailboxID = mbID mb, rtDisplayName = mbDisplayName mb,
     rtActive = mbActive mb, rtAutoAck = mbAutoAck mb, rtAutoAckTemplate = mbAutoAckTemplate mb\<rparr>, w)"
proof -
  have "find (\<lambda>x. mbAddress x = mbAddress mb) (rows (mailboxes (db w))) = Some mb"
  proof (cases "find (\<lambda>x. mbAddress x = mbAddress mb) (rows (mailboxes (db w)))")
    case None
    with assms(2) show ?thesis by (auto simp: find_None_iff)
  next
    case (Some x)
    then have "x \<in> set (rows (mailboxes (db w)))" "mbAddress x = mbAddress mb" by (auto simp: find_Some_iff)
    with Some assms(3) show ?thesis by simp
  qed
  with assms show ?thesis by (simp add: RouteMailbox_def run)
qed

definition routed :: "string \<Rightarrow> time \<Rightarrow> mailbox \<Rightarrow> 'a mem_scheme \<Rightarrow> 'a mem_scheme" where
  "routed address now mb w = w\<lparr>ticks := Suc (ticks w),
     db := (db w)\<lparr>mailboxes := AList.update (mbID mb) (storedMailbox address now mb) (mailboxes (db w))\<rparr>\<rparr>"

lemma routed_frame [simp]:
  "db (routed a now mb w) = (db w)\<lparr>mailboxes := AList.update (mbID mb) (storedMailbox a now mb) (mailboxes (db w))\<rparr>"
  "failNext (routed a now mb w) = failNext w" "ucd (routed a now mb w) = ucd w"
  by (simp_all add: routed_def)

lemma unarmed_CreateMailbox:
  assumes "failNext w = []"
  shows "CreateMailbox mb w = (let a = normAddr (ucd w) (mbAddress mb) in
    if map_of (mailboxes (db w)) (mbID mb) \<noteq> None \<or> addressTaken (mailboxes (db w)) (mbID mb) a then (Inl RepoConflict, w)
    else (Inr (), routed a (clock w (ticks w)) mb w))"
  using assms by (simp add: CreateMailbox_def run routed_def Let_def)

lemma unarmed_GetMailbox: "failNext w = [] \<Longrightarrow> GetMailbox tn i w = (mailbox_of (db w) tn i, w)"
  by (simp add: GetMailbox_def run)

lemma storedMailbox_fields [simp]:
  "mbID (storedMailbox a now mb) = mbID mb" "mbTenantID (storedMailbox a now mb) = mbTenantID mb"
  "mbAddress (storedMailbox a now mb) = a"
  by (simp_all add: storedMailbox_def Let_def)

text \<open>
  C36: creating a mailbox claims its address for exactly one tenant. With no store failure,
  \<open>Create\<close> changes nothing when it fails; when it succeeds the given address was a valid bare
  address, no mailbox of any tenant had it, one row of the caller's tenant is added, and mail to the
  address, in whatever spelling normalises to it, is routed to that row.
\<close>

theorem mbCreate_routes:
  assumes ok: "store_ok w" and calm: "failNext w = []" and tn: "suTenantID s = tn" "tn \<noteq> []" and v: "mbiAddress inp = Some v"
  shows "case mbCreate s inp w of
      (Inl e, w') \<Rightarrow> db w' = db w
    | (Inr m, w') \<Rightarrow> (\<exists>a. NormalizeAddress (ucd w) v = Inr a \<and> mbAddress m = normAddr (ucd w) a) \<and>
        mbTenantID m = tn \<and> (\<forall>x \<in> set (rows (mailboxes (db w))). mbAddress x \<noteq> mbAddress m) \<and>
        db w' = (db w)\<lparr>mailboxes := AList.update (mbID m) m (mailboxes (db w))\<rparr> \<and>
        (\<forall>a. normAddr (ucd w) a = mbAddress m \<and> mbAddress m \<noteq> [] \<longrightarrow>
          RouteMailbox a w' = (Inr \<lparr>rtTenantID = tn, rtMailboxID = mbID m, rtDisplayName = mbDisplayName m,
            rtActive = mbActive m, rtAutoAck = mbAutoAck m, rtAutoAckTemplate = mbAutoAckTemplate m\<rparr>, w'))"
proof (cases "applyMailbox (ucd w) inp (newMailbox (mintID w) tn)")
  case (Inl e)
  with assms show ?thesis by (simp add: mbCreate_def tenantOf_def run)
next
  case (Inr m)
  define addr where "addr = normAddr (ucd w) (mbAddress m)"
  define m' where "m' = storedMailbox addr (clock (afterID w) (ticks (afterID w))) m"
  have m: "mbID m = mintID w" "mbTenantID m = tn" "NormalizeAddress (ucd w) v = Inr (mbAddress m)"
    using applyMailbox_keeps [OF Inr] v by (simp_all add: newMailbox_def)
  show ?thesis
  proof (cases "map_of (mailboxes (db w)) (mintID w) \<noteq> None \<or> addressTaken (mailboxes (db w)) (mintID w) addr")
    case True
    with assms Inr m show ?thesis
      by (simp add: mbCreate_def tenantOf_def run run_attempt bnd_assoc mbWrite_def unarmed_CreateMailbox auditMailbox_def addr_def [symmetric])
  next
    case False
    have free: "mbAddress x \<noteq> addr" if x: "x \<in> set (rows (mailboxes (db w)))" for x
    proof -
      have "mbID x \<noteq> mintID w"
        using x False rows_lookup_iff [OF mem_invD(6) [OF ok [unfolded store_ok_def]]] by auto
      then show ?thesis using x False by (auto simp: addressTaken_def)
    qed
    define w' where "w' = snd (mbCreate s inp w)"
    have run': "mbCreate s inp w = (Inr m', w')" "failNext w' = []" "ucd w' = ucd w"
        "db w' = (db w)\<lparr>mailboxes := AList.update (mbID m') m' (mailboxes (db w))\<rparr>"
      using assms Inr m False unfolding w'_def
      by (simp_all add: mbCreate_def tenantOf_def run run_attempt bnd_assoc mbWrite_def unarmed_CreateMailbox unarmed_GetMailbox
          auditMailbox_def addr_def [symmetric] m'_def mailbox_of_def scoped_def update_conv)
    have m'': "mbTenantID m' = tn" "mbAddress m' = addr" by (simp_all add: m'_def m)
    have rows': "rows (mailboxes (db w')) = rows (mailboxes (db w)) @ [m']"
      using False m by (simp add: run' rows_update_new m'_def)
    have "RouteMailbox a w' = (Inr \<lparr>rtTenantID = tn, rtMailboxID = mbID m', rtDisplayName = mbDisplayName m',
            rtActive = mbActive m', rtAutoAck = mbAutoAck m', rtAutoAckTemplate = mbAutoAckTemplate m'\<rparr>, w')"
      if "normAddr (ucd w) a = mbAddress m'" "mbAddress m' \<noteq> []" for a
      unfolding m''(1) [symmetric]
      by (rule route_unique) (use that free run'(2,3) m'' in \<open>auto simp: rows'\<close>)
    then show ?thesis using run' free m by (auto simp: m'_def addr_def)
  qed
qed

definition demo_mailbox_input :: mailbox_input where
  "demo_mailbox_input = \<lparr>mbiAddress = Some '' Sales@Acme.io'', mbiDisplayName = None, mbiActive = None, mbiAutoAck = Some True, mbiAutoAckTemplate = None\<rparr>"

theorem mbCreate_routes_witness:
  "\<exists>m w'. mbCreate demo_agent demo_mailbox_input demo_world = (Inr m, w') \<and> mbAddress m = ''sales@acme.io'' \<and>
     RouteMailbox ''SALES@acme.io'' w' = (Inr \<lparr>rtTenantID = ''acme'', rtMailboxID = mbID m, rtDisplayName = mbDisplayName m,
            rtActive = mbActive m, rtAutoAck = mbAutoAck m, rtAutoAckTemplate = mbAutoAckTemplate m\<rparr>, w')"
proof -
  have n: "NormalizeAddress ascii_tables '' Sales@Acme.io'' = Inr ''sales@acme.io''"
    "normAddr ascii_tables ''sales@acme.io'' = ''sales@acme.io''" "normAddr ascii_tables ''SALES@acme.io'' = ''sales@acme.io''"
    by (simp_all add: NormalizeAddress_def normAddr_def str_eval MaxAddress_def hasControl_def IsControl_def ValidString_ascii bareAddress_def
        dotAtom_def isAtext_def before_first_def Let_def)
  have "map_of (mailboxes demo_tables) (mintID demo_world) = None"
    using length_mintID [of demo_world] by (auto simp: demo_tables_def simp del: length_mintID)
  moreover have "\<not> addressTaken (mailboxes demo_tables) i ''sales@acme.io''" for i
    by (simp add: addressTaken_def demo_tables_def rows_def demo_mailbox_def)
  ultimately obtain m w' where r: "mbCreate demo_agent demo_mailbox_input demo_world = (Inr m, w')"
    using n by (simp add: mbCreate_def tenantOf_def run run_attempt bnd_assoc mbWrite_def unarmed_CreateMailbox unarmed_GetMailbox
        applyMailbox_def applyAddress_def applyDisplayName_def applyTemplate_def demo_mailbox_input_def newMailbox_def
        auditMailbox_def mailbox_of_def scoped_def update_conv Let_def)
  have "store_ok demo_world" using demo_ok by (simp add: demo_world_defs store_ok_def)
  then show ?thesis
    using mbCreate_routes [of demo_world demo_agent "''acme''" demo_mailbox_input "'' Sales@Acme.io''"] r n
    by (auto simp: demo_mailbox_input_def)
qed

end
