(* ===== verification/GoUtf8.thy ===== *)
theory GoUtf8
  imports GoStrings
begin

text \<open>
  UTF-8 as a code: decoding what \<open>utf8.EncodeRune\<close> wrote gives the rune back, a valid string is
  the encoding of its runes, and the helpers that repair or shorten strings stay within UTF-8.
\<close>

section \<open>Encoding and decoding\<close>

definition valid_rune :: "rune \<Rightarrow> bool" where
  "valid_rune r \<longleftrightarrow> r < 0x110000 \<and> \<not> (0xD800 \<le> r \<and> r \<le> 0xDFFF)"

definition encode :: "rune list \<Rightarrow> string" where
  "encode rs = concat (map EncodeRune rs)"

lemma encode_simps [simp]: "encode [] = []" "encode (r # rs) = EncodeRune r @ encode rs" "encode (rs @ rs') = encode rs @ encode rs'"
  by (simp_all add: encode_def)

lemma split64: "(r :: nat) div 64 * 64 + r mod 64 = r"
  by (rule div_mult_mod_eq)

lemma enc_bytes_less: "valid_rune r \<Longrightarrow> b \<in> set (enc_bytes r) \<Longrightarrow> b < 256"
  by (auto simp: enc_bytes_def valid_rune_def split: if_splits)

lemma decode_enc2:
  assumes "0x80 \<le> r" "r < 0x800"
  shows "decode ([0xC0 + r div 64, 0x80 + r mod 64] @ bs) = (r, 2)"
proof -
  define a b where "a = r div 64" and "b = r mod 64"
  have r: "a * 64 + b = r" "b < 64" unfolding a_def b_def by (rule split64) simp
  then have a: "2 \<le> a" "a < 32" using assms by linarith+
  have "second_ok (0xC0 + a) (0x80 + b)" using r(2) a by (simp add: second_ok_def cont_def)
  then show ?thesis using a unfolding a_def [symmetric] b_def [symmetric] by (simp add: r(1))
qed

lemma decode_enc3:
  assumes "0x800 \<le> r" "r < 0x10000" "\<not> (0xD800 \<le> r \<and> r \<le> 0xDFFF)"
  shows "decode ([0xE0 + r div 4096, 0x80 + r div 64 mod 64, 0x80 + r mod 64] @ bs) = (r, 3)"
proof -
  define a b c where "a = r div 4096" and "b = r div 64 mod 64" and "c = r mod 64"
  have "r div 64 div 64 = a" unfolding a_def by (simp add: div_mult2_eq [of r 64 64, simplified])
  then have "a * 64 + b = r div 64" using split64 [of "r div 64"] by (simp add: b_def)
  then have r: "a * 4096 + b * 64 + c = r" using split64 [of r] unfolding c_def by linarith
  have bc: "b < 64" "c < 64" by (simp_all add: b_def c_def)
  have a: "a < 16" using assms r by linarith
  have "a = 0 \<Longrightarrow> 32 \<le> b" "a = 13 \<Longrightarrow> b \<le> 31" using assms r bc by linarith+
  then have "second_ok (0xE0 + a) (0x80 + b)" "cont (0x80 + c)" using a bc by (simp_all add: second_ok_def cont_def)
  then show ?thesis using a unfolding a_def [symmetric] b_def [symmetric] c_def [symmetric] by (simp add: r)
qed

lemma decode_enc4:
  assumes "0x10000 \<le> r" "r < 0x110000"
  shows "decode ([0xF0 + r div 262144, 0x80 + r div 4096 mod 64, 0x80 + r div 64 mod 64, 0x80 + r mod 64] @ bs) = (r, 4)"
proof -
  define a b c d where "a = r div 262144" and "b = r div 4096 mod 64" and "c = r div 64 mod 64" and "d = r mod 64"
  have "r div 4096 div 64 = a" "r div 64 div 64 = r div 4096"
    unfolding a_def by (simp_all add: div_mult2_eq [of r 64 64, simplified] div_mult2_eq [of r 4096 64, simplified])
  then have "a * 64 + b = r div 4096" "r div 4096 * 64 + c = r div 64"
    using split64 [of "r div 4096"] split64 [of "r div 64"] by (simp_all add: b_def c_def)
  then have r: "a * 262144 + b * 4096 + c * 64 + d = r" using split64 [of r] unfolding d_def by linarith
  have bcd: "b < 64" "c < 64" "d < 64" by (simp_all add: b_def c_def d_def)
  have a: "a < 5" using assms r by linarith
  have "a = 0 \<Longrightarrow> 16 \<le> b" "a = 4 \<Longrightarrow> b \<le> 15" using assms r bcd by linarith+
  then have "second_ok (0xF0 + a) (0x80 + b)" "cont (0x80 + c)" "cont (0x80 + d)"
    using a bcd by (simp_all add: second_ok_def cont_def)
  then show ?thesis
    using a unfolding a_def [symmetric] b_def [symmetric] c_def [symmetric] d_def [symmetric] by (simp add: r)
qed

lemma decode_enc:
  assumes "valid_rune r"
  shows "decode (enc_bytes r @ bs) = (r, length (enc_bytes r))"
proof -
  consider "r < 0x80" | "0x80 \<le> r" "r < 0x800" | "0x800 \<le> r" "r < 0x10000" | "0x10000 \<le> r" by linarith
  then show ?thesis
  proof cases
    case 2
    then show ?thesis using decode_enc2 [of r bs] by (simp add: enc_bytes_def)
  next
    case 3
    then show ?thesis using decode_enc3 [of r bs] assms by (simp add: enc_bytes_def valid_rune_def)
  next
    case 4
    then show ?thesis using decode_enc4 [of r bs] assms by (simp add: enc_bytes_def valid_rune_def)
  qed (simp add: enc_bytes_def)
qed

lemma enc_bytes_ne [simp]: "enc_bytes r \<noteq> []"
  by (simp add: enc_bytes_def)

lemma map_byte_EncodeRune: "valid_rune r \<Longrightarrow> map byte (EncodeRune r) = enc_bytes r"
  by (auto simp: EncodeRune_def comp_def intro!: map_idI dest: enc_bytes_less)

lemma DecodeRune_Encode: "valid_rune r \<Longrightarrow> DecodeRune (EncodeRune r @ s) = (r, length (EncodeRune r))"
  by (simp add: DecodeRune_def map_byte_EncodeRune decode_enc) (simp add: EncodeRune_def)

lemma EncodeRune_ne [simp]: "EncodeRune r \<noteq> []"
  by (simp add: EncodeRune_def)

lemma chunks_decode: "s \<noteq> [] \<Longrightarrow> DecodeRune s = (r, n) \<Longrightarrow> chunks s = (r, take n s) # chunks (drop n s)"
  by (cases s) (simp_all add: chunks.simps(2))

lemma chunks_Encode: "valid_rune r \<Longrightarrow> chunks (EncodeRune r @ s) = (r, EncodeRune r) # chunks s"
  using DecodeRune_Encode [of r s] by (simp add: chunks_decode)

lemma chunks_encode_append:
  "\<forall>r \<in> set rs. valid_rune r \<Longrightarrow> chunks (encode rs @ s) = map (\<lambda>r. (r, EncodeRune r)) rs @ chunks s"
  by (induction rs) (simp_all add: chunks_Encode)

lemma chunks_encode: "\<forall>r \<in> set rs. valid_rune r \<Longrightarrow> chunks (encode rs) = map (\<lambda>r. (r, EncodeRune r)) rs"
  using chunks_encode_append [of rs "[]"] by simp

lemma runes_encode: "\<forall>r \<in> set rs. valid_rune r \<Longrightarrow> runes (encode rs) = rs"
  by (simp add: runes_def chunks_encode comp_def)

lemma runes_encode_append: "\<forall>r \<in> set rs. valid_rune r \<Longrightarrow> runes (encode rs @ s) = rs @ runes s"
  by (simp add: runes_def chunks_encode_append comp_def)

lemma length_EncodeRune: "length (EncodeRune r) = (if r < 0x80 then 1 else if r < 0x800 then 2
    else if (0xD800 \<le> r \<and> r \<le> 0xDFFF) \<or> 0x110000 \<le> r then 3 else if r < 0x10000 then 3 else 4)"
  by (simp add: EncodeRune_def enc_bytes_def)

lemma ValidString_encode: "\<forall>r \<in> set rs. valid_rune r \<Longrightarrow> ValidString (encode rs)"
  by (auto simp: ValidString_def chunks_encode length_EncodeRune RuneError_def)

text \<open>What is not a replacement rune of width one is the encoding of its rune.\<close>

lemma join64: "(b :: nat) < 64 \<Longrightarrow> (a * 64 + b) div 64 = a" "(b :: nat) < 64 \<Longrightarrow> (a * 64 + b) mod 64 = b"
  by simp_all

lemma enc_bytes2:
  assumes "2 \<le> a" "a < 32" "b < 64"
  shows "enc_bytes (a * 64 + b) = [0xC0 + a, 0x80 + b]" "valid_rune (a * 64 + b)"
proof -
  have "0x80 \<le> a * 64 + b" "a * 64 + b < 0x800" using assms by linarith+
  then show "enc_bytes (a * 64 + b) = [0xC0 + a, 0x80 + b]" "valid_rune (a * 64 + b)"
    using join64 [OF assms(3), of a] by (simp_all add: enc_bytes_def valid_rune_def)
qed

lemma enc_bytes3:
  assumes "a < 16" "b < 64" "c < 64" "a = 0 \<Longrightarrow> 32 \<le> b" "a = 13 \<Longrightarrow> b < 32"
  shows "enc_bytes (a * 4096 + b * 64 + c) = [0xE0 + a, 0x80 + b, 0x80 + c]" "valid_rune (a * 4096 + b * 64 + c)"
proof -
  let ?r = "a * 4096 + b * 64 + c"
  have q: "?r = (a * 64 + b) * 64 + c" by simp
  have d: "?r div 64 = a * 64 + b" "?r mod 64 = c" unfolding q using assms(3) by (rule join64)+
  have "?r div 4096 = ?r div 64 div 64" by (simp add: div_mult2_eq [of _ 64 64, simplified])
  then have e: "?r div 4096 = a" using d(1) join64(1) [OF assms(2)] by simp
  have lo: "0x800 \<le> ?r" using assms by (cases "a = 0") linarith+
  have hi: "?r < 0x10000" using assms by linarith
  have sur: "\<not> (0xD800 \<le> ?r \<and> ?r \<le> 0xDFFF)"
  proof (cases "a = 13")
    case True
    with assms(3) assms(5) show ?thesis by linarith
  next
    case False
    then have "a \<le> 12 \<or> 14 \<le> a" by linarith
    then show ?thesis using assms(2,3) by linarith
  qed
  have m: "?r div 64 mod 64 = b" using d(1) join64(2) [OF assms(2)] by simp
  from lo hi sur show "enc_bytes ?r = [0xE0 + a, 0x80 + b, 0x80 + c]" "valid_rune ?r"
    unfolding enc_bytes_def valid_rune_def e m d(2) by simp_all
qed

lemma enc_bytes4:
  assumes "a < 5" "b < 64" "c < 64" "d < 64" "a = 0 \<Longrightarrow> 16 \<le> b" "a = 4 \<Longrightarrow> b < 16"
  shows "enc_bytes (a * 262144 + b * 4096 + c * 64 + d) = [0xF0 + a, 0x80 + b, 0x80 + c, 0x80 + d]"
    "valid_rune (a * 262144 + b * 4096 + c * 64 + d)"
proof -
  let ?r = "a * 262144 + b * 4096 + c * 64 + d"
  have q: "?r = ((a * 64 + b) * 64 + c) * 64 + d" by simp
  have d: "?r div 64 = (a * 64 + b) * 64 + c" "?r mod 64 = d" unfolding q using assms(4) by (rule join64)+
  have "?r div 4096 = ?r div 64 div 64" by (simp add: div_mult2_eq [of _ 64 64, simplified])
  then have e: "?r div 4096 = a * 64 + b" using d(1) join64(1) [OF assms(3)] by simp
  have "?r div 262144 = ?r div 4096 div 64" by (simp add: div_mult2_eq [of _ 4096 64, simplified])
  then have f: "?r div 262144 = a" using e join64(1) [OF assms(2)] by simp
  have lo: "0x10000 \<le> ?r" using assms by (cases "a = 0") linarith+
  have hi: "?r < 0x110000" using assms by (cases "a = 4") linarith+
  have m: "?r div 64 mod 64 = c" "?r div 4096 mod 64 = b"
    unfolding d(1) e by (rule join64(2) [OF assms(3)], rule join64(2) [OF assms(2)])
  from lo hi show "enc_bytes ?r = [0xF0 + a, 0x80 + b, 0x80 + c, 0x80 + d]" "valid_rune ?r"
    unfolding enc_bytes_def valid_rune_def f m d(2) by simp_all
qed

lemma second_okD:
  assumes "second_ok b0 b1"
  shows "0x80 \<le> b1" "b1 \<le> 0xBF" "b0 = 0xE0 \<Longrightarrow> 0xA0 \<le> b1" "b0 = 0xED \<Longrightarrow> b1 \<le> 0x9F"
    "b0 = 0xF0 \<Longrightarrow> 0x90 \<le> b1" "b0 = 0xF4 \<Longrightarrow> b1 \<le> 0x8F"
  using assms by (simp_all add: second_ok_def cont_def split: if_splits)

lemma decode_valid:
  assumes "decode bs = (r, n)" "bs \<noteq> []" "\<not> (r = RuneError \<and> n = 1)"
  shows "valid_rune r \<and> take n bs = enc_bytes r"
proof -
  obtain b0 cs where bs: "bs = b0 # cs" using assms(2) by (cases bs) auto
  consider "b0 < 0x80" | "0xC2 \<le> b0" "b0 \<le> 0xDF" | "0xE0 \<le> b0" "b0 \<le> 0xEF" | "0xF0 \<le> b0" "b0 \<le> 0xF4"
    using assms bs by (auto split: if_splits)
  then show ?thesis
  proof cases
    case 1
    with assms bs show ?thesis by (auto simp: enc_bytes_def valid_rune_def)
  next
    case 2
    obtain b1 ds where cs: "cs = b1 # ds" "second_ok b0 b1" using assms bs 2 by (auto split: list.splits if_splits)
    define a b where "a = b0 - 0xC0" and "b = b1 - 0x80"
    have ab: "b0 = 0xC0 + a" "b1 = 0x80 + b" "2 \<le> a" "a < 32" "b < 64"
      using 2 second_okD(1,2) [OF cs(2)] unfolding a_def b_def by linarith+
    then have "r = a * 64 + b" "n = 2" using assms bs cs by simp_all
    then show ?thesis using enc_bytes2 [OF ab(3-5)] bs cs ab by simp
  next
    case 3
    obtain b1 b2 ds where cs: "cs = b1 # b2 # ds" "second_ok b0 b1" "cont b2"
      using assms bs 3 by (auto split: list.splits if_splits)
    define a b c where "a = b0 - 0xE0" and "b = b1 - 0x80" and "c = b2 - 0x80"
    have ab: "b0 = 0xE0 + a" "b1 = 0x80 + b" "b2 = 0x80 + c" "a < 16" "b < 64" "c < 64" "a = 0 \<Longrightarrow> 32 \<le> b" "a = 13 \<Longrightarrow> b < 32"
      using 3 cs(3) second_okD(1-4) [OF cs(2)] unfolding a_def b_def c_def cont_def by linarith+
    then have "r = a * 4096 + b * 64 + c" "n = 3" using assms bs cs by simp_all
    then show ?thesis using enc_bytes3 [OF ab(4-8)] bs cs ab(1-3) by simp
  next
    case 4
    obtain b1 b2 b3 ds where cs: "cs = b1 # b2 # b3 # ds" "second_ok b0 b1" "cont b2" "cont b3"
      using assms bs 4 by (auto split: list.splits if_splits)
    define a b c d where "a = b0 - 0xF0" and "b = b1 - 0x80" and "c = b2 - 0x80" and "d = b3 - 0x80"
    have ab: "b0 = 0xF0 + a" "b1 = 0x80 + b" "b2 = 0x80 + c" "b3 = 0x80 + d" "a < 5" "b < 64" "c < 64" "d < 64"
        "a = 0 \<Longrightarrow> 16 \<le> b" "a = 4 \<Longrightarrow> b < 16"
      using 4 cs(3,4) second_okD(1,2,5,6) [OF cs(2)] unfolding a_def b_def c_def d_def cont_def by linarith+
    then have "r = a * 262144 + b * 4096 + c * 64 + d" "n = 4" using assms bs cs by simp_all
    then show ?thesis using enc_bytes4 [OF ab(5-10)] bs cs ab(1-4) by simp
  qed
qed

lemma map_char_byte [simp]: "map (char_of \<circ> byte) s = s"
  by (simp add: byte_def comp_def)

lemma DecodeRune_valid:
  assumes "DecodeRune s = (r, n)" "s \<noteq> []" "\<not> (r = RuneError \<and> n = 1)"
  shows "valid_rune r" "take n s = EncodeRune r"
proof -
  have v: "valid_rune r \<and> take n (map byte s) = enc_bytes r"
    using assms by (intro decode_valid) (simp_all add: DecodeRune_def)
  then show "valid_rune r" by simp
  have "map char_of (take n (map byte s)) = take n s"
    by (simp add: take_map)
  with v show "take n s = EncodeRune r" by (simp add: EncodeRune_def)
qed

lemma chunk_valid: "(r, b) \<in> set (chunks s) \<Longrightarrow> \<not> (r = RuneError \<and> length b = 1) \<Longrightarrow> valid_rune r \<and> b = EncodeRune r"
proof (induction s rule: chunks.induct)
  case (2 c s)
  obtain q n where qn: "DecodeRune (c # s) = (q, n)" by fastforce
  then have n: "0 < n" "n \<le> length (c # s)" using DecodeRune_width [of "c # s"] by simp_all
  show ?case
  proof (cases "(r, b) \<in> set (chunks (drop n (c # s)))")
    case True
    then show ?thesis using 2 qn by metis
  next
    case False
    then have rb: "r = q" "b = take n (c # s)" using 2(2) by (auto simp: chunks_decode [OF _ qn])
    then have "\<not> (q = RuneError \<and> n = 1)" using 2(3) n by auto
    then show ?thesis using DecodeRune_valid [OF qn] rb by simp
  qed
qed simp

lemma ValidString_chunks:
  assumes "ValidString s"
  shows "\<forall>r \<in> set (runes s). valid_rune r" and "chunks s = map (\<lambda>r. (r, EncodeRune r)) (runes s)" and "encode (runes s) = s"
proof -
  have c: "valid_rune r \<and> b = EncodeRune r" if "(r, b) \<in> set (chunks s)" for r b
    using assms that chunk_valid by (auto simp: ValidString_def)
  then show "\<forall>r \<in> set (runes s). valid_rune r" by (auto simp: runes_def)
  show eq: "chunks s = map (\<lambda>r. (r, EncodeRune r)) (runes s)"
    unfolding runes_def map_map comp_def by (rule map_idI [symmetric]) (use c in auto)
  have "encode (runes s) = concat (map snd (chunks s))" by (subst eq) (simp add: encode_def comp_def)
  then show "encode (runes s) = s" by simp
qed

lemma RuneCount_runes: "RuneCountInString s = length (runes s)"
  by (simp add: RuneCountInString_def runes_def)

section \<open>Functions that stay within UTF-8\<close>

definition fixRune :: "rune \<Rightarrow> rune" where
  "fixRune r = (if valid_rune r then r else RuneError)"

lemma valid_fixRune [simp]: "valid_rune (fixRune r)"
  by (simp add: fixRune_def valid_rune_def RuneError_def)

lemma fixRune_valid [simp]: "valid_rune r \<Longrightarrow> fixRune r = r"
  by (simp add: fixRune_def)

lemma EncodeRune_fix: "EncodeRune (fixRune r) = EncodeRune r"
proof (cases "valid_rune r")
  case False
  then have "(0xD800 \<le> r \<and> r \<le> 0xDFFF) \<or> 0x110000 \<le> r" by (auto simp: valid_rune_def)
  then have "enc_bytes r = [0xEF, 0xBF, 0xBD]" by (auto simp: enc_bytes_def)
  moreover have "enc_bytes RuneError = [0xEF, 0xBF, 0xBD]" by (simp add: enc_bytes_def RuneError_def)
  ultimately show ?thesis using False by (simp add: EncodeRune_def fixRune_def)
qed simp

lemma encode_fix: "encode (map fixRune rs) = encode rs"
  by (simp add: encode_def comp_def EncodeRune_fix)

lemma encode_any: "ValidString (encode rs)" "runes (encode rs) = map fixRune rs"
  using ValidString_encode [of "map fixRune rs"] runes_encode [of "map fixRune rs"] by (simp_all add: encode_fix)

lemma Map_encode: "Map f s = encode (List.map_filter f (runes s))"
proof -
  have "concat (map (\<lambda>r. case f r of None \<Rightarrow> [] | Some r' \<Rightarrow> EncodeRune r') rs) = encode (List.map_filter f rs)" for rs
    by (induction rs) (simp_all add: List.map_filter_simps split: option.splits)
  then show ?thesis by (simp add: Map_def)
qed

lemma Map_valid: "ValidString (Map f s)" "runes (Map f s) = map fixRune (List.map_filter f (runes s))"
  by (simp_all add: Map_encode encode_any)

lemma TrimSpace_encode:
  assumes "ValidString s"
  shows "TrimSpace s = encode (trim_list IsSpace (runes s))"
proof -
  have "trim_list (IsSpace \<circ> fst) (chunks s) = map (\<lambda>r. (r, EncodeRune r)) (trim_list IsSpace (runes s))"
    unfolding ValidString_chunks(2) [OF assms] trim_list_map by (simp add: comp_def)
  then show ?thesis by (simp add: TrimSpace_def encode_def comp_def)
qed

lemma TrimSpace_valid:
  assumes "ValidString s"
  shows "ValidString (TrimSpace s)" "runes (TrimSpace s) = trim_list IsSpace (runes s)"
proof -
  show "ValidString (TrimSpace s)" unfolding TrimSpace_encode [OF assms] by (rule encode_any)
  have "\<forall>r \<in> set (trim_list IsSpace (runes s)). valid_rune r"
    using set_trim_list [of IsSpace "runes s"] ValidString_chunks(1) [OF assms] by auto
  then show "runes (TrimSpace s) = trim_list IsSpace (runes s)" unfolding TrimSpace_encode [OF assms] by (rule runes_encode)
qed

lemma ValidString_append:
  assumes "ValidString s" "ValidString t"
  shows "ValidString (s @ t)" "runes (s @ t) = runes s @ runes t"
proof -
  have e: "s @ t = encode (runes s @ runes t)" using assms by (simp add: ValidString_chunks(3))
  have v: "\<forall>r \<in> set (runes s @ runes t). valid_rune r" using assms ValidString_chunks(1) by auto
  show "ValidString (s @ t)" unfolding e by (rule ValidString_encode [OF v])
  show "runes (s @ t) = runes s @ runes t" using runes_encode [OF v] unfolding e [symmetric] .
qed

lemma runes_Nil [simp]: "runes [] = []" and ValidString_Nil [simp]: "ValidString []"
  by (simp_all add: runes_def ValidString_def)

text \<open>\<open>strings.ToValidUTF8\<close>: each run of invalid bytes becomes one replacement.\<close>

fun repair :: "string \<Rightarrow> bool \<Rightarrow> (rune \<times> string) list \<Rightarrow> string" where
  "repair rep invalid [] = []"
| "repair rep invalid ((r, b) # cs) =
     (if r = RuneError \<and> length b = 1 then (if invalid then [] else rep) @ repair rep True cs
      else b @ repair rep False cs)"

definition ToValidUTF8 :: "string \<Rightarrow> string \<Rightarrow> string" where
  "ToValidUTF8 s rep = repair rep False (chunks s)"

lemma ToValidUTF8_valid:
  assumes "ValidString rep"
  shows "ValidString (ToValidUTF8 s rep)"
proof -
  have e: "ValidString (EncodeRune r)" for r using encode_any(1) [of "[r]"] by simp
  have "ValidString (repair rep i cs)" if "\<forall>(r, b) \<in> set cs. \<not> (r = RuneError \<and> length b = 1) \<longrightarrow> b = EncodeRune r" for i cs
    using that assms
  proof (induction cs arbitrary: i)
    case (Cons x cs)
    obtain r b where x: "x = (r, b)" by fastforce
    with Cons e [of r] show ?case by (auto intro!: ValidString_append(1))
  qed simp
  moreover have "\<forall>(r, b) \<in> set (chunks s). \<not> (r = RuneError \<and> length b = 1) \<longrightarrow> b = EncodeRune r"
    using chunk_valid by blast
  ultimately show ?thesis by (simp add: ToValidUTF8_def)
qed

end
