(* ===== verification/MailParse.thy ===== *)
theory MailParse
  imports GoUtf8 "HOL-Library.Word"
begin

text \<open>
  Parsing inbound mail (\<open>internal/mailparse\<close>): from raw bytes to the bounded, cleaned fields a
  ticket needs. What the Go runtime and its MIME packages compute on the way (reading the header
  block, splitting a multipart body, decoding transfer encodings, charsets and encoded words, parsing
  an address list or a float, unescaping HTML entities) is the parameter \<open>mime_lib\<close>: the bounds
  below hold whatever those functions return.
\<close>

unbundle bit_operations_syntax

section \<open>The library functions\<close>

type_synonym float64 = "64 word"
type_synonym header = "string \<Rightarrow> string list"
type_synonym mime_part = "header \<times> string"

record mime_lib =
  mlReadMessage :: "string \<Rightarrow> mime_part option"
  mlParseMediaType :: "string \<Rightarrow> (string \<times> (string \<Rightarrow> string)) \<times> bool"
  mlParts :: "string \<Rightarrow> string \<Rightarrow> mime_part list"
  mlDecodeHeader :: "string \<Rightarrow> string option"
  mlParseAddress :: "string \<Rightarrow> (string \<times> string) option"
  mlParseList :: "string \<Rightarrow> (string \<times> string) list option"
  mlBase64 :: "string \<Rightarrow> string option"
  mlQuotedPrintable :: "string \<Rightarrow> string option"
  mlDecoder :: "string \<Rightarrow> string \<Rightarrow> string option"
  mlParseFloat :: "string \<Rightarrow> float64 option"
  mlUnescape :: "string \<Rightarrow> string"
  mlTables :: unicode

text \<open>\<open>Header.Get\<close>: the first value of a key, empty when there is none.\<close>

definition hGet :: "header \<Rightarrow> string \<Rightarrow> string" where
  "hGet h k = (case h k of [] \<Rightarrow> [] | v # _ \<Rightarrow> v)"

text \<open>\<open>math.IsNaN(f) || math.IsInf(f, 0)\<close>: the exponent bits are all ones.\<close>

definition notFinite :: "float64 \<Rightarrow> bool" where
  "notFinite f \<longleftrightarrow> drop_bit 52 f AND 0x7ff = 0x7ff"

section \<open>Types and bounds\<close>

definition NoSubject :: string where "NoSubject = ''(no subject)''"
definition SkipTooLarge :: string where "SkipTooLarge = ''too_large''"

definition maxSubjectRunes :: nat where "maxSubjectRunes = 998"
definition maxNameRunes :: nat where "maxNameRunes = 200"
definition maxAddressBytes :: nat where "maxAddressBytes = 320"
definition maxIDBytes :: nat where "maxIDBytes = 998"
definition maxThreadIDs :: nat where "maxThreadIDs = 50"
definition maxFilename :: nat where "maxFilename = 200"

record limits =
  liMaxBodyBytes :: int
  liMaxTextBytes :: int
  liMaxAttachmentBytes :: int
  liMaxParts :: int
  liMaxDepth :: int

definition DefaultLimits :: limits where
  "DefaultLimits = \<lparr>liMaxBodyBytes = 10 * 2 ^ 20, liMaxTextBytes = 2 ^ 20, liMaxAttachmentBytes = 25 * 2 ^ 20,
     liMaxParts = 100, liMaxDepth = 10\<rparr>"

definition orDefaults :: "limits \<Rightarrow> limits" where
  "orDefaults l =
     (let d = DefaultLimits; pick = (\<lambda>f. if f l \<le> 0 then f d else (f l :: int))
      in \<lparr>liMaxBodyBytes = pick liMaxBodyBytes, liMaxTextBytes = pick liMaxTextBytes,
          liMaxAttachmentBytes = pick liMaxAttachmentBytes, liMaxParts = pick liMaxParts, liMaxDepth = pick liMaxDepth\<rparr>)"

record mail_attachment =
  maFilename :: string
  maContentType :: string
  maContentID :: string
  maInline :: bool
  maData :: string

record mail_skipped =
  mkFilename :: string
  mkSize :: int
  mkReason :: string

record message =
  msSubject :: string
  msFromName :: string
  msFromEmail :: string
  msTo :: "string list"
  msDeliveredTo :: "string list"
  msMessageID :: string
  msInReplyTo :: "string list"
  msReferences :: "string list"
  msAutoSubmitted :: string
  msPrecedence :: string
  msSpamScore :: float64
  msText :: string
  msHTML :: string
  msAttachments :: "mail_attachment list"
  msSkipped :: "mail_skipped list"
  msTruncated :: bool

definition emptyMessage :: message where
  "emptyMessage = \<lparr>msSubject = [], msFromName = [], msFromEmail = [], msTo = [], msDeliveredTo = [], msMessageID = [],
     msInReplyTo = [], msReferences = [], msAutoSubmitted = [], msPrecedence = [], msSpamScore = 0, msText = [],
     msHTML = [], msAttachments = [], msSkipped = [], msTruncated = False\<rparr>"

definition IsAuto :: "message \<Rightarrow> bool" where
  "IsAuto m \<longleftrightarrow>
     (msAutoSubmitted m \<noteq> [] \<and> msAutoSubmitted m \<noteq> ''no'') \<or>
     msPrecedence m \<in> {''bulk'', ''list'', ''junk'', ''auto_reply''}"

definition addThreadID :: "string \<Rightarrow> string list \<Rightarrow> string list" where
  "addThreadID i out = (if i \<noteq> [] \<and> i \<notin> set out \<and> length out < maxThreadIDs then out @ [i] else out)"

definition ThreadIDs :: "message \<Rightarrow> string list" where
  "ThreadIDs m = fold addThreadID (rev (msReferences m)) (fold addThreadID (msInReplyTo m) [])"

definition IsDaemonSender :: "unicode \<Rightarrow> string \<Rightarrow> bool" where
  "IsDaemonSender u from =
     (let f = ToLower u (TrimSpace from)
      in if f = [] then True
         else
         (let local = (if CHR ''@'' \<in> set f then before_first CHR ''@'' f else f)
          in \<exists>bad \<in> set [''mailer-daemon'', ''postmaster'', ''no-reply'', ''noreply'', ''do-not-reply'', ''donotreply'',
                ''autoreply'', ''auto-reply'', ''bounce'']. Contains local bad))"

section \<open>Cleaning helpers\<close>

definition replacement :: string where
  "replacement = EncodeRune RuneError"

definition headerSafe :: "string \<Rightarrow> bool" where
  "headerSafe v \<longleftrightarrow> ValidString v \<and> \<not> hasControl v False"

definition oneLine :: "string \<Rightarrow> string" where
  "oneLine v =
     Join (Fields (Map (\<lambda>r. if IsControl r then Some 0x20 else Some r) (ToValidUTF8 v replacement))) '' ''"

text \<open>\<open>utf8.RuneStart\<close>, and the loop of \<open>truncBytes\<close> back to the start of a rune.\<close>

definition RuneStart :: "char \<Rightarrow> bool" where
  "RuneStart c \<longleftrightarrow> \<not> cont (byte c)"

fun backToStart :: "string \<Rightarrow> nat \<Rightarrow> nat" where
  "backToStart v 0 = 0"
| "backToStart v (Suc n) = (if \<not> RuneStart (v ! Suc n) then backToStart v n else Suc n)"

definition truncBytes :: "string \<Rightarrow> int \<Rightarrow> string" where
  "truncBytes v n = (if int (length v) \<le> n then v else take (backToStart v (nat n)) v)"

definition truncRunes :: "string \<Rightarrow> nat \<Rightarrow> string" where
  "truncRunes v n = (if RuneCountInString v \<le> n then v else TrimSpace (encode (take n (runes v))))"

definition cleanBodyRune :: "rune \<Rightarrow> rune option" where
  "cleanBodyRune r =
     (if r = 0x0D then Some 0x0A else if r = 0x0A \<or> r = 0x09 then Some r else if IsControl r then None else Some r)"

definition mpCleanBody :: "limits \<Rightarrow> string \<Rightarrow> string" where
  "mpCleanBody lim v =
     (if v = [] then []
      else
      (let v1 = (if int (length v) > 4 * liMaxTextBytes lim then truncBytes v (4 * liMaxTextBytes lim) else v);
           v2 = ToValidUTF8 v1 replacement;
           v3 = ReplaceAll v2 [CHR 0x0D, CHR 0x0A] [CHR 0x0A];
           v4 = Map cleanBodyRune v3
       in TrimSpace (truncBytes (TrimSpace v4) (liMaxTextBytes lim))))"

text \<open>\<open>path.Base\<close>.\<close>

definition pathBase :: "string \<Rightarrow> string" where
  "pathBase p =
     (if p = [] then ''.''
      else
      (let q = TrimRight p ''/'';
           b = (case after_last CHR ''/'' q of None \<Rightarrow> q | Some x \<Rightarrow> x)
       in if b = [] then ''/'' else b))"

definition SafeFilename :: "string \<Rightarrow> string" where
  "SafeFilename name =
     (let n1 = ToValidUTF8 name ''_'';
          n2 = ReplaceAll n1 [CHR 0x5C] ''/'';
          n3 = pathBase n2;
          n4 = Map (\<lambda>r. if IsControl r then Some 0x5F else Some r) n3;
          n5 = TrimSpace (TrimLeft n4 ''. '')
      in if n5 = [] \<or> n5 = ''/'' then ''attachment'' else truncRunes n5 maxFilename)"

section \<open>Headers\<close>

text \<open>
  The match of \<open>reBracketAddr\<close>: the first bracketed \<open>local@domain\<close> whose parts are non-empty and
  have no angle bracket, white space or \<open>@\<close>. The character classes exclude the delimiters, so
  each run is taken whole.
\<close>

definition addrChar :: "char \<Rightarrow> bool" where
  "addrChar c \<longleftrightarrow> c \<notin> {CHR ''<'', CHR ''>'', CHR ''@'', CHR 0x09, CHR 0x0A, CHR 0x0C, CHR 0x0D, CHR '' ''}"

definition bracketAt :: "string \<Rightarrow> string option" where
  "bracketAt s =
     (let local = takeWhile addrChar s; r1 = dropWhile addrChar s
      in if local = [] \<or> r1 = [] \<or> hd r1 \<noteq> CHR ''@'' then None
         else
         (let domain = takeWhile addrChar (tl r1); r2 = dropWhile addrChar (tl r1)
          in if domain = [] \<or> r2 = [] \<or> hd r2 \<noteq> CHR ''>'' then None else Some (local @ ''@'' @ domain)))"

fun bracketAddress :: "string \<Rightarrow> string" where
  "bracketAddress [] = []"
| "bracketAddress (c # s) =
     (if c = CHR ''<'' then (case bracketAt s of Some a \<Rightarrow> a | None \<Rightarrow> bracketAddress s) else bracketAddress s)"

definition cleanAddress :: "unicode \<Rightarrow> string \<Rightarrow> string" where
  "cleanAddress u a =
     (let v = TrimSpace a
      in if v = [] \<or> length v > maxAddressBytes \<or> (\<exists>c \<in> set v. c \<in> {CHR '' '', CHR ''<'', CHR ''>'', CHR 0x22}) \<or> hasControl v False
         then [] else if \<not> bareAddress u v then [] else v)"

definition addressesOf :: "mime_lib \<Rightarrow> string \<Rightarrow> string list \<Rightarrow> string list" where
  "addressesOf ml v out =
     (case mlParseList ml v of
        None \<Rightarrow>
          (let a = cleanAddress (mlTables ml) (bracketAddress v); b = cleanAddress (mlTables ml) v
           in if a \<noteq> [] then out @ [a] else if b \<noteq> [] then out @ [b] else out)
      | Some l \<Rightarrow>
          fold (\<lambda>(_, addr) acc. let c = cleanAddress (mlTables ml) addr
                 in if c \<noteq> [] \<and> length acc < maxThreadIDs then acc @ [c] else acc) l out)"

definition addressList :: "mime_lib \<Rightarrow> string list \<Rightarrow> string list" where
  "addressList ml values = fold (addressesOf ml) values []"

definition NormalizeRecipient :: "unicode \<Rightarrow> string \<Rightarrow> string" where
  "NormalizeRecipient u v =
     (let v' = (if bracketAddress v \<noteq> [] then bracketAddress v else v)
      in ToLower u (cleanAddress u (TrimSpace v')))"

text \<open>\<open>strings.FieldsFunc\<close>.\<close>

fun fieldsFunc :: "(rune \<Rightarrow> bool) \<Rightarrow> string \<Rightarrow> (rune \<times> string) list \<Rightarrow> string list" where
  "fieldsFunc P acc [] = (if acc = [] then [] else [acc])"
| "fieldsFunc P acc ((r, b) # cs) =
     (if P r then (if acc = [] then [] else [acc]) @ fieldsFunc P [] cs else fieldsFunc P (acc @ b) cs)"

definition idOK :: "string \<Rightarrow> bool" where
  "idOK i \<longleftrightarrow> \<not> (i = [] \<or> length i > maxIDBytes \<or> CHR ''<'' \<in> set i \<or> CHR ''>'' \<in> set i \<or> hasControl i False \<or> \<not> ValidString i)"

fun takeIDs :: "string list \<Rightarrow> string list \<Rightarrow> string list" where
  "takeIDs [] out = out"
| "takeIDs (f # fs) out =
     (let i = Trim f ''<>''
      in if \<not> idOK i then takeIDs fs out
         else if length out = maxThreadIDs then out
         else takeIDs fs (out @ [i]))"

definition messageIDList :: "string \<Rightarrow> string list" where
  "messageIDList v = takeIDs (fieldsFunc (\<lambda>r. IsSpace r \<or> r = 0x2C) [] (chunks v)) []"

definition ParseMessageIDs :: "string \<Rightarrow> string list" where
  "ParseMessageIDs v = messageIDList v"

definition parseSpamScore :: "mime_lib \<Rightarrow> string \<Rightarrow> float64" where
  "parseSpamScore ml v =
     (case mlParseFloat ml (TrimSpace v) of None \<Rightarrow> 0 | Some f \<Rightarrow> if notFinite f then 0 else f)"

definition headers :: "mime_lib \<Rightarrow> header \<Rightarrow> message \<Rightarrow> message" where
  "headers ml h m =
     (let u = mlTables ml;
          subject = (case mlDecodeHeader ml (hGet h ''Subject'') of None \<Rightarrow> hGet h ''Subject'' | Some s \<Rightarrow> s);
          sj = truncRunes (oneLine subject) maxSubjectRunes;
          (fromEmail, fromName) =
            (case mlParseAddress ml (hGet h ''From'') of
               Some (name, addr) \<Rightarrow> (cleanAddress u addr, truncRunes (oneLine name) maxNameRunes)
             | None \<Rightarrow> (cleanAddress u (bracketAddress (hGet h ''From'')), msFromName m));
          ids = messageIDList (hGet h ''Message-Id'')
      in m\<lparr>msSubject := (if sj = [] then NoSubject else sj), msFromEmail := fromEmail, msFromName := fromName,
           msTo := addressList ml (h ''To''), msDeliveredTo := addressList ml (h ''Delivered-To''),
           msMessageID := (case ids of [] \<Rightarrow> msMessageID m | i # _ \<Rightarrow> i),
           msInReplyTo := messageIDList (hGet h ''In-Reply-To''),
           msReferences := messageIDList (hGet h ''References''),
           msAutoSubmitted := ToLower u (oneLine (hGet h ''Auto-Submitted'')),
           msPrecedence := ToLower u (oneLine (hGet h ''Precedence'')),
           msSpamScore := parseSpamScore ml (hGet h ''X-Spam-Score'')\<rparr>)"

section \<open>Bodies and attachments\<close>

definition decodeHeaderWord :: "mime_lib \<Rightarrow> string \<Rightarrow> string" where
  "decodeHeaderWord ml s =
     (if s = [] then s
      else case mlDecodeHeader ml (Trim s [CHR 0x22, CHR '' '']) of Some d \<Rightarrow> d | None \<Rightarrow> s)"

definition contentIDOf :: "string \<Rightarrow> string" where
  "contentIDOf v =
     (let i = TrimSpace (Trim (TrimSpace v) ''<>'')
      in if i = [] \<or> length i > maxIDBytes \<or> hasControl i False \<or> (\<exists>c \<in> set i. c \<in> {CHR ''<'', CHR ''>'', CHR '' ''})
         then [] else i)"

definition decodeTransfer :: "mime_lib \<Rightarrow> string \<Rightarrow> string \<Rightarrow> string" where
  "decodeTransfer ml content enc =
     (let e = ToLower (mlTables ml) (TrimSpace enc)
      in if e = ''base64'' then
           (let clean = Map (\<lambda>r. if r = 0x0D \<or> r = 0x0A \<or> r = 0x20 \<or> r = 0x09 then None else Some r) content
            in case mlBase64 ml clean of Some d \<Rightarrow> d | None \<Rightarrow> content)
         else if e = ''quoted-printable'' then
           (case mlQuotedPrintable ml content of Some d \<Rightarrow> d | None \<Rightarrow> content)
         else content)"

text \<open>The labels \<open>charsetDecoder\<close> knows; the decoders themselves are the library's.\<close>

definition charsetLabels :: "string list" where
  "charsetLabels =
     [''koi8-r'', ''koi8r'', ''koi8-u'', ''koi8u'', ''windows-1251'', ''cp1251'', ''windows-1252'', ''cp1252'',
      ''windows-1250'', ''cp1250'', ''iso-8859-1'', ''latin1'', ''iso-8859-2'', ''iso-8859-5'', ''iso-8859-15'',
      ''gbk'', ''gb2312'', ''gb18030'', ''big5'', ''shift_jis'', ''shift-jis'', ''sjis'', ''euc-jp'', ''iso-2022-jp'',
      ''euc-kr'', ''utf-16'', ''utf-16le'', ''utf-16be'']"

definition charsetDecoder :: "mime_lib \<Rightarrow> string \<Rightarrow> (string \<Rightarrow> string option) option" where
  "charsetDecoder ml label =
     (let l = ToLower (mlTables ml) (TrimSpace label)
      in if l \<in> set charsetLabels then Some (mlDecoder ml l) else None)"

definition decodeCharset :: "mime_lib \<Rightarrow> string \<Rightarrow> string \<Rightarrow> string" where
  "decodeCharset ml content charset =
     (let cs = ToLower (mlTables ml) (TrimSpace charset)
      in if cs \<in> {[], ''utf-8'', ''utf8'', ''us-ascii'', ''ascii''} then content
         else case charsetDecoder ml cs of
                Some dec \<Rightarrow> (case dec content of Some d \<Rightarrow> d | None \<Rightarrow> content)
              | None \<Rightarrow> content)"

record parser =
  paOut :: message
  paText :: string
  paHTML :: string
  paParts :: int

definition skip :: "string \<Rightarrow> int \<Rightarrow> parser \<Rightarrow> parser" where
  "skip filename n p =
     p\<lparr>paOut := (paOut p)\<lparr>msSkipped := msSkipped (paOut p) @
        [\<lparr>mkFilename = SafeFilename filename, mkSize = n, mkReason = SkipTooLarge\<rparr>]\<rparr>\<rparr>"

definition attach :: "mime_lib \<Rightarrow> limits \<Rightarrow> string \<Rightarrow> string \<Rightarrow> string \<Rightarrow> bool \<Rightarrow> string \<Rightarrow> string \<Rightarrow> parser \<Rightarrow> parser" where
  "attach ml lim filename mediaType contentID inline enc content p =
     (let data = decodeTransfer ml content enc
      in if int (length data) > liMaxAttachmentBytes lim then skip filename (int (length data)) p
         else
         (let mt = (if mediaType = [] \<or> \<not> headerSafe mediaType \<or> length mediaType > 127
                    then ''application/octet-stream'' else mediaType)
          in p\<lparr>paOut := (paOut p)\<lparr>msAttachments := msAttachments (paOut p) @
               [\<lparr>maFilename = SafeFilename filename, maContentType = mt, maContentID = contentID, maInline = inline,
                 maData = data\<rparr>]\<rparr>\<rparr>))"

definition collect :: "mime_lib \<Rightarrow> string \<Rightarrow> string \<Rightarrow> string \<Rightarrow> string \<Rightarrow> string \<Rightarrow> parser \<Rightarrow> parser" where
  "collect ml mediaType enc charset parentType content p =
     (let s = decodeCharset ml (decodeTransfer ml content enc) charset
      in if mediaType = ''text/plain'' then
           (if paText p = [] \<or> parentType = ''multipart/alternative'' then p\<lparr>paText := s\<rparr> else p)
         else if mediaType = ''text/html'' then p\<lparr>paHTML := s\<rparr>
         else if paText p = [] \<and> paHTML p = [] then p\<lparr>paText := s\<rparr> else p)"

definition readEncoded :: "limits \<Rightarrow> string \<Rightarrow> string \<times> bool" where
  "readEncoded lim content =
     (let limit = 3 * liMaxAttachmentBytes lim + 4096; c = take (nat (limit + 1)) content
      in (c, int (length c) > limit))"

text \<open>
  The loop of \<open>walk\<close> over the parts a multipart body splits into. A nested multipart body is
  walked one level deeper, which the depth limit bounds; a part that trips a limit ends every loop.
\<close>

function walk :: "mime_lib \<Rightarrow> limits \<Rightarrow> string \<Rightarrow> nat \<Rightarrow> mime_part list \<Rightarrow> parser \<Rightarrow> parser" where
  "walk ml lim parentType depth [] p = p"
| "walk ml lim parentType depth ((h, body) # rest) p =
     (if msTruncated (paOut p) then p
      else
      (let p1 = p\<lparr>paParts := paParts p + 1\<rparr>
       in if paParts p1 > liMaxParts lim then p1\<lparr>paOut := (paOut p1)\<lparr>msTruncated := True\<rparr>\<rparr>
          else
          (let ct = (if hGet h ''Content-Type'' = [] then ''text/plain'' else hGet h ''Content-Type'');
               ((mediaType, params), perr) = mlParseMediaType ml ct
           in if perr then walk ml lim parentType depth rest p1
              else
              (let (disp, dparams) = fst (mlParseMediaType ml (hGet h ''Content-Disposition''));
                   filename = decodeHeaderWord ml (if dparams ''filename'' = [] then params ''name'' else dparams ''filename'');
                   contentID = contentIDOf (hGet h ''Content-ID'');
                   isMultipart = HasPrefix mediaType ''multipart/'';
                   isText = HasPrefix mediaType ''text/'';
                   isAttachment = (disp = ''attachment'' \<or> filename \<noteq> []);
                   isInline = (contentID \<noteq> [] \<and> disp \<noteq> ''attachment'' \<and> \<not> isMultipart \<and> \<not> isText)
               in if isMultipart \<and> \<not> isAttachment then
                    (if int depth + 1 > liMaxDepth lim then p1\<lparr>paOut := (paOut p1)\<lparr>msTruncated := True\<rparr>\<rparr>
                     else if params ''boundary'' \<noteq> [] then
                       walk ml lim parentType depth rest
                         (walk ml lim mediaType (depth + 1) (mlParts ml body (params ''boundary'')) p1)
                     else walk ml lim parentType depth rest p1)
                  else if isAttachment \<or> isInline then
                    (let (content, over) = readEncoded lim body
                     in walk ml lim parentType depth rest
                          (if over then skip filename (int (length content)) p1
                           else attach ml lim filename mediaType contentID isInline (hGet h ''Content-Transfer-Encoding'') content p1))
                  else if isText then
                    walk ml lim parentType depth rest
                      (collect ml mediaType (hGet h ''Content-Transfer-Encoding'') (params ''charset'') parentType
                         (take (nat (liMaxBodyBytes lim)) body) p1)
                  else walk ml lim parentType depth rest p1))))"
  by pat_completeness auto
termination
  by (relation "measures [\<lambda>(ml, lim, pt, depth, ps, p). nat (liMaxDepth lim + 1 - int depth), \<lambda>(ml, lim, pt, depth, ps, p). length ps]")
    auto

declare walk.simps(2) [simp del]

section \<open>Text of an HTML body\<close>

text \<open>
  \<open>Regexp.ReplaceAllString\<close> for a pattern given by its match at a position (the rest after the
  match): leftmost matches, not overlapping.
\<close>

function replaceMatches :: "(string \<Rightarrow> string option) \<Rightarrow> string \<Rightarrow> string \<Rightarrow> string" where
  "replaceMatches m new [] = []"
| "replaceMatches m new (c # s) =
     (case m (c # s) of
        Some rest \<Rightarrow> if length rest < length (c # s) then new @ replaceMatches m new rest else c # replaceMatches m new s
      | None \<Rightarrow> c # replaceMatches m new s)"
  by pat_completeness auto
termination
  by (relation "measure (\<lambda>(m, new, s). length s)") auto

text \<open>
  A lower-case word matched case-insensitively: ASCII letters, and the long s that folds to
  \<open>s\<close>.
\<close>

fun foldPrefix :: "string \<Rightarrow> string \<Rightarrow> string option" where
  "foldPrefix [] s = Some s"
| "foldPrefix (p # ps) [] = None"
| "foldPrefix (p # ps) (c # s) =
     (if lower_byte c = p then foldPrefix ps s
      else if p = CHR ''s'' \<and> HasPrefix (c # s) (EncodeRune 0x17F) then foldPrefix ps (drop 1 s)
      else None)"

fun firstFold :: "string list \<Rightarrow> string \<Rightarrow> string option" where
  "firstFold [] s = None"
| "firstFold (w # ws) s = (case foldPrefix w s of Some r \<Rightarrow> Some r | None \<Rightarrow> firstFold ws s)"

definition closeAt :: "string \<Rightarrow> string option" where
  "closeAt s =
     (if HasPrefix s ''</'' then
        (case firstFold [''script'', ''style''] (drop 2 s) of
           Some r \<Rightarrow> if r \<noteq> [] \<and> hd r = CHR ''>'' then Some (tl r) else None
         | None \<Rightarrow> None)
      else None)"

fun closeTag :: "string \<Rightarrow> string option" where
  "closeTag [] = None"
| "closeTag (c # s) = (case closeAt (c # s) of Some r \<Rightarrow> Some r | None \<Rightarrow> closeTag s)"

definition reStyleScript :: "string \<Rightarrow> string option" where
  "reStyleScript s =
     (if s = [] \<or> hd s \<noteq> CHR ''<'' then None
      else case firstFold [''script'', ''style''] (tl s) of
             None \<Rightarrow> None
           | Some r \<Rightarrow>
               (let r1 = dropWhile (\<lambda>c. c \<noteq> CHR ''>'') r in if r1 = [] then None else closeTag (tl r1)))"

definition isWhite :: "char \<Rightarrow> bool" where
  "isWhite c \<longleftrightarrow> c \<in> {CHR 0x09, CHR 0x0A, CHR 0x0C, CHR 0x0D, CHR '' ''}"

definition reBreaks :: "string \<Rightarrow> string option" where
  "reBreaks s =
     (if s = [] \<or> hd s \<noteq> CHR ''<'' then None
      else case firstFold [''br'', ''/p'', ''/div'', ''/tr'', ''/li'', ''/h1'', ''/h2'', ''/h3'', ''/h4'', ''/h5'', ''/h6''] (tl s) of
             None \<Rightarrow> None
           | Some r \<Rightarrow>
               (let r1 = dropWhile isWhite r; r2 = (if r1 \<noteq> [] \<and> hd r1 = CHR ''/'' then tl r1 else r1)
                in if r2 \<noteq> [] \<and> hd r2 = CHR ''>'' then Some (tl r2) else None))"

definition reTags :: "string \<Rightarrow> string option" where
  "reTags s =
     (if s = [] \<or> hd s \<noteq> CHR ''<'' then None
      else (let r = dropWhile (\<lambda>c. c \<noteq> CHR ''>'') (tl s)
            in if r = [] \<or> r = tl s then None else Some (tl r)))"

definition reBlankLines :: "string \<Rightarrow> string option" where
  "reBlankLines s =
     (if length (takeWhile (\<lambda>c. c = CHR 0x0A) s) \<ge> 3 then Some (dropWhile (\<lambda>c. c = CHR 0x0A) s) else None)"

definition HTMLToText :: "mime_lib \<Rightarrow> string \<Rightarrow> string" where
  "HTMLToText ml s =
     (if s = [] then []
      else
      (let s1 = replaceMatches reStyleScript [] s;
           s2 = replaceMatches reBreaks [CHR 0x0A] s1;
           s3 = replaceMatches reTags [] s2;
           s4 = mlUnescape ml s3;
           s5 = ReplaceAll s4 [CHR 0x0D, CHR 0x0A] [CHR 0x0A];
           s6 = replaceMatches reBlankLines [CHR 0x0A, CHR 0x0A] s5
       in TrimSpace s6))"

section \<open>Parsing a message\<close>

datatype parse_error = MpTooLarge

definition parseBody :: "mime_lib \<Rightarrow> limits \<Rightarrow> header \<Rightarrow> string \<Rightarrow> parser \<Rightarrow> parser" where
  "parseBody ml lim h body p =
     (let ct = (if hGet h ''Content-Type'' = [] then ''text/plain'' else hGet h ''Content-Type'');
          ((mediaType, params), perr) = mlParseMediaType ml ct
      in if perr then p\<lparr>paText := body\<rparr>
         else if HasPrefix mediaType ''multipart/'' then
           walk ml lim mediaType 0 (mlParts ml body (params ''boundary'')) (p\<lparr>paParts := 1\<rparr>)
         else if HasPrefix mediaType ''text/'' then
           collect ml mediaType (hGet h ''Content-Transfer-Encoding'') (params ''charset'') mediaType body p
         else
           (let ((_, dp), derr) = mlParseMediaType ml (hGet h ''Content-Disposition'');
                name = (if \<not> derr \<and> dp ''filename'' \<noteq> [] then dp ''filename'' else params ''name'')
            in attach ml lim name mediaType [] False (hGet h ''Content-Transfer-Encoding'') body p))"

definition Parse :: "mime_lib \<Rightarrow> string \<Rightarrow> limits \<Rightarrow> parse_error + message" where
  "Parse ml raw lim0 =
     (let lim = orDefaults lim0
      in if int (length raw) > liMaxBodyBytes lim then Inl MpTooLarge
         else
         (let p = \<lparr>paOut = emptyMessage, paText = [], paHTML = [], paParts = 0\<rparr>
          in case mlReadMessage ml raw of
               None \<Rightarrow> Inr ((paOut p)\<lparr>msSubject := NoSubject, msText := mpCleanBody lim raw\<rparr>)
             | Some (h, body) \<Rightarrow>
                 (let p1 = p\<lparr>paOut := headers ml h (paOut p)\<rparr>;
                      p2 = parseBody ml lim h body p1;
                      html = mpCleanBody lim (paHTML p2);
                      t = mpCleanBody lim (paText p2)
                  in Inr ((paOut p2)\<lparr>msHTML := html,
                       msText := (if t \<noteq> [] then t else mpCleanBody lim (HTMLToText ml html))\<rparr>))))"

end
