(* ===== verification/MailParseProps.thy ===== *)
theory MailParseProps
  imports MailParse
begin

text \<open>
  The hardening of the parser: whatever bytes arrive and whatever the MIME library makes of them,
  the parsed message is bounded in every dimension and its text fields are clean.
\<close>

section \<open>Clean text\<close>

text \<open>Valid UTF-8 whose runes satisfy a predicate.\<close>

definition clean :: "(rune \<Rightarrow> bool) \<Rightarrow> string \<Rightarrow> bool" where
  "clean P s \<longleftrightarrow> ValidString s \<and> (\<forall>r \<in> set (runes s). P r)"

lemma clean_Nil [simp]: "clean P []"
  by (simp add: clean_def)

lemma clean_append: "clean P s \<Longrightarrow> clean P t \<Longrightarrow> clean P (s @ t)"
  by (auto simp: clean_def ValidString_append)

lemma clean_encode: "\<forall>r \<in> set rs. P (fixRune r) \<Longrightarrow> clean P (encode rs)"
  by (simp add: clean_def encode_any)

lemma cleanD: "clean P s \<Longrightarrow> s = encode (runes s)" "clean P s \<Longrightarrow> r \<in> set (runes s) \<Longrightarrow> P r \<and> valid_rune r"
  by (auto simp: clean_def ValidString_chunks)

lemma clean_sub:
  assumes "clean P s" "set rs \<subseteq> set (runes s)"
  shows "clean P (encode rs)" "runes (encode rs) = rs"
proof -
  have v: "\<forall>r \<in> set rs. P r \<and> valid_rune r" using assms cleanD(2) by blast
  then show "clean P (encode rs)" by (intro clean_encode) simp
  show "runes (encode rs) = rs" using v by (simp add: runes_encode)
qed

lemma clean_TrimSpace: "clean P s \<Longrightarrow> clean P (TrimSpace s)"
  using set_trim_list [of IsSpace "runes s"] by (auto simp: clean_def TrimSpace_valid)

lemma clean_Map:
  assumes "\<And>r r'. f r = Some r' \<Longrightarrow> P (fixRune r')"
  shows "clean P (Map f s)"
  using assms by (auto simp: clean_def Map_valid List.map_filter_def)

lemma length_trim_list: "length (trim_list P xs) \<le> length xs"
  unfolding trim_list_def by (metis length_dropWhile_le length_rev order_trans)

lemma clean_truncRunes: "clean P s \<Longrightarrow> clean P (truncRunes s n)"
  using clean_sub(1) [of P s "take n (runes s)"] by (auto simp: truncRunes_def intro: clean_TrimSpace dest: in_set_takeD)

lemma count_truncRunes:
  assumes "clean P s"
  shows "RuneCountInString (truncRunes s n) \<le> n"
proof -
  have c: "clean P (encode (take n (runes s)))" "runes (encode (take n (runes s))) = take n (runes s)"
    using clean_sub [OF assms, of "take n (runes s)"] by (auto dest: in_set_takeD)
  then have "runes (TrimSpace (encode (take n (runes s)))) = trim_list IsSpace (take n (runes s))"
    by (simp add: clean_def TrimSpace_valid)
  then show ?thesis
    using length_trim_list [of IsSpace "take n (runes s)"] by (auto simp: truncRunes_def RuneCount_runes)
qed

text \<open>Fields and their join.\<close>

lemma fields_sub: "\<forall>(r, b) \<in> set cs. b = EncodeRune r \<Longrightarrow> f \<in> set (fields_of cs) \<Longrightarrow> \<exists>rs. f = encode rs \<and> set rs \<subseteq> fst ` set cs"
proof (induction cs rule: fields_of.induct)
  case (1 cs)
  define rest where "rest = dropWhile (IsSpace \<circ> fst) cs"
  have sub: "set rest \<subseteq> set cs" unfolding rest_def by (auto dest: set_dropWhileD)
  show ?case
  proof (cases "rest = []")
    case True
    with 1 show ?thesis by (simp add: fields_of.simps [of cs] rest_def)
  next
    case False
    let ?w = "takeWhile (Not \<circ> IsSpace \<circ> fst) rest" and ?d = "dropWhile (Not \<circ> IsSpace \<circ> fst) rest"
    have "f = concat (map snd ?w) \<or> f \<in> set (fields_of ?d)"
      using 1(3) False unfolding fields_of.simps [of cs] Let_def rest_def [symmetric] by simp
    moreover have "concat (map snd ?w) = encode (map fst ?w)" "set (map fst ?w) \<subseteq> fst ` set cs"
    proof -
      have "snd x = EncodeRune (fst x)" if "x \<in> set ?w" for x
        using that 1(2) sub by (auto dest!: set_takeWhileD subsetD [OF sub])
      then have "map snd ?w = map (EncodeRune \<circ> fst) ?w" by simp
      then show "concat (map snd ?w) = encode (map fst ?w)" unfolding encode_def map_map by (rule arg_cong)
      show "set (map fst ?w) \<subseteq> fst ` set cs" using sub by (auto dest!: set_takeWhileD)
    qed
    moreover have "\<forall>(r, b) \<in> set ?d. b = EncodeRune r" using 1(2) sub by (blast dest: set_dropWhileD)
    then have "\<exists>rs. f = encode rs \<and> set rs \<subseteq> fst ` set ?d" if "f \<in> set (fields_of ?d)"
      using 1(1) [OF rest_def False _ that] by blast
    moreover have "fst ` set ?d \<subseteq> fst ` set cs" using sub by (auto dest!: set_dropWhileD)
    ultimately show ?thesis by blast
  qed
qed

lemma clean_Fields: "clean P s \<Longrightarrow> f \<in> set (Fields s) \<Longrightarrow> clean P f"
proof -
  assume s: "clean P s" and f: "f \<in> set (Fields s)"
  have "\<forall>(r, b) \<in> set (chunks s). b = EncodeRune r"
    using s chunk_valid by (fastforce simp: clean_def ValidString_def)
  moreover have "fst ` set (chunks s) = set (runes s)" by (simp add: runes_def)
  ultimately obtain rs where "f = encode rs" "set rs \<subseteq> set (runes s)"
    using fields_sub [of "chunks s" f] f by (auto simp: Fields_def)
  with s show ?thesis using clean_sub(1) by blast
qed

lemma clean_Join: "\<forall>f \<in> set fs. clean P f \<Longrightarrow> clean P sep \<Longrightarrow> clean P (Join fs sep)"
  by (induction fs sep rule: Join.induct) (auto intro!: clean_append)

lemma replacement_valid [simp]: "ValidString replacement"
  using encode_any(1) [of "[RuneError]"] by (simp add: replacement_def)

lemma IsControl_fix: "\<not> IsControl r \<Longrightarrow> \<not> IsControl (fixRune r)"
  by (simp add: fixRune_def RuneError_def IsControl_def)

text \<open>A header value is one line: no control character survives.\<close>

lemma oneLine_clean: "clean (Not \<circ> IsControl) (oneLine v)"
proof -
  have "clean (Not \<circ> IsControl) (Map (\<lambda>r. if IsControl r then Some 0x20 else Some r) s)" for s
    by (rule clean_Map) (auto simp: IsControl_fix split: if_splits, auto simp: IsControl_def fixRune_def valid_rune_def)
  then have "\<forall>f \<in> set (Fields (Map (\<lambda>r. if IsControl r then Some 0x20 else Some r) s)). clean (Not \<circ> IsControl) f" for s
    using clean_Fields by blast
  moreover have "clean (Not \<circ> IsControl) '' ''"
    by (simp add: clean_def ValidString_ascii runes_ascii byte_def IsControl_def)
  ultimately show ?thesis unfolding oneLine_def by (intro clean_Join)
qed

section \<open>Cutting at a byte bound\<close>

lemma EncodeRune_bytes:
  assumes "valid_rune r"
  obtains c cs where "EncodeRune r = c # cs" "RuneStart c" "\<forall>d \<in> set cs. \<not> RuneStart d"
proof -
  obtain b bs where e: "enc_bytes r = b # bs" by (cases "enc_bytes r") auto
  have "\<not> cont b \<and> (\<forall>x \<in> set bs. cont x)"
  proof -
    have m: "cont (0x80 + k mod 64)" for k :: nat
      using mod_less_divisor [of 64 k] unfolding cont_def by linarith
    show ?thesis using e m by (auto simp: enc_bytes_def cont_def split: if_splits)
  qed
  moreover have "\<forall>x \<in> set (enc_bytes r). x < 256" using assms enc_bytes_less by blast
  ultimately have "EncodeRune r = char_of b # map char_of bs" "RuneStart (char_of b)" "\<forall>d \<in> set (map char_of bs). \<not> RuneStart d"
    using e by (simp_all add: EncodeRune_def RuneStart_def)
  then show thesis by (rule that)
qed

text \<open>Stepping back from any position ends at a boundary between runes.\<close>

lemma backToStart_le: "backToStart v n \<le> n"
  by (induction n) (auto simp: le_SucI)

lemma backToStart_start: "backToStart v n = 0 \<or> RuneStart (v ! backToStart v n)"
  by (induction n) auto

lemma start_boundary:
  "\<forall>r \<in> set rs. valid_rune r \<Longrightarrow> k < length (encode rs) \<Longrightarrow> k = 0 \<or> RuneStart (encode rs ! k) \<Longrightarrow>
   \<exists>j. take k (encode rs) = encode (take j rs)"
proof (induction rs arbitrary: k)
  case (Cons r rs)
  have "valid_rune r" using Cons.prems(1) by simp
  then obtain c cs where e: "EncodeRune r = c # cs" "RuneStart c" "\<forall>d \<in> set cs. \<not> RuneStart d" by (rule EncodeRune_bytes)
  show ?case
  proof (cases "k < length (EncodeRune r)")
    case True
    have "k = 0"
    proof (rule ccontr)
      assume "k \<noteq> 0"
      then obtain j where k: "k = Suc j" by (cases k) auto
      then have "encode (r # rs) ! k = cs ! j" "j < length cs" using True e(1) by (simp_all add: nth_append)
      then show False using Cons.prems(3) e(3) k by auto
    qed
    then show ?thesis by (intro exI [of _ 0]) simp
  next
    case False
    then have "\<exists>j. take (k - length (EncodeRune r)) (encode rs) = encode (take j rs)"
      using Cons.prems by (intro Cons.IH) (auto simp: nth_append)
    then obtain j where "take (k - length (EncodeRune r)) (encode rs) = encode (take j rs)" by blast
    then show ?thesis using False by (intro exI [of _ "Suc j"]) simp
  qed
qed simp

lemma clean_truncBytes: "clean P s \<Longrightarrow> clean P (truncBytes s n)"
proof -
  assume s: "clean P s"
  show "clean P (truncBytes s n)"
  proof (cases "int (length s) \<le> n")
    case False
    define k where "k = backToStart s (nat n)"
    have "k < length s \<or> s = []" using backToStart_le [of s "nat n"] False by (cases "0 \<le> n") (auto simp: k_def)
    moreover have "\<exists>j. take k s = encode (take j (runes s))" if "k < length s"
      using start_boundary [of "runes s" k] that s backToStart_start [of s "nat n"] ValidString_chunks(1,3) [of s]
      by (simp add: k_def clean_def)
    ultimately have "\<exists>j. truncBytes s n = encode (take j (runes s))"
      using False by (auto simp: truncBytes_def k_def)
    then show ?thesis using clean_sub(1) [OF s] by (metis set_take_subset)
  qed (use s in \<open>simp add: truncBytes_def\<close>)
qed

lemma length_truncBytes: "0 \<le> n \<Longrightarrow> int (length (truncBytes s n)) \<le> n"
  using backToStart_le [of s "nat n"] by (auto simp: truncBytes_def)

lemma length_TrimSpace: "length (TrimSpace s) \<le> length s"
proof -
  let ?w = "\<lambda>cs :: (rune \<times> string) list. length (concat (map snd cs))"
  have d: "?w (dropWhile P cs) \<le> ?w cs" for P cs by (induction cs) auto
  have r: "?w (rev cs) = ?w cs" for cs by (induction cs) auto
  have "?w (trim_list P cs) \<le> ?w cs" for P cs
    unfolding trim_list_def using d [of P "rev (dropWhile P cs)"] d [of P cs] by (simp only: r)
  from this [of "IsSpace \<circ> fst" "chunks s"] show ?thesis unfolding TrimSpace_def by simp
qed

definition bodyRune :: "rune \<Rightarrow> bool" where
  "bodyRune r \<longleftrightarrow> r = 0x0A \<or> r = 0x09 \<or> \<not> IsControl r"

lemma bodyRune_fix: "bodyRune r \<Longrightarrow> bodyRune (fixRune r)"
  by (auto simp: bodyRune_def fixRune_def RuneError_def IsControl_def)

lemma mpCleanBody_clean: "clean bodyRune (mpCleanBody lim v)"
proof -
  have "clean bodyRune (Map cleanBodyRune s)" for s
    by (rule clean_Map, rule bodyRune_fix) (auto simp: cleanBodyRune_def bodyRune_def split: if_splits)
  then show ?thesis
    by (auto simp: mpCleanBody_def Let_def intro!: clean_TrimSpace clean_truncBytes)
qed

lemma length_mpCleanBody: "0 \<le> liMaxTextBytes lim \<Longrightarrow> int (length (mpCleanBody lim v)) \<le> liMaxTextBytes lim"
proof -
  assume n: "0 \<le> liMaxTextBytes lim"
  have "int (length (TrimSpace (truncBytes s (liMaxTextBytes lim)))) \<le> liMaxTextBytes lim" for s
    using length_truncBytes [OF n, of s] length_TrimSpace [of "truncBytes s (liMaxTextBytes lim)"] by linarith
  then show ?thesis using n by (simp add: mpCleanBody_def Let_def)
qed

section \<open>File names\<close>

lemma clean_byte:
  assumes "clean P s" "\<not> P (byte c)" "byte c < 0x80"
  shows "c \<notin> set s"
proof
  assume "c \<in> set s"
  then have "c \<in> set (encode (runes s))" by (simp add: cleanD(1) [OF assms(1), symmetric])
  then obtain r where r: "r \<in> set (runes s)" "c \<in> set (EncodeRune r)" by (auto simp: encode_def)
  then have v: "P r" "valid_rune r" using cleanD(2) [OF assms(1)] by simp_all
  obtain x where x: "x \<in> set (enc_bytes r)" "c = char_of x" using r(2) by (auto simp: EncodeRune_def)
  then have "byte c = x" using enc_bytes_less [OF v(2)] by simp
  then have "x = r" using x(1) assms(3) by (auto simp: enc_bytes_def split: if_splits)
  then show False using v(1) assms(2) \<open>byte c = x\<close> by simp
qed

lemma ascii_rune_byte:
  assumes "r \<in> set (runes s)" "r < 0x80"
  shows "char_of r \<in> set s"
proof -
  obtain b where b: "(r, b) \<in> set (chunks s)" using assms(1) by (auto simp: runes_def)
  moreover have "r \<noteq> RuneError" using assms(2) by (simp add: RuneError_def)
  ultimately have "b = EncodeRune r" using chunk_valid by blast
  then have "b = [char_of r]" using assms(2) by (simp add: EncodeRune_def enc_bytes_def)
  then have "char_of r \<in> set (concat (map snd (chunks s)))"
    unfolding set_concat set_map using b by (intro UnionI [of "set b"]) (auto intro!: rev_image_eqI [of b] rev_image_eqI [of "(r, b)"])
  then show ?thesis by simp
qed

lemma clean_dropWhile:
  assumes "clean P s" "\<forall>c \<in> set cs0. byte c < 0x80"
  shows "\<exists>k. TrimLeft s cs0 = encode (drop k (runes s))"
proof -
  have "\<exists>k. dropWhile (\<lambda>c. c \<in> set cs0) (encode rs) = encode (drop k rs)" if "\<forall>r \<in> set rs. valid_rune r" for rs
    using that
  proof (induction rs)
    case (Cons r rs)
    show ?case
    proof (cases "r < 0x80 \<and> char_of r \<in> set cs0")
      case True
      then have "EncodeRune r = [char_of r]" by (simp add: EncodeRune_def enc_bytes_def)
      then obtain k where "dropWhile (\<lambda>c. c \<in> set cs0) (encode (r # rs)) = encode (drop k rs)" using Cons True by auto
      then show ?thesis by (intro exI [of _ "Suc k"]) simp
    next
      case False
      obtain c cs where e: "EncodeRune r = c # cs" by (cases "EncodeRune r") auto
      have "c \<notin> set cs0"
      proof
        assume c: "c \<in> set cs0"
        then have "byte c < 0x80" using assms(2) by simp
        moreover have "byte c \<in> set (enc_bytes r)"
          using map_byte_EncodeRune [of r, symmetric] Cons.prems e by simp
        ultimately have "byte c = r" by (auto simp: enc_bytes_def split: if_splits)
        then have "char_of r = c" by (auto simp: byte_def)
        then show False using False c \<open>byte c = r\<close> \<open>byte c < 0x80\<close> by simp
      qed
      then show ?thesis using e by (intro exI [of _ 0]) simp
    qed
  qed simp
  from this [of "runes s"] show ?thesis
    using cleanD(2) [OF assms(1)] unfolding TrimLeft_def cleanD(1) [OF assms(1), symmetric] by blast
qed

lemma trim_list_keeps: "x \<in> set xs \<Longrightarrow> \<not> P x \<Longrightarrow> x \<in> set (trim_list P xs)"
proof -
  have d: "x \<in> set (dropWhile P ys)" if "x \<in> set ys" "\<not> P x" for ys
    using that by (induction ys) auto
  assume "x \<in> set xs" "\<not> P x"
  then show ?thesis unfolding trim_list_def by (simp add: d)
qed

lemma trim_list_hd: "trim_list P xs \<noteq> [] \<Longrightarrow> \<exists>y ys. trim_list P xs = y # ys \<and> \<not> P y"
proof -
  assume ne: "trim_list P xs \<noteq> []"
  then obtain y ys where y: "dropWhile P xs = y # ys" by (cases "dropWhile P xs") (auto simp: trim_list_def)
  then have "\<not> P y" by (simp add: dropWhile_eq_Cons_conv)
  with y show ?thesis by (simp add: trim_list_def dropWhile_append) (metis rev_rev_ident)
qed

section \<open>File names\<close>

text \<open>What the rest of the service relies on: a name that is one bounded, clean path component.\<close>

definition safe_name :: "string \<Rightarrow> bool" where
  "safe_name n \<longleftrightarrow> n \<noteq> [] \<and> ValidString n \<and> \<not> hasControl n False \<and> CHR ''/'' \<notin> set n \<and> CHR 0x5C \<notin> set n \<and>
     RuneCountInString n \<le> maxFilename"

definition nameRune :: "rune \<Rightarrow> bool" where
  "nameRune r \<longleftrightarrow> \<not> IsControl r \<and> r \<noteq> 0x2F \<and> r \<noteq> 0x5C"

lemma char_of_separators: "char_of (47 :: nat) = CHR ''/''" "char_of (92 :: nat) = CHR 0x5C"
  using char_of_char [of "CHR ''/''"] char_of_char [of "CHR 0x5C"] by simp_all

lemma set_ReplaceAll1: "set (ReplaceAll s [c] new) \<subseteq> set new \<union> (set s - {c})"
  by (induction s "[c]" new rule: ReplaceAll.induct) auto

lemma pathBase_chars: "pathBase p = ''/'' \<or> (CHR ''/'' \<notin> set (pathBase p) \<and> set (pathBase p) \<subseteq> insert CHR ''.'' (set p))"
proof -
  have r: "set (TrimRight p cs) \<subseteq> set p" for cs
    by (auto simp: TrimRight_def dest: set_dropWhileD)
  show ?thesis
  proof (cases "after_last CHR ''/'' (TrimRight p ''/'')")
    case None
    then show ?thesis using r [of "''/''"] by (auto simp: pathBase_def Let_def after_last_def split: if_splits)
  next
    case (Some x)
    then have x: "set x \<subseteq> set (TrimRight p ''/'')" "CHR ''/'' \<notin> set x"
      by (auto simp: after_last_def split: if_splits dest!: set_takeWhileD)
    have "set x \<subseteq> set p" by (rule order_trans [OF x(1) r])
    with Some x(2) show ?thesis by (simp add: pathBase_def Let_def) blast
  qed
qed

lemma truncRunes_trimmed_ne:
  assumes "clean P s" "TrimSpace s \<noteq> []" "0 < n"
  shows "truncRunes (TrimSpace s) n \<noteq> []"
proof (cases "RuneCountInString (TrimSpace s) \<le> n")
  case False
  define t where "t = TrimSpace s"
  have t: "clean P t" "runes t = trim_list IsSpace (runes s)"
    using assms(1) clean_TrimSpace [OF assms(1)] by (simp_all add: t_def clean_def TrimSpace_valid)
  have "runes t \<noteq> []" using False t by (auto simp: t_def RuneCount_runes)
  then obtain y ys where y: "runes t = y # ys" "\<not> IsSpace y"
    using trim_list_hd [of IsSpace "runes s"] t(2) by auto
  have sub: "clean P (encode (take n (runes t)))" "runes (encode (take n (runes t))) = take n (runes t)"
    using clean_sub [OF t(1), of "take n (runes t)"] by (auto dest: in_set_takeD)
  then have "runes (TrimSpace (encode (take n (runes t)))) = trim_list IsSpace (take n (runes t))"
    by (simp add: clean_def TrimSpace_valid)
  moreover have "y \<in> set (trim_list IsSpace (take n (runes t)))"
    using y assms(3) by (intro trim_list_keeps) (auto simp: take_Cons')
  ultimately have "TrimSpace (encode (take n (runes t))) \<noteq> []" by force
  with False show ?thesis by (simp add: truncRunes_def t_def)
qed (use assms in \<open>simp add: truncRunes_def\<close>)

lemma clean_safe_name:
  assumes "clean nameRune n" "n \<noteq> []" "RuneCountInString n \<le> maxFilename"
  shows "safe_name n"
  using assms clean_byte [OF assms(1), of "CHR ''/''"] clean_byte [OF assms(1), of "CHR 0x5C"]
  by (auto simp: safe_name_def nameRune_def byte_def clean_def hasControl_def)

lemma SafeFilename_safe: "safe_name (SafeFilename name)"
proof -
  define n2 where "n2 = ReplaceAll (ToValidUTF8 name ''_'') [CHR 0x5C] ''/''"
  define n4 where "n4 = Map (\<lambda>r. if IsControl r then Some 0x5F else Some r) (pathBase n2)"
  define n5 where "n5 = TrimSpace (TrimLeft n4 ''. '')"
  have eq: "SafeFilename name = (if n5 = [] \<or> n5 = ''/'' then ''attachment'' else truncRunes n5 maxFilename)"
    by (simp add: SafeFilename_def Let_def n2_def n4_def n5_def)
  have att: "safe_name ''attachment''"
    by (simp add: safe_name_def ValidString_ascii hasControl_def runes_ascii IsControl_def byte_def RuneCountInString_def chunks_ascii maxFilename_def)
  show ?thesis
  proof (cases "pathBase n2 = ''/''")
    case True
    from True have "n5 = ''/''"
      by (simp add: n5_def n4_def Map_def runes_ascii chunks_ascii byte_def IsControl_def TrimLeft_def TrimSpace_ascii EncodeRune_def enc_bytes_def trim_list_def IsSpace_def char_of_separators)
    then show ?thesis by (simp add: eq att)
  next
    case False
    have "CHR 0x5C \<notin> set n2" using set_ReplaceAll1 [of "ToValidUTF8 name ''_''" "CHR 0x5C" "''/''"] by (auto simp: n2_def)
    then have "CHR ''/'' \<notin> set (pathBase n2)" "CHR 0x5C \<notin> set (pathBase n2)"
      using pathBase_chars [of n2] False by auto
    then have "r \<noteq> 0x2F \<and> r \<noteq> 0x5C" if "r \<in> set (runes (pathBase n2))" for r
      using ascii_rune_byte [OF that] by (auto simp: char_of_separators)
    moreover have "\<not> IsControl 0x5F" "\<not> IsControl RuneError" by (simp_all add: IsControl_def RuneError_def)
    ultimately have "nameRune (fixRune (if IsControl r then 0x5F else r))" if "r \<in> set (runes (pathBase n2))" for r
      using that by (auto simp: nameRune_def fixRune_def RuneError_def)
    then have c4: "clean nameRune n4"
      unfolding n4_def clean_def by (auto simp: Map_valid List.map_filter_def if_distrib cong: if_cong)
    obtain k where k: "TrimLeft n4 ''. '' = encode (drop k (runes n4))"
      using clean_dropWhile [OF c4, of "''. ''"] by (auto simp: byte_def)
    have c5: "clean nameRune (TrimLeft n4 ''. '')"
      unfolding k by (rule clean_sub [OF c4]) (auto dest: in_set_dropD)
    have "safe_name (truncRunes n5 maxFilename)" if "n5 \<noteq> []"
      unfolding n5_def
      by (rule clean_safe_name)
        (use that c5 truncRunes_trimmed_ne [OF c5, of maxFilename] in
          \<open>auto intro: clean_truncRunes clean_TrimSpace count_truncRunes simp: n5_def maxFilename_def\<close>)
    with att show ?thesis by (simp add: eq)
  qed
qed

section \<open>The bounds of a parsed message\<close>

definition att_ok :: "limits \<Rightarrow> mail_attachment \<Rightarrow> bool" where
  "att_ok lim a \<longleftrightarrow> safe_name (maFilename a) \<and> int (length (maData a)) \<le> liMaxAttachmentBytes lim \<and>
     maContentType a \<noteq> [] \<and> headerSafe (maContentType a) \<and> length (maContentType a) \<le> 127 \<and>
     length (maContentID a) \<le> maxIDBytes \<and> \<not> hasControl (maContentID a) False"

definition body_ok :: "limits \<Rightarrow> string \<Rightarrow> bool" where
  "body_ok lim v \<longleftrightarrow> clean bodyRune v \<and> int (length v) \<le> liMaxTextBytes lim"

definition line_ok :: "nat \<Rightarrow> string \<Rightarrow> bool" where
  "line_ok n v \<longleftrightarrow> clean (Not \<circ> IsControl) v \<and> RuneCountInString v \<le> n"

definition ids_bounded :: "string list \<Rightarrow> bool" where
  "ids_bounded xs \<longleftrightarrow> length xs \<le> maxThreadIDs \<and> list_all idOK xs"

definition parts_ok :: "limits \<Rightarrow> message \<Rightarrow> bool" where
  "parts_ok lim m \<longleftrightarrow> int (length (msAttachments m) + length (msSkipped m)) \<le> liMaxParts lim \<and>
     list_all (att_ok lim) (msAttachments m) \<and> list_all (safe_name \<circ> mkFilename) (msSkipped m)"

definition header_ok :: "message \<Rightarrow> bool" where
  "header_ok m \<longleftrightarrow> msSubject m \<noteq> [] \<and> line_ok maxSubjectRunes (msSubject m) \<and> line_ok maxNameRunes (msFromName m) \<and>
     length (msFromEmail m) \<le> maxAddressBytes \<and> \<not> hasControl (msFromEmail m) False \<and>
     (msMessageID m = [] \<or> idOK (msMessageID m)) \<and> ids_bounded (msInReplyTo m) \<and> ids_bounded (msReferences m) \<and>
     \<not> notFinite (msSpamScore m)"

definition bounded_message :: "limits \<Rightarrow> message \<Rightarrow> bool" where
  "bounded_message lim m \<longleftrightarrow> header_ok m \<and> body_ok lim (msText m) \<and> body_ok lim (msHTML m) \<and> parts_ok lim m"

text \<open>The headers.\<close>

lemma takeIDs_bounded: "ids_bounded out \<Longrightarrow> ids_bounded (takeIDs fs out)"
  by (induction fs out rule: takeIDs.induct) (auto simp: Let_def ids_bounded_def)

lemma messageIDList_bounded: "ids_bounded (messageIDList v)"
  unfolding messageIDList_def by (rule takeIDs_bounded) (simp add: ids_bounded_def)

lemma truncated_line: "line_ok n (truncRunes (oneLine v) n)"
  unfolding line_ok_def using clean_truncRunes [OF oneLine_clean] count_truncRunes [OF oneLine_clean] by blast

lemma line_ok_consts: "line_ok n []" "line_ok maxSubjectRunes NoSubject"
  by (simp_all add: line_ok_def RuneCount_runes clean_def NoSubject_def ValidString_ascii runes_ascii IsControl_def byte_def maxSubjectRunes_def)

lemma no_subject: "NoSubject \<noteq> []"
  by (simp add: NoSubject_def)

lemma cleanAddress_bounded: "length (cleanAddress u v) \<le> maxAddressBytes" "\<not> hasControl (cleanAddress u v) False"
  by (auto simp: cleanAddress_def Let_def hasControl_def)

lemma spam_finite: "\<not> notFinite (parseSpamScore ml v)"
  by (auto simp: parseSpamScore_def notFinite_def split: option.splits)

lemma headers_ok: "header_ok (headers ml h emptyMessage)"
proof -
  have ids: "i = [] \<or> idOK i" if "messageIDList v = i # is" for i "is" v
    using messageIDList_bounded [of v] that by (simp add: ids_bounded_def)
  show ?thesis
    unfolding header_ok_def headers_def Let_def
    by (auto simp: emptyMessage_def line_ok_consts truncated_line cleanAddress_bounded messageIDList_bounded spam_finite
        no_subject split: prod.splits option.splits list.splits dest: ids)
qed

text \<open>
  The parts. Every part that adds an attachment or a skipped entry has been counted first, and no
  part above the limit adds one; the header fields are not touched.
\<close>

definition hdr :: "message \<Rightarrow> message" where
  "hdr m = m\<lparr>msAttachments := [], msSkipped := [], msTruncated := False\<rparr>"

definition room :: "limits \<Rightarrow> message \<Rightarrow> parser \<Rightarrow> int \<Rightarrow> bool" where
  "room lim m p n \<longleftrightarrow> hdr (paOut p) = m \<and> int (length (msAttachments (paOut p)) + length (msSkipped (paOut p))) \<le> n \<and>
     list_all (att_ok lim) (msAttachments (paOut p)) \<and> list_all (safe_name \<circ> mkFilename) (msSkipped (paOut p))"

definition walked :: "limits \<Rightarrow> message \<Rightarrow> parser \<Rightarrow> bool" where
  "walked lim m p \<longleftrightarrow> room lim m p (paParts p) \<and> room lim m p (liMaxParts lim)"

lemma room_mono: "room lim m p n \<Longrightarrow> n \<le> n' \<Longrightarrow> room lim m p n'"
  by (auto simp: room_def)

lemma room_skip: "room lim m p n \<Longrightarrow> room lim m (skip f k p) (n + 1)" "paParts (skip f k p) = paParts p"
  by (auto simp: room_def skip_def hdr_def SafeFilename_safe)

lemma room_attach:
  assumes "room lim m p n" "length cid \<le> maxIDBytes" "\<not> hasControl cid False"
  shows "room lim m (attach ml lim f mt cid inl enc content p) (n + 1)" "paParts (attach ml lim f mt cid inl enc content p) = paParts p"
proof -
  have "headerSafe ''application/octet-stream''"
    by (simp add: headerSafe_def ValidString_ascii hasControl_def runes_ascii IsControl_def byte_def)
  with assms room_skip(1) [OF assms(1)] show "room lim m (attach ml lim f mt cid inl enc content p) (n + 1)"
    by (auto simp: attach_def Let_def) (auto simp: room_def hdr_def att_ok_def SafeFilename_safe)
  show "paParts (attach ml lim f mt cid inl enc content p) = paParts p"
    by (simp add: attach_def Let_def room_skip)
qed

lemma room_collect: "room lim m (collect ml mt enc cs pt c p) n = room lim m p n" "paParts (collect ml mt enc cs pt c p) = paParts p"
  by (auto simp: room_def collect_def Let_def)

lemma contentID_ok: "length (contentIDOf v) \<le> maxIDBytes" "\<not> hasControl (contentIDOf v) False"
  by (auto simp: contentIDOf_def Let_def hasControl_def)

lemma walked_count: "walked lim m p \<Longrightarrow> room lim m (p\<lparr>paParts := paParts p + 1\<rparr>) (paParts p) \<and> walked lim m (p\<lparr>paParts := paParts p + 1\<rparr>)"
  by (auto simp: walked_def room_def)

lemma walked_add:
  assumes "room lim m q (paParts p)" "paParts q = paParts p + 1" "paParts p + 1 \<le> liMaxParts lim"
    "length cid \<le> maxIDBytes" "\<not> hasControl cid False"
  shows "walked lim m (skip f k q)" "walked lim m (attach ml lim f mt cid inl enc content q)"
  using room_skip(1) [OF assms(1), of f k] room_attach [OF assms(1,4,5), of ml f mt inl enc content] assms(2,3)
  by (auto simp: walked_def room_skip(2) intro: room_mono)

lemma walk_walked: "walked lim m p \<Longrightarrow> walked lim m (walk ml lim pt d ps p)"
proof (induction "nat (liMaxDepth lim + 1 - int d)" arbitrary: d pt ps p rule: less_induct)
  case less
  have deeper: "walked lim m (walk ml lim pt' (Suc d) ps' p')" if "walked lim m p'" "int d < liMaxDepth lim" for pt' ps' p'
    using that less(1) by simp
  from less(2) show ?case
  proof (induction ps arbitrary: p)
    case (Cons part rest)
    obtain h body where part: "part = (h, body)" by (cases part)
    define q where "q = p\<lparr>paParts := paParts p + 1\<rparr>"
    have q: "room lim m q (paParts p)" "walked lim m q" "paParts q = paParts p + 1"
      using walked_count [OF Cons(2)] by (auto simp: q_def)
    have cut: "walked lim m (q\<lparr>paOut := (paOut q)\<lparr>msTruncated := True\<rparr>\<rparr>)"
      using q(2) by (simp add: walked_def room_def hdr_def)
    have col: "walked lim m (collect ml mt enc cs pt' c q)" for mt enc cs pt' c
      using q(2) by (simp add: walked_def room_collect)
    have add: "walked lim m (skip f k q)" "walked lim m (attach ml lim f mt (contentIDOf v) inl enc c q)"
      if "\<not> liMaxParts lim < paParts q" for f k mt v inl enc c
      using walked_add [OF q(1,3) _ contentID_ok] that q(3) by auto
    obtain mt prm perr where t: "mlParseMediaType ml (if hGet h ''Content-Type'' = [] then ''text/plain'' else hGet h ''Content-Type'') = ((mt, prm), perr)"
      by (metis surj_pair)
    obtain disp dprm where t': "fst (mlParseMediaType ml (hGet h ''Content-Disposition'')) = (disp, dprm)"
      by (metis surj_pair)
    obtain content over where r: "readEncoded lim body = (content, over)" by (metis surj_pair)
    show ?case
      unfolding part walk.simps(2) q_def [symmetric] Let_def t t' r prod.case
      using Cons(2) by (simp add: Cons(1) q cut col add deeper)
  qed simp
qed

lemma parseBody_room:
  assumes "hdr (paOut p) = m" "msAttachments (paOut p) = []" "msSkipped (paOut p) = []" "1 \<le> liMaxParts lim"
  shows "room lim m (parseBody ml lim h body p) (liMaxParts lim)"
proof -
  have 0: "room lim m p 0" "walked lim m (p\<lparr>paParts := 1\<rparr>)" "room lim m (p\<lparr>paText := body\<rparr>) (liMaxParts lim)"
    using assms by (simp_all add: walked_def room_def)
  have "room lim m (attach ml lim f mt [] inl enc c p) (liMaxParts lim)" for f mt inl enc c
    by (rule room_mono [OF room_attach(1) [OF 0(1)]]) (use assms(4) in \<open>simp_all add: hasControl_def\<close>)
  then show ?thesis
    using 0 walk_walked [OF 0(2)] room_mono [OF 0(1), of "liMaxParts lim"] assms(4)
    by (auto simp: parseBody_def Let_def room_collect walked_def split: prod.splits)
qed

lemma orDefaults_pos:
  "0 < liMaxBodyBytes (orDefaults l)" "0 < liMaxTextBytes (orDefaults l)" "0 < liMaxAttachmentBytes (orDefaults l)"
  "1 \<le> liMaxParts (orDefaults l)" "0 < liMaxDepth (orDefaults l)"
  by (simp_all add: orDefaults_def DefaultLimits_def Let_def)

lemma cleanBody_ok: "body_ok (orDefaults l) (mpCleanBody (orDefaults l) v)"
  using mpCleanBody_clean length_mpCleanBody orDefaults_pos(2) [of l] by (simp add: body_ok_def)

lemma body_ok_Nil: "body_ok (orDefaults l) []"
  using orDefaults_pos(2) [of l] by (simp add: body_ok_def)

lemma hdr_header_ok: "header_ok (hdr m) = header_ok m"
  by (simp add: hdr_def header_ok_def)


text \<open>
  The comment of \<open>SafeFilename\<close> promises no leading dots; a Unicode space in front of them defeats the
  trimming, since only ASCII blanks and dots are cut together.
\<close>

lemma SafeFilename_leading_dots: "SafeFilename (encode [0xA0] @ ''..'') = ''..''"
proof -
  define s where "s = encode [0xA0, 0x2E, 0x2E]"
  have v: "\<forall>r \<in> set [0xA0, 0x2E, 0x2E :: nat]. valid_rune r" by (simp add: valid_rune_def)
  have e: "EncodeRune 0xA0 = [CHR 0xC2, CHR 0xA0]" "EncodeRune 0x2E = ''.''" by code_simp+
  have s: "s = [CHR 0xC2, CHR 0xA0] @ ''..''" by (simp add: s_def e)
  have r: "runes s = [0xA0, 0x2E, 0x2E]" "ValidString s" unfolding s_def using v by (simp_all only: runes_encode ValidString_encode)
  have c: "chunks s = [(0xA0, [CHR 0xC2, CHR 0xA0]), (0x2E, ''.''), (0x2E, ''.'')]"
    unfolding s_def using v by (simp add: chunks_encode e del: encode_simps)
  have n3: "pathBase (ReplaceAll s [CHR 0x5C] ''/'') = s"
    by (simp add: s pathBase_def TrimRight_def after_last_def)
  have n4: "Map (\<lambda>r. if IsControl r then Some 0x5F else Some r) s = s"
    unfolding Map_def r by (simp add: IsControl_def e s)
  have "TrimSpace (TrimLeft s ''. '') = ''..''"
  proof -
    have "TrimLeft s ''. '' = s" by (simp add: TrimLeft_def s)
    moreover have "TrimSpace s = ''..''" unfolding TrimSpace_encode [OF r(2)] r(1) by (simp add: trim_list_def IsSpace_def e)
    ultimately show ?thesis by simp
  qed
  moreover have "ToValidUTF8 s ''_'' = s" unfolding ToValidUTF8_def c by (simp add: s RuneError_def)
  moreover have "truncRunes ''..'' maxFilename = ''..''"
    by (simp add: truncRunes_def RuneCountInString_def chunks_ascii maxFilename_def byte_def)
  ultimately show ?thesis by (simp add: SafeFilename_def Let_def n3 n4 e flip: s [simplified])
qed

end
