(* ===== verification/RuleEngine.thy ===== *)
theory RuleEngine
  imports MailParseProps Mailer
begin

text \<open>
  The rule engine of the inbound triage (\<open>internal/rules/engine.go\<close>): conditions are
  validated and rendered as a CEL expression, the effective expression of a rule is compiled and
  type-checked to bool, and compiled programs are cached by rule id and version. The CEL library, regular
  expressions and the conversion of floating point numbers are the record \<open>cel\<close>: what the
  compiler makes of an expression, and what a program yields on a message. The outcome of an
  evaluation may depend on the time left, so evaluations are numbered.
\<close>

section \<open>Formatting\<close>

text \<open>\<open>%d\<close>, and \<open>%q\<close> (\<open>strconv.Quote\<close>).\<close>

fun natText :: "nat \<Rightarrow> string" where
  "natText n = (if n < 10 then [char_of (48 + n)] else natText (n div 10) @ [char_of (48 + n mod 10)])"

declare natText.simps [simp del]

definition Itoa :: "int \<Rightarrow> string" where
  "Itoa i = (if i < 0 then ''-'' @ natText (nat (- i)) else natText (nat i))"

definition hexText :: "nat \<Rightarrow> nat \<Rightarrow> string" where
  "hexText width n = map (\<lambda>k. hexDigit (n div 16 ^ k mod 16)) (rev [0..<width])"

definition backslash :: char where "backslash = CHR 0x5C"
definition dquote :: char where "dquote = CHR 0x22"

definition quotedRune :: "unicode \<Rightarrow> rune \<times> string \<Rightarrow> string" where
  "quotedRune u = (\<lambda>(r, b).
     if r = RuneError \<and> length b = 1 then [backslash, CHR ''x''] @ hexText 2 (byte (hd b))
     else if r = byte dquote \<or> r = byte backslash then [backslash, char_of r]
     else if uIsPrint u r then b
     else if r = 7 then [backslash, CHR ''a'']
     else if r = 8 then [backslash, CHR ''b'']
     else if r = 12 then [backslash, CHR ''f'']
     else if r = 10 then [backslash, CHR ''n'']
     else if r = 13 then [backslash, CHR ''r'']
     else if r = 9 then [backslash, CHR ''t'']
     else if r = 11 then [backslash, CHR ''v'']
     else if r < 0x20 \<or> r = 0x7F then [backslash, CHR ''x''] @ hexText 2 r
     else if r < 0x10000 then [backslash, CHR ''u''] @ hexText 4 r
     else [backslash, CHR ''U''] @ hexText 8 r)"

definition Quote :: "unicode \<Rightarrow> string \<Rightarrow> string" where
  "Quote u s = [dquote] @ concat (map (quotedRune u) (chunks s)) @ [dquote]"

section \<open>Fields, operators and bounds\<close>

definition FieldSubject :: string where "FieldSubject = ''subject''"
definition FieldBody :: string where "FieldBody = ''body''"
definition FieldFrom :: string where "FieldFrom = ''from''"
definition FieldFromName :: string where "FieldFromName = ''fromName''"
definition FieldRecipient :: string where "FieldRecipient = ''recipient''"
definition FieldFromDomain :: string where "FieldFromDomain = ''fromDomain''"
definition FieldHasAttachments :: string where "FieldHasAttachments = ''hasAttachments''"
definition FieldSpamScore :: string where "FieldSpamScore = ''spamScore''"

lemmas field_consts = FieldSubject_def FieldBody_def FieldFrom_def FieldFromName_def FieldRecipient_def FieldFromDomain_def
  FieldHasAttachments_def FieldSpamScore_def

definition MaxConditions :: nat where "MaxConditions = 50"
definition MaxValueLen :: nat where "MaxValueLen = 1000"
definition MaxExpressionLen :: nat where "MaxExpressionLen = 4096"
definition MaxBodyEval :: nat where "MaxBodyEval = 65536"
definition DefaultCostLimit :: "64 word" where "DefaultCostLimit = 100000"
definition DefaultTimeout :: int where "DefaultTimeout = 50 * 1000000"
definition maxCacheItems :: nat where "maxCacheItems = 10000"
definition maxErrorLen :: nat where "maxErrorLen = 500"

definition TextFields :: "string list" where
  "TextFields = [FieldSubject, FieldBody, FieldFrom, FieldFromName, FieldRecipient, FieldFromDomain]"

definition TextOperators :: "string list" where
  "TextOperators = [''contains'', ''not_contains'', ''equals'', ''not_equals'', ''starts_with'', ''ends_with'', ''matches'']"

definition BoolOperators :: "string list" where
  "BoolOperators = [''equals'', ''not_equals'', ''eq'', ''neq'']"

definition numericOps :: "(string \<times> string) list" where
  "numericOps = [(''gt'', ''>''), (''gte'', ''>=''), (''lt'', ''<''), (''lte'', ''<=''), (''eq'', ''==''), (''neq'', ''!='')]"

text \<open>The loops that cut a string back to valid UTF-8.\<close>

primrec shrink :: "string \<Rightarrow> nat \<Rightarrow> string" where
  "shrink s 0 = []"
| "shrink s (Suc n) = (if ValidString (take (Suc n) s) then take (Suc n) s else shrink s n)"

definition invalid :: "string \<Rightarrow> string \<Rightarrow> err" where
  "invalid field msg = RuInvalid field (if length msg > maxErrorLen then shrink msg maxErrorLen else msg)"

section \<open>The evaluation input\<close>

record email =
  emSubject :: string
  emBody :: string
  emFrom :: string
  emFromName :: string
  emRecipient :: string
  emFromDomain :: string
  emHasAttachments :: bool
  emSpamScore :: float64

definition ruDomainOf :: "unicode \<Rightarrow> string \<Rightarrow> string" where
  "ruDomainOf u addr = (case after_last CHR ''@'' addr of None \<Rightarrow> [] | Some d \<Rightarrow> ToLower u d)"

definition ruTruncate :: "string \<Rightarrow> nat \<Rightarrow> string" where
  "ruTruncate s n = (if length s \<le> n then s else shrink s n)"

definition EmailOf :: "unicode \<Rightarrow> message option \<Rightarrow> string \<Rightarrow> email" where
  "EmailOf u msg recipient =
     (case msg of
        None \<Rightarrow> \<lparr>emSubject = [], emBody = [], emFrom = [], emFromName = [], emRecipient = recipient, emFromDomain = [],
                 emHasAttachments = False, emSpamScore = 0\<rparr>
      | Some m \<Rightarrow> \<lparr>emSubject = msSubject m, emBody = ruTruncate (msText m) MaxBodyEval, emFrom = msFromEmail m,
                 emFromName = msFromName m, emRecipient = recipient, emFromDomain = ruDomainOf u (msFromEmail m),
                 emHasAttachments = (length (msAttachments m) > 0 \<or> length (msSkipped m) > 0), emSpamScore = msSpamScore m\<rparr>)"

datatype cel_var = CStr string | CBool bool | CDouble float64

definition vars :: "email \<Rightarrow> (string \<times> cel_var) list" where
  "vars m = [(FieldSubject, CStr (emSubject m)), (FieldBody, CStr (ruTruncate (emBody m) MaxBodyEval)), (FieldFrom, CStr (emFrom m)),
     (FieldFromName, CStr (emFromName m)), (FieldRecipient, CStr (emRecipient m)), (FieldFromDomain, CStr (emFromDomain m)),
     (FieldHasAttachments, CBool (emHasAttachments m)), (FieldSpamScore, CDouble (emSpamScore m))]"

section \<open>The library and the engine\<close>

datatype cel_value = BoolValue bool | OtherValue

record ('ast, 'p) cel =
  ceCompile :: "string \<Rightarrow> string + 'ast"
  ceIsBool :: "'ast \<Rightarrow> bool"
  ceTypeName :: "'ast \<Rightarrow> string"
  ceProgram :: "64 word \<Rightarrow> 'ast \<Rightarrow> string + 'p"
  ceDone :: "nat \<Rightarrow> string option"
  ceEval :: "nat \<Rightarrow> 'p \<Rightarrow> (string \<times> cel_var) list \<Rightarrow> string + cel_value"
  ceRegexp :: "string \<Rightarrow> string option"
  ceParseFloat :: "string \<Rightarrow> float64 option"
  ceFormatFloat :: "float64 \<Rightarrow> string"

record engine_config =
  ecCostLimit :: "64 word"
  ecTimeout :: int

record 'p program =
  pgExpr :: string
  pgVersion :: int
  pgPrg :: "'p option"

text \<open>The state of the services around the engine: its cache, and the number of evaluations so far.\<close>

record 'p ruled = desk +
  enCache :: "'p program table"
  enEvals :: nat

definition NewEngine :: "engine_config \<Rightarrow> engine_config" where
  "NewEngine cfg = \<lparr>ecCostLimit = (if ecCostLimit cfg = 0 then DefaultCostLimit else ecCostLimit cfg),
     ecTimeout = (if ecTimeout cfg \<le> 0 then DefaultTimeout else ecTimeout cfg)\<rparr>"

section \<open>Expressions\<close>

definition asciiLower :: "string \<Rightarrow> string" where
  "asciiLower s = map lower_byte s"

definition quoteRune :: "unicode \<Rightarrow> rune \<Rightarrow> string" where
  "quoteRune u r =
     (if r = byte backslash then [backslash, backslash]
      else if r = byte dquote then [backslash, dquote]
      else if r < 0x80 \<and> uIsPrint u r then EncodeRune r
      else if r \<ge> 0x80 \<and> uIsPrint u r \<and> r \<noteq> 0x2028 \<and> r \<noteq> 0x2029 then EncodeRune r
      else if r \<le> 0xFFFF then [backslash, CHR ''u''] @ hexText 4 r
      else [backslash, CHR ''U''] @ hexText 8 r)"

definition quote :: "unicode \<Rightarrow> string \<Rightarrow> string" where
  "quote u s = [dquote] @ concat (map (quoteRune u) (runes s)) @ [dquote]"

definition doubleLiteral :: "('ast, 'p) cel \<Rightarrow> float64 \<Rightarrow> string" where
  "doubleLiteral ce v =
     (let lit = ceFormatFloat ce v
      in if \<exists>c \<in> set lit. c \<in> {CHR ''.'', CHR ''e'', CHR ''E''} then lit else lit @ ''.0'')"

definition boolCondition :: "unicode \<Rightarrow> string \<Rightarrow> string \<Rightarrow> condition \<Rightarrow> string res" where
  "boolCondition u at oper c =
     (if oper \<noteq> [] \<and> oper \<notin> set BoolOperators then
        Inl (invalid (at @ ''.operator'') (Quote u (cnOperator c) @ '' is not an operator of hasAttachments (equals, not_equals)''))
      else
      (let v = ToLower u (TrimSpace (cnValue c));
           cmp = (if oper = ''not_equals'' \<or> oper = ''neq'' then ''!='' else ''=='')
       in if v = [] \<or> v = ''true'' then Inr (FieldHasAttachments @ '' '' @ cmp @ '' '' @ ''true'')
          else if v = ''false'' then Inr (FieldHasAttachments @ '' '' @ cmp @ '' '' @ ''false'')
          else Inl (invalid (at @ ''.value'') ''hasAttachments takes true or false'')))"

definition numericCondition :: "('ast, 'p) cel \<Rightarrow> unicode \<Rightarrow> string \<Rightarrow> string \<Rightarrow> condition \<Rightarrow> string res" where
  "numericCondition ce u at oper c =
     (case map_of numericOps oper of
        None \<Rightarrow> Inl (invalid (at @ ''.operator'') (Quote u (cnOperator c) @ '' is not a numeric operator (gt, gte, lt, lte, eq, neq)''))
      | Some symb \<Rightarrow>
          (case ceParseFloat ce (TrimSpace (cnValue c)) of
             None \<Rightarrow> Inl (invalid (at @ ''.value'') ''spamScore takes a number'')
           | Some v \<Rightarrow>
               if notFinite v then Inl (invalid (at @ ''.value'') ''spamScore takes a number'')
               else Inr (FieldSpamScore @ '' '' @ symb @ '' '' @ doubleLiteral ce v)))"

definition textCondition :: "('ast, 'p) cel \<Rightarrow> unicode \<Rightarrow> string \<Rightarrow> string \<Rightarrow> string \<Rightarrow> condition \<Rightarrow> string res" where
  "textCondition ce u at field oper c =
     (if field \<notin> set TextFields then Inl (invalid (at @ ''.field'') (''unknown field '' @ Quote u (cnField c)))
      else if oper \<notin> set TextOperators then
        Inl (invalid (at @ ''.operator'') (Quote u (cnOperator c) @ '' is not a text operator''))
      else if cnValue c = [] \<and> oper \<noteq> ''equals'' \<and> oper \<noteq> ''not_equals'' then
        Inl (invalid (at @ ''.value'') ''a value is required'')
      else if oper = ''matches'' then
        (case ceRegexp ce (cnValue c) of
           Some e \<Rightarrow> Inl (invalid (at @ ''.value'') (''invalid pattern: '' @ e))
         | None \<Rightarrow> Inr (field @ ''.matches('' @ quote u (cnValue c) @ '')''))
      else
      (let lf = field @ ''.lowerAscii()''; lv = quote u (asciiLower (cnValue c))
       in if oper = ''contains'' then Inr (lf @ ''.contains('' @ lv @ '')'')
          else if oper = ''not_contains'' then Inr (''!'' @ lf @ ''.contains('' @ lv @ '')'')
          else if oper = ''equals'' then Inr (lf @ '' == '' @ lv)
          else if oper = ''not_equals'' then Inr (lf @ '' != '' @ lv)
          else if oper = ''starts_with'' then Inr (lf @ ''.startsWith('' @ lv @ '')'')
          else Inr (lf @ ''.endsWith('' @ lv @ '')'')))"

definition conditionExpr :: "('ast, 'p) cel \<Rightarrow> unicode \<Rightarrow> nat \<Rightarrow> condition \<Rightarrow> string res" where
  "conditionExpr ce u i c =
     (let field = TrimSpace (cnField c);
          oper = ToLower u (TrimSpace (cnOperator c));
          at = ''conditions['' @ Itoa (int i) @ '']''
      in if \<not> ValidString (cnValue c) then Inl (invalid (at @ ''.value'') ''must be valid UTF-8'')
         else if length (cnValue c) > MaxValueLen then
           Inl (invalid (at @ ''.value'') (''longer than '' @ Itoa (int MaxValueLen) @ '' bytes''))
         else if field = FieldHasAttachments then boolCondition u at oper c
         else if field = FieldSpamScore then numericCondition ce u at oper c
         else textCondition ce u at field oper c)"

definition NormalizeMatch :: "unicode \<Rightarrow> string \<Rightarrow> string res" where
  "NormalizeMatch u mode =
     (let m = ToLower u (TrimSpace mode)
      in if m = [] \<or> m = MatchAll then Inr MatchAll
         else if m = MatchAny then Inr MatchAny
         else Inl (invalid ''match'' ''must be all or any''))"

fun conditionParts :: "('ast, 'p) cel \<Rightarrow> unicode \<Rightarrow> nat \<Rightarrow> condition list \<Rightarrow> string list res" where
  "conditionParts ce u i [] = Inr []"
| "conditionParts ce u i (c # cs) =
     (case conditionExpr ce u i c of
        Inl e \<Rightarrow> Inl e
      | Inr x \<Rightarrow> (case conditionParts ce u (Suc i) cs of Inl e \<Rightarrow> Inl e | Inr xs \<Rightarrow> Inr ((''('' @ x @ '')'') # xs)))"

definition BuildExpression :: "('ast, 'p) cel \<Rightarrow> unicode \<Rightarrow> string \<Rightarrow> condition list \<Rightarrow> string res" where
  "BuildExpression ce u mode conds =
     (case NormalizeMatch u mode of
        Inl e \<Rightarrow> Inl e
      | Inr m \<Rightarrow>
          if conds = [] then Inl (invalid ''conditions'' ''add at least one condition or an expression'')
          else if length conds > MaxConditions then
            Inl (invalid ''conditions'' (''at most '' @ Itoa (int MaxConditions) @ '' conditions''))
          else
          (case conditionParts ce u 0 conds of
             Inl e \<Rightarrow> Inl e
           | Inr parts \<Rightarrow> Inr (Join parts (if m = MatchAny then '' || '' else '' && ''))))"

definition Effective :: "('ast, 'p) cel \<Rightarrow> unicode \<Rightarrow> rule \<Rightarrow> string res" where
  "Effective ce u r =
     (let x = TrimSpace (ruExpression r)
      in if x \<noteq> [] then
           (if length (ruExpression r) > MaxExpressionLen then
              Inl (invalid ''expression'' (''longer than '' @ Itoa (int MaxExpressionLen) @ '' bytes''))
            else if \<not> ValidString x then Inl (invalid ''expression'' ''must be valid UTF-8'')
            else Inr x)
         else BuildExpression ce u (ruMatch r) (ruConditions r))"

section \<open>Compilation, cache and evaluation\<close>

definition Compile :: "('ast, 'p) cel \<Rightarrow> engine_config \<Rightarrow> unicode \<Rightarrow> rule \<Rightarrow> 'p program res" where
  "Compile ce cfg u r =
     (case Effective ce u r of
        Inl e \<Rightarrow> Inl e
      | Inr expr \<Rightarrow>
          (let field = (if TrimSpace (ruExpression r) = [] then ''conditions'' else ''expression'')
           in case ceCompile ce expr of
                Inl e \<Rightarrow> Inl (invalid field e)
              | Inr ast \<Rightarrow>
                  if \<not> ceIsBool ce ast then
                    Inl (invalid field (''must evaluate to true or false, not '' @ ceTypeName ce ast))
                  else
                  (case ceProgram ce (ecCostLimit cfg) ast of
                     Inl e \<Rightarrow> Inl (invalid field e)
                   | Inr prg \<Rightarrow> Inr \<lparr>pgExpr = expr, pgVersion = ruVersion r, pgPrg = Some prg\<rparr>)))"

definition Forget :: "string \<Rightarrow> (('p, 'a) ruled_scheme, unit) op" where
  "Forget ident = modify (\<lambda>w. w\<lparr>enCache := AList.delete ident (enCache w)\<rparr>)"

definition CacheLen :: "(('p, 'a) ruled_scheme, int) op" where
  "CacheLen = fetch (\<lambda>w. int (length (enCache w)))"

definition cachePut :: "string \<Rightarrow> 'p program \<Rightarrow> (('p, 'a) ruled_scheme, unit) op" where
  "cachePut ident p =
     modify (\<lambda>w. w\<lparr>enCache := AList.update ident p (if length (enCache w) \<ge> maxCacheItems then [] else enCache w)\<rparr>)"

definition compileCached :: "('ast, 'p) cel \<Rightarrow> engine_config \<Rightarrow> unicode \<Rightarrow> rule \<Rightarrow> (('p, 'a) ruled_scheme, 'p program) op" where
  "compileCached ce cfg u r =
     (case Compile ce cfg u r of
        Inl e \<Rightarrow> bnd (Forget (ruID r)) (\<lambda>_. throw e)
      | Inr p \<Rightarrow> bnd (cachePut (ruID r) p) (\<lambda>_. ret p))"

definition Program :: "('ast, 'p) cel \<Rightarrow> engine_config \<Rightarrow> rule \<Rightarrow> (('p, 'a) ruled_scheme, 'p program) op" where
  "Program ce cfg r =
     bnd (fetch ucd) (\<lambda>u.
     if ruID r = [] then of_res (Compile ce cfg u r)
     else
     bnd (fetch (\<lambda>w. map_of (enCache w) (ruID r))) (\<lambda>hit.
     case hit of
       Some p \<Rightarrow> if pgVersion p = ruVersion r then ret p else compileCached ce cfg u r
     | None \<Rightarrow> compileCached ce cfg u r))"

definition engineEvaluate :: "('ast, 'p) cel \<Rightarrow> 'p program option \<Rightarrow> email \<Rightarrow> (('p, 'a) ruled_scheme, bool) op" where
  "engineEvaluate ce p m =
     (case Option.bind p pgPrg of
        None \<Rightarrow> throw (RuEvaluate ''no program'')
      | Some prg \<Rightarrow>
          bnd (fetch enEvals) (\<lambda>n.
          bnd (modify (\<lambda>w. w\<lparr>enEvals := Suc n\<rparr>)) (\<lambda>_.
          case ceDone ce n of
            Some e \<Rightarrow> throw (RuEvaluate e)
          | None \<Rightarrow>
              (case ceEval ce n prg (vars m) of
                 Inl e \<Rightarrow> throw (RuEvaluate (''evaluate: '' @ e))
               | Inr (BoolValue b) \<Rightarrow> ret b
               | Inr OtherValue \<Rightarrow> throw (RuEvaluate ''expression did not yield a boolean'')))))"

end
