(* ===== verification/RuleTriage.thy ===== *)
theory RuleTriage
  imports RuleEngine
begin

text \<open>
  The triage of a message that would open a ticket (\<open>internal/rules/apply.go\<close>): the
  tenant's enabled rules run in order, the actions of the matching ones are combined into a
  decision, and the decision is applied once the ticket exists. Cancellation of the per-message
  deadline is part of what the numbered evaluations of \<open>cel\<close> answer.
\<close>

record tag_ref =
  trKind :: string
  trName :: string

record decision =
  dcDrop :: bool
  dcMatchedIDs :: "string list"
  dcMatchedNames :: "string list"
  dcTags :: "tag_ref list"
  dcAssigneeID :: string
  dcStatus :: string
  dcPriority :: string
  dcErrors :: int

definition noDecision :: decision where
  "noDecision = \<lparr>dcDrop = False, dcMatchedIDs = [], dcMatchedNames = [], dcTags = [], dcAssigneeID = [], dcStatus = [],
     dcPriority = [], dcErrors = 0\<rparr>"

definition Empty :: "decision \<Rightarrow> bool" where
  "Empty d \<longleftrightarrow> dcTags d = [] \<and> dcAssigneeID d = [] \<and> dcStatus d = [] \<and> dcPriority d = []"

text \<open>A decision under construction and the keys of the tags it has.\<close>

type_synonym merging = "decision \<times> string list"

definition tagKey :: "unicode \<Rightarrow> string \<Rightarrow> string \<Rightarrow> string" where
  "tagKey u kind n = kind @ [CHR 0x00] @ ToLower u n"

definition mergeTag :: "unicode \<Rightarrow> string \<Rightarrow> string \<Rightarrow> merging \<Rightarrow> merging" where
  "mergeTag u kind name = (\<lambda>(d, seen).
     let n = TrimSpace name; key = tagKey u kind n
     in if n = [] \<or> key \<in> set seen then (d, seen)
        else (d\<lparr>dcTags := dcTags d @ [\<lparr>trKind = kind, trName = n\<rparr>]\<rparr>, key # seen))"

definition mergeAction :: "unicode \<Rightarrow> action \<Rightarrow> merging \<Rightarrow> merging" where
  "mergeAction u a = (\<lambda>(d, seen).
     if acType a = ActionTag then
       fold (mergeTag u (if acTagKind a = [] then KindTag else acTagKind a)) (acTagNames a) (d, seen)
     else if acType a = ActionAssign then
       ((if dcAssigneeID d = [] then d\<lparr>dcAssigneeID := acAssigneeID a\<rparr> else d), seen)
     else if acType a = ActionStatus then
       ((if dcStatus d = [] then d\<lparr>dcStatus := acStatus a\<rparr> else d), seen)
     else if acType a = ActionPriority then
       ((if dcPriority d = [] then d\<lparr>dcPriority := acPriority a\<rparr> else d), seen)
     else if acType a = ActionDrop then (d\<lparr>dcDrop := True\<rparr>, seen)
     else (d, seen))"

definition merge :: "unicode \<Rightarrow> rule \<Rightarrow> merging \<Rightarrow> merging" where
  "merge u r = (\<lambda>(d, seen).
     fold (mergeAction u) (ruActions r)
       (d\<lparr>dcMatchedIDs := dcMatchedIDs d @ [ruID r], dcMatchedNames := dcMatchedNames d @ [ruName r]\<rparr>, seen))"

definition ruleError :: "string \<Rightarrow> rule \<Rightarrow> ('a world_scheme, unit) op" where
  "ruleError tenantID r =
     bnd MetricRuleError (\<lambda>_.
     Emit \<lparr>evTenantID = tenantID, evEventType = RuleError, evActorKind = ActorRule, evActorID = ruID r,
       evSubjectKind = SubjectRule, evSubjectID = ruID r, evOutcome = OutcomeError, evReason = ''evaluation_failed'', evDetails = []\<rparr>)"

definition runRule :: "('ast, 'p) cel \<Rightarrow> engine_config \<Rightarrow> email \<Rightarrow> rule \<Rightarrow> (('p, 'a) ruled_scheme, bool) op" where
  "runRule ce cfg m r = bnd (Program ce cfg r) (\<lambda>p. engineEvaluate ce (Some p) m)"

fun decideRules ::
  "('ast, 'p) cel \<Rightarrow> engine_config \<Rightarrow> unicode \<Rightarrow> string \<Rightarrow> email \<Rightarrow> rule list \<Rightarrow> merging \<Rightarrow> (('p, 'a) ruled_scheme, decision) op" where
  "decideRules ce cfg u tenantID m [] s = ret (fst s)"
| "decideRules ce cfg u tenantID m (r # rs) s =
     bnd (attempt (runRule ce cfg m r)) (\<lambda>res.
     case res of
       Inr ok \<Rightarrow> decideRules ce cfg u tenantID m rs (if ok then merge u r s else s)
     | Inl e \<Rightarrow>
         bnd (ruleError tenantID r) (\<lambda>_.
         decideRules ce cfg u tenantID m rs ((fst s)\<lparr>dcErrors := dcErrors (fst s) + 1\<rparr>, snd s)))"

definition Decide ::
  "('ast, 'p) cel \<Rightarrow> engine_config \<Rightarrow> int \<Rightarrow> string \<Rightarrow> email \<Rightarrow> (('p, 'a) ruled_scheme, decision) op" where
  "Decide ce cfg maxRules tenantID m =
     bnd (map_err (Wrapped ''rules: list'') (ListEnabledRules tenantID)) (\<lambda>rs.
     let rs' = (if maxRules > 0 \<and> int (length rs) > maxRules then take (nat maxRules) rs else rs)
     in bnd (fetch ucd) (\<lambda>u. decideRules ce cfg u tenantID m rs' (noDecision, [])))"

section \<open>Applying a decision\<close>

fun ensureTags :: "string \<Rightarrow> tag_ref list \<Rightarrow> ('a mem_scheme, string list \<times> err list) op" where
  "ensureTags tenantID [] = ret ([], [])"
| "ensureTags tenantID (ref # refs) =
     bnd (attempt (EnsureTagByName tenantID (trKind ref) (trName ref))) (\<lambda>r.
     bnd (ensureTags tenantID refs) (\<lambda>(ids, errs).
     case r of
       Inl e \<Rightarrow> ret (ids, Wrapped ''tag'' e # errs)
     | Inr t \<Rightarrow> ret (tgID t # ids, errs)))"

definition applyTags :: "string \<Rightarrow> string \<Rightarrow> decision \<Rightarrow> ('a world_scheme, err list) op" where
  "applyTags tenantID ticketID d =
     bnd (ensureTags tenantID (dcTags d)) (\<lambda>(ids, errs).
     if ids = [] then ret errs
     else
     bnd (attempt (AddTicketTags tenantID ticketID ids)) (\<lambda>r.
     case r of
       Inl e \<Rightarrow> ret (errs @ [Wrapped ''tags'' e])
     | Inr _ \<Rightarrow>
         bnd (Emit \<lparr>evTenantID = tenantID, evEventType = TicketTags, evActorKind = ActorRule, evActorID = Join (dcMatchedIDs d) '','',
                evSubjectKind = SubjectTicket, evSubjectID = ticketID, evOutcome = OutcomeOK, evReason = [],
                evDetails = [(''added'', VInt (int (length ids))), (''rules'', VInt (int (length (dcMatchedIDs d))))]\<rparr>) (\<lambda>_.
         ret errs)))"

text \<open>One best-effort action: its failure is collected, not returned.\<close>

definition collecting :: "string \<Rightarrow> ('w, 'a) op \<Rightarrow> err list \<Rightarrow> ('w, err list) op" where
  "collecting what f errs =
     bnd (attempt f) (\<lambda>r. ret (case r of Inl e \<Rightarrow> errs @ [Wrapped what e] | Inr _ \<Rightarrow> errs))"

definition triageApply :: "directory option \<Rightarrow> subjects \<Rightarrow> string \<Rightarrow> decision \<Rightarrow> ('a world_scheme, unit) op" where
  "triageApply dir subj ticketID d =
     bnd (if dcTags d \<noteq> [] then applyTags (suTenantID subj) ticketID d else ret []) (\<lambda>e1.
     bnd (if dcAssigneeID d \<noteq> [] then collecting ''assign'' (AssignAs dir subj ticketID (dcAssigneeID d) ActorRule) e1 else ret e1) (\<lambda>e2.
     bnd (if dcStatus d \<noteq> [] then collecting ''status'' (SetStatusAs subj ticketID (dcStatus d) ActorRule) e2 else ret e2) (\<lambda>e3.
     bnd (if dcPriority d \<noteq> [] then collecting ''priority'' (SetPriorityAs subj ticketID (dcPriority d) ActorRule) e3 else ret e3) (\<lambda>e4.
     if e4 = [] then ret () else throw (Joined e4)))))"

text \<open>What the triage hands back (\<open>inbound.Plan\<close>): drop, or what to apply to the created ticket.\<close>

record plan =
  plnDrop :: bool
  plnApply :: "decision option"

definition Evaluate ::
  "('ast, 'p) cel \<Rightarrow> engine_config \<Rightarrow> int \<Rightarrow> subjects \<Rightarrow> message option \<Rightarrow> string \<Rightarrow> (('p, 'a) ruled_scheme, plan) op" where
  "Evaluate ce cfg maxRules subj msg recipient =
     (if suTenantID subj = [] then throw (Forbidden ''tenant required'')
      else
      bnd (fetch ucd) (\<lambda>u.
      bnd (Decide ce cfg maxRules (suTenantID subj) (EmailOf u msg recipient)) (\<lambda>d.
      if dcDrop d then ret \<lparr>plnDrop = True, plnApply = None\<rparr>
      else if Empty d then ret \<lparr>plnDrop = False, plnApply = None\<rparr>
      else ret \<lparr>plnDrop = False, plnApply = Some d\<rparr>)))"

end
