(* ===== verification/RuleSvc.thy ===== *)
theory RuleSvc
  imports RuleTriage
begin

text \<open>
  The rules administration (\<open>internal/rules/service.go\<close>): a rule is validated, normalised and
  type-checked before it is stored, changes are audited by counts and types, and a dry run
  evaluates a rule on a sample without storing anything.
\<close>

section \<open>Input\<close>

definition ruMaxName :: nat where "ruMaxName = 200"
definition MaxActions :: nat where "MaxActions = 20"
definition MaxTagNames :: nat where "MaxTagNames = 20"
definition MaxTagName :: nat where "MaxTagName = 100"
definition MaxSort :: int where "MaxSort = 1000000"
definition DefaultMaxRules :: int where "DefaultMaxRules = 500"

record rule_input =
  riName :: string
  riEnabled :: "bool option"
  riSortOrder :: int
  riMatch :: string
  riConditions :: "condition list"
  riExpression :: string
  riActions :: "action list"

record sample =
  saSubject :: string
  saBody :: string
  saFrom :: string
  saFromName :: string
  saRecipient :: string
  saHasAttachments :: bool
  saSpamScore :: float64

definition sampleEmail :: "unicode \<Rightarrow> sample \<Rightarrow> email" where
  "sampleEmail u s = \<lparr>emSubject = saSubject s, emBody = ruTruncate (saBody s) MaxBodyEval, emFrom = saFrom s,
     emFromName = saFromName s, emRecipient = saRecipient s, emFromDomain = ruDomainOf u (saFrom s),
     emHasAttachments = saHasAttachments s, emSpamScore = saSpamScore s\<rparr>"

record test_result =
  trMatched :: bool
  trActions :: "action list"

definition ruMapErr :: "err \<Rightarrow> err" where
  "ruMapErr e = (if err_is e RepoNotFound then RuNotFound else e)"

definition ruHasControl :: "string \<Rightarrow> bool" where
  "ruHasControl v \<longleftrightarrow> (\<exists>r \<in> set (runes v). r < 0x20 \<or> r = 0x7F)"

section \<open>Actions\<close>

text \<open>The cleaned tag names of one action, in order; the second list holds the lower-cased names seen.\<close>

fun cleanTagNames :: "unicode \<Rightarrow> string \<Rightarrow> string list \<Rightarrow> string list \<Rightarrow> string list \<Rightarrow> string list res" where
  "cleanTagNames u at [] seen out = Inr out"
| "cleanTagNames u at (x # xs) seen out =
     (let name = TrimSpace x
      in if name = [] \<or> ToLower u name \<in> set seen then cleanTagNames u at xs seen out
         else if \<not> ValidString name \<or> RuneCountInString name > MaxTagName \<or> ruHasControl name then
           Inl (invalid (at @ ''.tag_names'') ''a tag name is too long or has invalid characters'')
         else cleanTagNames u at xs (ToLower u name # seen) (out @ [name]))"

definition emptyAction :: "string \<Rightarrow> action" where
  "emptyAction t = \<lparr>acType = t, acTagKind = [], acTagNames = [], acAssigneeID = [], acStatus = [], acPriority = []\<rparr>"

definition normalizeAction :: "unicode \<Rightarrow> nat \<Rightarrow> action \<Rightarrow> action res" where
  "normalizeAction u i a =
     (let at = ''actions['' @ Itoa (int i) @ '']''; n = emptyAction (TrimSpace (acType a))
      in if acType n = ActionTag then
           (let kind = (if acTagKind a = [] then KindTag else acTagKind a)
            in if \<not> ValidKind kind then Inl (invalid (at @ ''.tag_kind'') ''tag or category'')
               else
               (case cleanTagNames u at (acTagNames a) [] [] of
                  Inl e \<Rightarrow> Inl e
                | Inr names \<Rightarrow>
                    if names = [] then Inl (invalid (at @ ''.tag_names'') ''name at least one tag'')
                    else if length names > MaxTagNames then
                      Inl (invalid (at @ ''.tag_names'') (''at most '' @ Itoa (int MaxTagNames) @ '' tags''))
                    else Inr (n\<lparr>acTagKind := kind, acTagNames := names\<rparr>)))
         else if acType n = ActionAssign then
           (let assignee = TrimSpace (acAssigneeID a)
            in if assignee = [] then Inl (invalid (at @ ''.assignee_id'') ''choose an assignee'')
               else Inr (n\<lparr>acAssigneeID := assignee\<rparr>))
         else if acType n = ActionStatus then
           (if \<not> ValidStatus (acStatus a) then Inl (invalid (at @ ''.status'') ''unknown status'')
            else Inr (n\<lparr>acStatus := acStatus a\<rparr>))
         else if acType n = ActionPriority then
           (if \<not> ValidPriority (acPriority a) then Inl (invalid (at @ ''.priority'') ''unknown priority'')
            else Inr (n\<lparr>acPriority := acPriority a\<rparr>))
         else if acType n = ActionDrop then Inr n
         else Inl (invalid (at @ ''.type'') (''unknown action '' @ Quote u (acType a))))"

fun normalizeFrom :: "unicode \<Rightarrow> nat \<Rightarrow> action list \<Rightarrow> action list res" where
  "normalizeFrom u i [] = Inr []"
| "normalizeFrom u i (a # as) =
     (case normalizeAction u i a of
        Inl e \<Rightarrow> Inl e
      | Inr n \<Rightarrow> (case normalizeFrom u (Suc i) as of Inl e \<Rightarrow> Inl e | Inr ns \<Rightarrow> Inr (n # ns)))"

definition normalizeActions :: "unicode \<Rightarrow> action list \<Rightarrow> action list res" where
  "normalizeActions u inp =
     (if inp = [] then Inl (invalid ''actions'' ''add at least one action'')
      else if length inp > MaxActions then Inl (invalid ''actions'' (''at most '' @ Itoa (int MaxActions) @ '' actions''))
      else normalizeFrom u 0 inp)"

section \<open>Building a rule\<close>

definition builtRule :: "unicode \<Rightarrow> rule_input \<Rightarrow> string \<Rightarrow> string \<Rightarrow> action list \<Rightarrow> rule" where
  "builtRule u inp name mode actions =
     \<lparr>ruID = [], ruTenantID = [], ruName = name, ruEnabled = (case riEnabled inp of None \<Rightarrow> True | Some b \<Rightarrow> b),
      ruSortOrder = riSortOrder inp, ruMatch = mode,
      ruConditions = map (\<lambda>c. \<lparr>cnField = TrimSpace (cnField c), cnOperator = ToLower u (TrimSpace (cnOperator c)), cnValue = cnValue c\<rparr>)
        (riConditions inp),
      ruExpression = TrimSpace (riExpression inp), ruActions = actions, ruVersion = 0, ruCreatedAt = 0, ruUpdatedAt = 0\<rparr>"

definition storedConditions :: "('ast, 'p) cel \<Rightarrow> unicode \<Rightarrow> rule_input \<Rightarrow> rule \<Rightarrow> unit res" where
  "storedConditions ce u inp r =
     (if ruExpression r \<noteq> [] \<and> length (riConditions inp) > MaxConditions then
        Inl (invalid ''conditions'' (''at most '' @ Itoa (int MaxConditions) @ '' conditions''))
      else if ruExpression r \<noteq> [] \<and> ruConditions r \<noteq> [] then
        (case BuildExpression ce u (ruMatch r) (ruConditions r) of Inl e \<Rightarrow> Inl e | Inr _ \<Rightarrow> Inr ())
      else Inr ())"

definition build :: "('ast, 'p) cel \<Rightarrow> engine_config \<Rightarrow> unicode \<Rightarrow> rule_input \<Rightarrow> rule res" where
  "build ce cfg u inp =
     (let name = TrimSpace (riName inp)
      in if name = [] then Inl (invalid ''name'' ''required'')
         else if \<not> ValidString name \<or> RuneCountInString name > ruMaxName \<or> ruHasControl name then
           Inl (invalid ''name'' ''too long or invalid characters'')
         else if riSortOrder inp < - MaxSort \<or> riSortOrder inp > MaxSort then Inl (invalid ''sort_order'' ''out of range'')
         else
         (case NormalizeMatch u (riMatch inp) of
            Inl e \<Rightarrow> Inl e
          | Inr mode \<Rightarrow>
              (case normalizeActions u (riActions inp) of
                 Inl e \<Rightarrow> Inl e
               | Inr actions \<Rightarrow>
                   (let r = builtRule u inp name mode actions
                    in case storedConditions ce u inp r of
                         Inl e \<Rightarrow> Inl e
                       | Inr _ \<Rightarrow> (case Compile ce cfg u r of Inl e \<Rightarrow> Inl e | Inr _ \<Rightarrow> Inr r)))))"

fun checkAssignees :: "directory option \<Rightarrow> string \<Rightarrow> action list \<Rightarrow> unit res" where
  "checkAssignees dir tenantID [] = Inr ()"
| "checkAssignees dir tenantID (a # as) =
     (if acType a \<noteq> ActionAssign then checkAssignees dir tenantID as
      else case dir of
             None \<Rightarrow> Inl RuDirectoryUnavailable
           | Some get \<Rightarrow>
               (case get tenantID (acAssigneeID a) of
                  Inr _ \<Rightarrow> checkAssignees dir tenantID as
                | Inl e \<Rightarrow>
                    if err_is e AgUnknownUser \<or> err_is e AgNotAssignable then Inl RuInvalidAssignee
                    else Inl RuDirectoryUnavailable))"

definition auditRule ::
  "subjects \<Rightarrow> string \<Rightarrow> string \<Rightarrow> string \<Rightarrow> string \<Rightarrow> rule option \<Rightarrow> ('a world_scheme, unit) op" where
  "auditRule subj t ident outcome reason rule =
     Emit \<lparr>evTenantID = suTenantID subj, evEventType = t, evActorKind = ActorOf (suActorKind subj),
       evActorID = ActorID subj, evSubjectKind = SubjectRule, evSubjectID = ident, evOutcome = outcome, evReason = reason,
       evDetails = (case rule of None \<Rightarrow> []
         | Some r \<Rightarrow> [(''enabled'', VBool (ruEnabled r)), (''sort_order'', VInt (ruSortOrder r)), (''match'', VStr (ruMatch r)),
             (''conditions'', VInt (int (length (ruConditions r)))), (''expression'', VBool (ruExpression r \<noteq> [])),
             (''actions'', VList (map (\<lambda>a. VStr (acType a)) (ruActions r))), (''version'', VInt (ruVersion r))])\<rparr>"

definition ruReasonOf :: "err \<Rightarrow> string" where
  "ruReasonOf e =
     (case e of
        RuInvalid f m \<Rightarrow> ''invalid_rule''
      | _ \<Rightarrow> if err_is e RuInvalidAssignee then ''invalid_assignee''
             else if err_is e RuDirectoryUnavailable then ''directory_unavailable''
             else ''error'')"

section \<open>Operations\<close>

definition ruList ::
  "(rule list \<Rightarrow> 'req \<Rightarrow> (rule \<Rightarrow> string \<Rightarrow> sort_val) \<Rightarrow> (rule \<Rightarrow> string) \<Rightarrow> rule list) \<Rightarrow>
   (rule list \<Rightarrow> 'req \<Rightarrow> rule list \<times> int \<times> 'req) \<Rightarrow>
   subjects \<Rightarrow> 'req \<Rightarrow> ('a mem_scheme, rule list \<times> int \<times> 'req) op" where
  "ruList SortSlice Window subj req = bnd (of_res (tenantOf subj)) (\<lambda>tenantID. PageRules SortSlice Window tenantID req)"

definition ruGet :: "subjects \<Rightarrow> string \<Rightarrow> ('a mem_scheme, rule) op" where
  "ruGet subj ident = bnd (of_res (tenantOf subj)) (\<lambda>tenantID. map_err ruMapErr (GetRule tenantID ident))"

definition ruValidate ::
  "('ast, 'p) cel \<Rightarrow> engine_config \<Rightarrow> directory option \<Rightarrow> subjects \<Rightarrow> string \<Rightarrow> string \<Rightarrow> rule_input \<Rightarrow> ('a world_scheme, rule) op" where
  "ruValidate ce cfg dir subj event ident inp =
     bnd (fetch ucd) (\<lambda>u.
     let res = (case build ce cfg u inp of
                  Inl e \<Rightarrow> Inl e
                | Inr r \<Rightarrow> (case checkAssignees dir (suTenantID subj) (ruActions r) of Inl e \<Rightarrow> Inl e | Inr _ \<Rightarrow> Inr r))
     in case res of
          Inr r \<Rightarrow> ret r
        | Inl e \<Rightarrow>
            if \<not> err_is e RuDirectoryUnavailable then
              bnd (auditRule subj event ident OutcomeRefused (ruReasonOf e) None) (\<lambda>_. throw e)
            else throw e)"

definition ruCreate ::
  "('ast, 'p) cel \<Rightarrow> engine_config \<Rightarrow> directory option \<Rightarrow> int \<Rightarrow> subjects \<Rightarrow> rule_input \<Rightarrow> ('a world_scheme, rule) op" where
  "ruCreate ce cfg dir maxRules subj inp =
     bnd (of_res (tenantOf subj)) (\<lambda>tenantID.
     bnd (ListRules tenantID) (\<lambda>existing.
     let limit = (if maxRules \<le> 0 then DefaultMaxRules else maxRules)
     in if int (length existing) \<ge> limit then
          throw (invalid ''rules'' (''a tenant may have at most '' @ Itoa limit @ '' rules''))
        else
        bnd NewID (\<lambda>i.
        bnd (ruValidate ce cfg dir subj RuleCreate i inp) (\<lambda>r.
        bnd Now (\<lambda>now.
        bnd (CreateRule (r\<lparr>ruID := i, ruTenantID := tenantID, ruVersion := 1, ruCreatedAt := now, ruUpdatedAt := now\<rparr>)) (\<lambda>_.
        bnd (map_err ruMapErr (GetRule tenantID i)) (\<lambda>stored.
        bnd (auditRule subj RuleCreate i OutcomeOK [] (Some stored)) (\<lambda>_.
        ret stored))))))))"

definition ruUpdate ::
  "('ast, 'p) cel \<Rightarrow> engine_config \<Rightarrow> directory option \<Rightarrow> subjects \<Rightarrow> string \<Rightarrow> rule_input \<Rightarrow> ('a world_scheme, rule) op" where
  "ruUpdate ce cfg dir subj ident inp =
     bnd (of_res (tenantOf subj)) (\<lambda>tenantID.
     bnd (map_err ruMapErr (GetRule tenantID ident)) (\<lambda>cur.
     bnd (ruValidate ce cfg dir subj RuleUpdate ident inp) (\<lambda>r.
     bnd Now (\<lambda>now.
     bnd (map_err ruMapErr (UpdateRule (r\<lparr>ruID := ident, ruTenantID := tenantID, ruVersion := ruVersion cur,
            ruCreatedAt := ruCreatedAt cur, ruUpdatedAt := now\<rparr>))) (\<lambda>stored.
     bnd (auditRule subj RuleUpdate ident OutcomeOK [] (Some stored)) (\<lambda>_.
     ret stored))))))"

definition ruDelete :: "subjects \<Rightarrow> string \<Rightarrow> (('p, 'a) ruled_scheme, unit) op" where
  "ruDelete subj ident =
     bnd (of_res (tenantOf subj)) (\<lambda>tenantID.
     bnd (map_err ruMapErr (DeleteRule tenantID ident)) (\<lambda>_.
     bnd (Forget ident) (\<lambda>_.
     auditRule subj RuleDelete ident OutcomeOK [] None)))"

definition evalText :: "err \<Rightarrow> string" where
  "evalText e = (case e of RuEvaluate m \<Rightarrow> ''rules: '' @ m | _ \<Rightarrow> [])"

definition ruTest ::
  "('ast, 'p) cel \<Rightarrow> engine_config \<Rightarrow> subjects \<Rightarrow> rule_input \<Rightarrow> sample \<Rightarrow> (('p, 'a) ruled_scheme, test_result) op" where
  "ruTest ce cfg subj inp s =
     bnd (of_res (tenantOf subj)) (\<lambda>_.
     bnd (fetch ucd) (\<lambda>u.
     bnd (of_res (build ce cfg u inp)) (\<lambda>r.
     bnd (of_res (Compile ce cfg u r)) (\<lambda>p.
     bnd (map_err (\<lambda>e. invalid ''expression'' (''evaluation failed: '' @ evalText e)) (engineEvaluate ce (Some p) (sampleEmail u s))) (\<lambda>ok.
     ret \<lparr>trMatched = ok, trActions = (if ok then ruActions r else [])\<rparr>)))))"

end
