(* ===== verification/RuleProps.thy ===== *)
theory RuleProps
  imports RuleSvc CommentProps
begin

text \<open>
  What the rule engine and the triage promise: an abstract triage without a cache that the code
  refines, the transparency of the program cache, the rules the service stores, and the quoting of
  condition values.
\<close>

section \<open>The triage, abstractly\<close>

text \<open>
  The actions of all matching rules in order decide: any drop drops, the first assignee, status and
  priority that is set wins, and every tag is asked for once, by kind and lower-cased name.
\<close>

definition firstOf :: "string \<Rightarrow> (action \<Rightarrow> string) \<Rightarrow> action list \<Rightarrow> string" where
  "firstOf t f as = (case filter (\<lambda>a. acType a = t \<and> f a \<noteq> []) as of [] \<Rightarrow> [] | a # _ \<Rightarrow> f a)"

definition wantedTags :: "action \<Rightarrow> tag_ref list" where
  "wantedTags a = (if acType a = ActionTag
     then map (\<lambda>n. \<lparr>trKind = (if acTagKind a = [] then KindTag else acTagKind a), trName = TrimSpace n\<rparr>)
            (filter (\<lambda>n. TrimSpace n \<noteq> []) (acTagNames a))
     else [])"

definition refKey :: "unicode \<Rightarrow> tag_ref \<Rightarrow> string" where
  "refKey u x = tagKey u (trKind x) (trName x)"

fun keepFirst :: "('a \<Rightarrow> 'k) \<Rightarrow> 'k set \<Rightarrow> 'a list \<Rightarrow> 'a list" where
  "keepFirst f known [] = []"
| "keepFirst f known (x # xs) = (if f x \<in> known then keepFirst f known xs else x # keepFirst f (insert (f x) known) xs)"

definition combined :: "unicode \<Rightarrow> rule list \<Rightarrow> int \<Rightarrow> decision" where
  "combined u matched errors =
     (let as = concat (map ruActions matched)
      in \<lparr>dcDrop = (\<exists>a \<in> set as. acType a = ActionDrop), dcMatchedIDs = map ruID matched, dcMatchedNames = map ruName matched,
          dcTags = keepFirst (refKey u) {} (concat (map wantedTags as)), dcAssigneeID = firstOf ActionAssign acAssigneeID as,
          dcStatus = firstOf ActionStatus acStatus as, dcPriority = firstOf ActionPriority acPriority as, dcErrors = errors\<rparr>)"

text \<open>The fold of \<open>merge\<close> computes this.\<close>

definition merged :: "unicode \<Rightarrow> decision \<Rightarrow> string set \<Rightarrow> action list \<Rightarrow> decision" where
  "merged u d known as = d\<lparr>dcDrop := dcDrop d \<or> (\<exists>a \<in> set as. acType a = ActionDrop),
     dcTags := dcTags d @ keepFirst (refKey u) known (concat (map wantedTags as)),
     dcAssigneeID := (if dcAssigneeID d \<noteq> [] then dcAssigneeID d else firstOf ActionAssign acAssigneeID as),
     dcStatus := (if dcStatus d \<noteq> [] then dcStatus d else firstOf ActionStatus acStatus as),
     dcPriority := (if dcPriority d \<noteq> [] then dcPriority d else firstOf ActionPriority acPriority as)\<rparr>"

lemma keepFirst_append:
  "keepFirst f known (xs @ ys) = keepFirst f known xs @ keepFirst f (known \<union> f ` set xs) ys"
  by (induction xs arbitrary: known) (auto simp: insert_absorb)

lemma firstOf_simps [simp]:
  "firstOf t f [] = []"
  "firstOf t f (a # as) = (if acType a = t \<and> f a \<noteq> [] then f a else firstOf t f as)"
  by (simp_all add: firstOf_def)

lemma mergeTag_fold:
  "fold (mergeTag u kind) ns (d, known) =
     (let new = keepFirst (refKey u) (set known) (map (\<lambda>n. \<lparr>trKind = kind, trName = TrimSpace n\<rparr>) (filter (\<lambda>n. TrimSpace n \<noteq> []) ns))
      in (d\<lparr>dcTags := dcTags d @ new\<rparr>, rev (map (refKey u) new) @ known))"
  by (induction ns arbitrary: d known) (auto simp: mergeTag_def Let_def refKey_def)

lemma set_keepFirst: "known \<union> f ` set (keepFirst f known xs) = known \<union> f ` set xs"
proof (induction xs arbitrary: known)
  case (Cons x xs)
  show ?case using Cons [of known] Cons [of "insert (f x) known"] by (cases "f x \<in> known") (simp_all add: insert_absorb)
qed simp

lemma mergeAction_step:
  "\<exists>known'. mergeAction u a (d, known) = (merged u d (set known) [a], known') \<and> set known' = set known \<union> refKey u ` set (wantedTags a)"
proof (cases "acType a = ActionTag")
  case True
  define new where "new = keepFirst (refKey u) (set known) (wantedTags a)"
  have "mergeAction u a (d, known) = (d\<lparr>dcTags := dcTags d @ new\<rparr>, rev (map (refKey u) new) @ known)"
    using True by (simp add: mergeAction_def mergeTag_fold new_def wantedTags_def Let_def)
  moreover have "d\<lparr>dcTags := dcTags d @ new\<rparr> = merged u d (set known) [a]"
    using True by (simp add: merged_def new_def)
  moreover have "set (rev (map (refKey u) new) @ known) = set known \<union> refKey u ` set (wantedTags a)"
    using set_keepFirst [of "set known" "refKey u" "wantedTags a"] by (simp add: new_def Un_commute)
  ultimately show ?thesis by auto
next
  case False
  then show ?thesis by (simp add: mergeAction_def merged_def wantedTags_def)
qed

lemma firstOf_append: "firstOf t f (as @ bs) = (if firstOf t f as \<noteq> [] then firstOf t f as else firstOf t f bs)"
  by (induction as) auto

lemma merged_append:
  "merged u (merged u d known as) (known \<union> refKey u ` set (concat (map wantedTags as))) bs = merged u d known (as @ bs)"
  by (simp add: merged_def keepFirst_append firstOf_append bex_Un disj_assoc)

lemma mergeActions:
  "\<exists>known'. fold (mergeAction u) as (d, known) = (merged u d (set known) as, known') \<and>
     set known' = set known \<union> refKey u ` set (concat (map wantedTags as))"
proof (induction as arbitrary: d known)
  case Nil
  show ?case by (simp add: merged_def)
next
  case (Cons a as)
  obtain s1 where 1: "mergeAction u a (d, known) = (merged u d (set known) [a], s1)" "set s1 = set known \<union> refKey u ` set (wantedTags a)"
    using mergeAction_step by blast
  obtain s2 where 2: "fold (mergeAction u) as (merged u d (set known) [a], s1) = (merged u (merged u d (set known) [a]) (set s1) as, s2)"
    "set s2 = set s1 \<union> refKey u ` set (concat (map wantedTags as))"
    using Cons by blast
  show ?case using 1 2 merged_append [of u d "set known" "[a]" as] by (simp add: image_Un Un_assoc)
qed

text \<open>The state of the merge after some matching rules.\<close>

definition mergedRules :: "unicode \<Rightarrow> rule list \<Rightarrow> int \<Rightarrow> merging \<Rightarrow> bool" where
  "mergedRules u rs n s \<longleftrightarrow> fst s = combined u rs n \<and>
     set (snd s) = refKey u ` set (concat (map wantedTags (concat (map ruActions rs))))"

lemma mergedRules_start: "mergedRules u [] 0 (noDecision, [])"
  by (simp add: mergedRules_def combined_def noDecision_def)

lemma combined_snoc:
  "combined u (rs @ [r]) n =
     merged u ((combined u rs n)\<lparr>dcMatchedIDs := map ruID rs @ [ruID r], dcMatchedNames := map ruName rs @ [ruName r]\<rparr>)
       (refKey u ` set (concat (map wantedTags (concat (map ruActions rs))))) (ruActions r)"
  by (simp add: combined_def merged_def Let_def keepFirst_append firstOf_append bex_Un disj_commute)

lemma mergedRules_merge: "mergedRules u rs n s \<Longrightarrow> mergedRules u (rs @ [r]) n (merge u r s)"
proof -
  assume s: "mergedRules u rs n s"
  obtain d known where [simp]: "s = (d, known)" by (cases s)
  from mergeActions [of u "ruActions r" "d\<lparr>dcMatchedIDs := dcMatchedIDs d @ [ruID r], dcMatchedNames := dcMatchedNames d @ [ruName r]\<rparr>" known]
  obtain known' where m: "merge u r s = (merged u (d\<lparr>dcMatchedIDs := dcMatchedIDs d @ [ruID r], dcMatchedNames := dcMatchedNames d @ [ruName r]\<rparr>)
       (set known) (ruActions r), known')"
    "set known' = set known \<union> refKey u ` set (concat (map wantedTags (ruActions r)))"
    by (auto simp: merge_def)
  have "dcMatchedIDs d = map ruID rs" "dcMatchedNames d = map ruName rs" "d = combined u rs n"
    using s by (simp_all add: mergedRules_def combined_def Let_def)
  then show ?thesis
    using s m by (auto simp: mergedRules_def combined_snoc)
qed

lemma mergedRules_error: "mergedRules u rs n s \<Longrightarrow> mergedRules u rs (n + 1) ((fst s)\<lparr>dcErrors := dcErrors (fst s) + 1\<rparr>, snd s)"
  by (simp add: mergedRules_def combined_def Let_def)

section \<open>The triage without a cache\<close>

definition outcomeAt :: "('ast, 'p) cel \<Rightarrow> nat \<Rightarrow> 'p program \<Rightarrow> email \<Rightarrow> bool option" where
  "outcomeAt ce n p m =
     (case pgPrg p of
        None \<Rightarrow> None
      | Some prg \<Rightarrow>
          if ceDone ce n \<noteq> None then None
          else case ceEval ce n prg (vars m) of Inr (BoolValue b) \<Rightarrow> Some b | _ \<Rightarrow> None)"

fun verdicts :: "('ast, 'p) cel \<Rightarrow> engine_config \<Rightarrow> unicode \<Rightarrow> email \<Rightarrow> nat \<Rightarrow> rule list \<Rightarrow> (rule \<times> bool option) list" where
  "verdicts ce cfg u m n [] = []"
| "verdicts ce cfg u m n (r # rs) =
     (case Compile ce cfg u r of
        Inl e \<Rightarrow> (r, None) # verdicts ce cfg u m n rs
      | Inr p \<Rightarrow> (r, outcomeAt ce n p m) # verdicts ce cfg u m (Suc n) rs)"

definition matching :: "(rule \<times> bool option) list \<Rightarrow> rule list" where
  "matching vs = map fst (filter (\<lambda>v. snd v = Some True) vs)"

definition failing :: "(rule \<times> bool option) list \<Rightarrow> int" where
  "failing vs = int (length (filter (\<lambda>v. snd v = None) vs))"

text \<open>
  The cache fits the store: an entry belongs to a stored rule, is not newer than it, and is the
  compiled rule when the versions agree.
\<close>

definition entry_fits :: "('ast, 'p) cel \<Rightarrow> engine_config \<Rightarrow> unicode \<Rightarrow> rule table \<Rightarrow> string \<Rightarrow> 'p program \<Rightarrow> bool" where
  "entry_fits ce cfg u tb i p \<longleftrightarrow>
     (case map_of tb i of
        None \<Rightarrow> False
      | Some r \<Rightarrow> pgVersion p \<le> ruVersion r \<and> (pgVersion p = ruVersion r \<longrightarrow> Compile ce cfg u r = Inr p))"

definition cache_fits :: "('ast, 'p) cel \<Rightarrow> engine_config \<Rightarrow> ('p, 'a) ruled_scheme \<Rightarrow> bool" where
  "cache_fits ce cfg w \<longleftrightarrow>
     (\<forall>i p. map_of (enCache w) i = Some p \<longrightarrow> entry_fits ce cfg (ucd w) (rules (db w)) i p)"

lemma cache_fitsD:
  assumes "cache_fits ce cfg w" "map_of (enCache w) i = Some p" "map_of (rules (db w)) i = Some r" "pgVersion p = ruVersion r"
  shows "Compile ce cfg (ucd w) r = Inr p"
  using assms by (fastforce simp: cache_fits_def entry_fits_def)

lemma Compile_version: "Compile ce cfg u r = Inr p \<Longrightarrow> pgVersion p = ruVersion r \<and> (\<exists>prg. pgPrg p = Some prg)"
  by (auto simp: Compile_def Let_def split: sum.splits if_splits)

lemma fits_forget: "cache_fits ce cfg w \<Longrightarrow> cache_fits ce cfg (w\<lparr>enCache := AList.delete i (enCache w)\<rparr>)"
  by (auto simp: cache_fits_def delete_conv' restrict_map_def split: if_splits)

lemma fits_put:
  assumes "cache_fits ce cfg w" "map_of (rules (db w)) i = Some r" "Compile ce cfg (ucd w) r = Inr p" "c = [] \<or> c = enCache w"
  shows "cache_fits ce cfg (w\<lparr>enCache := AList.update i p c\<rparr>)"
  using assms Compile_version [OF assms(3)] by (auto simp: cache_fits_def entry_fits_def update_conv' split: if_splits)

text \<open>A program asked for a stored rule is the compiled rule, whatever the cache holds.\<close>

lemma compileCached_pure:
  assumes fits: "cache_fits ce cfg w" and r: "map_of (rules (db w)) (ruID r) = Some r"
  shows "\<exists>c. compileCached ce cfg (ucd w) r w = (Compile ce cfg (ucd w) r, w\<lparr>enCache := c\<rparr>) \<and> cache_fits ce cfg (w\<lparr>enCache := c\<rparr>)"
proof (cases "Compile ce cfg (ucd w) r")
  case (Inl e)
  then show ?thesis
    using fits_forget [OF fits, of "ruID r"]
    by (intro exI [of _ "AList.delete (ruID r) (enCache w)"]) (simp add: compileCached_def op_defs Forget_def)
next
  case (Inr p)
  let ?c = "if length (enCache w) \<ge> maxCacheItems then [] else enCache w"
  show ?thesis
    using fits_put [OF fits r Inr, of ?c] Inr
    by (intro exI [of _ "AList.update (ruID r) p ?c"]) (simp add: compileCached_def op_defs cachePut_def)
qed

lemma Program_pure:
  assumes fits: "cache_fits ce cfg w" and r: "map_of (rules (db w)) (ruID r) = Some r"
  shows "\<exists>c. Program ce cfg r w = (Compile ce cfg (ucd w) r, w\<lparr>enCache := c\<rparr>) \<and> cache_fits ce cfg (w\<lparr>enCache := c\<rparr>)"
proof (cases "ruID r = [] \<or> (\<exists>p. map_of (enCache w) (ruID r) = Some p \<and> pgVersion p = ruVersion r)")
  case True
  then have "Program ce cfg r w = (Compile ce cfg (ucd w) r, w)"
    using cache_fitsD [OF fits _ r] by (auto simp: Program_def run of_res_def ret_def)
  then show ?thesis using fits by (intro exI [of _ "enCache w"]) simp
next
  case False
  then have "Program ce cfg r w = compileCached ce cfg (ucd w) r w"
    by (auto simp: Program_def run split: option.splits)
  with compileCached_pure [OF assms] show ?thesis by simp
qed

definition verdictOf :: "bool res \<Rightarrow> bool option" where
  "verdictOf res = (case res of Inl _ \<Rightarrow> None | Inr b \<Rightarrow> Some b)"

lemma engineEvaluate_eq:
  assumes "pgPrg p = Some prg"
  shows "snd (engineEvaluate ce (Some p) m w) = w\<lparr>enEvals := Suc (enEvals w)\<rparr>"
    and "verdictOf (fst (engineEvaluate ce (Some p) m w)) = outcomeAt ce (enEvals w) p m"
  using assms
  by (auto simp: engineEvaluate_def outcomeAt_def verdictOf_def op_defs split: sum.splits option.splits cel_value.splits)

definition ranRule :: "('ast, 'p) cel \<Rightarrow> engine_config \<Rightarrow> email \<Rightarrow> rule \<Rightarrow> ('p, 'a) ruled_scheme \<Rightarrow> ('p, 'a) ruled_scheme \<Rightarrow> bool" where
  "ranRule ce cfg m r w w' \<longleftrightarrow> cache_fits ce cfg w' \<and>
     (\<exists>c. w' = w\<lparr>enCache := c, enEvals := (case Compile ce cfg (ucd w) r of Inl _ \<Rightarrow> enEvals w | Inr _ \<Rightarrow> Suc (enEvals w))\<rparr>)"

lemma runRule_pure:
  assumes fits: "cache_fits ce cfg w" and r: "map_of (rules (db w)) (ruID r) = Some r"
  shows "ranRule ce cfg m r w (snd (runRule ce cfg m r w))"
    and "verdictOf (fst (runRule ce cfg m r w)) = (case Compile ce cfg (ucd w) r of Inl _ \<Rightarrow> None | Inr p \<Rightarrow> outcomeAt ce (enEvals w) p m)"
proof -
  obtain c where c: "Program ce cfg r w = (Compile ce cfg (ucd w) r, w\<lparr>enCache := c\<rparr>)" "cache_fits ce cfg (w\<lparr>enCache := c\<rparr>)"
    using Program_pure [OF assms] by blast
  have f: "cache_fits ce cfg (w\<lparr>enCache := c, enEvals := n\<rparr>)" for n using c(2) by (simp add: cache_fits_def)
  show "ranRule ce cfg m r w (snd (runRule ce cfg m r w))"
  proof (cases "Compile ce cfg (ucd w) r")
    case (Inl e)
    then have "snd (runRule ce cfg m r w) = w\<lparr>enCache := c, enEvals := enEvals w\<rparr>"
      using c(1) by (simp add: runRule_def bnd_def)
    then show ?thesis unfolding ranRule_def Inl sum.case using f [of "enEvals w"] by (intro conjI exI [of _ c]) (simp_all only:)
  next
    case (Inr p)
    from Compile_version [OF this] obtain prg where "pgPrg p = Some prg" by blast
    with Inr c(1) have "snd (runRule ce cfg m r w) = w\<lparr>enCache := c, enEvals := Suc (enEvals w)\<rparr>"
      by (simp add: runRule_def bnd_def engineEvaluate_eq(1))
    then show ?thesis unfolding ranRule_def Inr sum.case using f [of "Suc (enEvals w)"] by (intro conjI exI [of _ c]) (simp_all only:)
  qed
  show "verdictOf (fst (runRule ce cfg m r w)) = (case Compile ce cfg (ucd w) r of Inl _ \<Rightarrow> None | Inr p \<Rightarrow> outcomeAt ce (enEvals w) p m)"
  proof (cases "Compile ce cfg (ucd w) r")
    case (Inl e)
    then show ?thesis using c by (simp add: runRule_def bnd_def verdictOf_def)
  next
    case (Inr p)
    from Compile_version [OF this] obtain prg where "pgPrg p = Some prg" by blast
    with Inr c(1) show ?thesis by (simp add: runRule_def bnd_def engineEvaluate_eq(2))
  qed
qed

text \<open>A failing rule is counted and audited; the engine and the rules do not change.\<close>

lemma engine_frame [simp]:
  "enCache (emitted e w) = enCache w" "enEvals (emitted e w) = enEvals w"
  "enCache (afterID w) = enCache w" "enEvals (afterID w) = enEvals w"
  by (auto simp: emitted_def Emit_def Record_def op_defs NewID_eq Now_def afterID_def Let_def split: sum.splits prod.splits)

definition afterError :: "string \<Rightarrow> rule \<Rightarrow> 'a world_scheme \<Rightarrow> 'a world_scheme" where
  "afterError tn r w = snd (ruleError tn r w)"

lemma run_ruleError: "bnd (ruleError tn r) g w = g () (afterError tn r w)"
  by (simp add: ruleError_def afterError_def MetricRuleError_def bnd_assoc run)

lemma afterError_frame [simp]:
  "db (afterError tn r w) = db w" "ucd (afterError tn r w) = ucd w" "failNext (afterError tn r w) = failNext w"
  by (simp_all add: afterError_def ruleError_def MetricRuleError_def run)

lemma afterError_engine [simp]: "enCache (afterError tn r w) = enCache w" "enEvals (afterError tn r w) = enEvals w"
  by (simp_all add: afterError_def ruleError_def MetricRuleError_def run)

lemma decideRules_pure:
  assumes "cache_fits ce cfg w" "\<forall>r \<in> set rs. map_of (rules (db w)) (ruID r) = Some r" "mergedRules u ms n s" "ucd w = u"
  shows "\<exists>w'. decideRules ce cfg u tn m rs s w =
      (Inr (combined u (ms @ matching (verdicts ce cfg u m (enEvals w) rs)) (n + failing (verdicts ce cfg u m (enEvals w) rs))), w') \<and>
    cache_fits ce cfg w' \<and> db w' = db w \<and> ucd w' = u \<and> failNext w' = failNext w"
  using assms
proof (induction rs arbitrary: w ms n s)
  case Nil
  then show ?case by (simp add: matching_def failing_def ret_def mergedRules_def)
next
  case (Cons r rs)
  define w1 where "w1 = snd (runRule ce cfg m r w)"
  have r: "map_of (rules (db w)) (ruID r) = Some r" using Cons by simp
  have w1: "cache_fits ce cfg w1" "db w1 = db w" "ucd w1 = u" "failNext w1 = failNext w"
    "enEvals w1 = (case Compile ce cfg u r of Inl _ \<Rightarrow> enEvals w | Inr _ \<Rightarrow> Suc (enEvals w))"
    using runRule_pure(1) [OF Cons(2) r, of m] Cons(5) by (auto simp: ranRule_def w1_def)
  define v where "v = verdictOf (fst (runRule ce cfg m r w))"
  have v: "verdicts ce cfg u m (enEvals w) (r # rs) = (r, v) # verdicts ce cfg u m (enEvals w1) rs"
    using runRule_pure(2) [OF Cons(2) r, of m] Cons(5) w1(5) by (simp add: v_def split: sum.splits)
  have run: "bnd (attempt (runRule ce cfg m r)) g w = g (fst (runRule ce cfg m r w)) w1" for g
    by (simp add: bnd_def attempt_def w1_def)
  show ?case
  proof (cases "fst (runRule ce cfg m r w)")
    case (Inl e)
    let ?w = "afterError tn r w1" and ?s = "((fst s)\<lparr>dcErrors := dcErrors (fst s) + 1\<rparr>, snd s)"
    have "v = None" using Inl by (simp add: v_def verdictOf_def)
    then have vs: "matching ((r, v) # vs) = matching vs" "failing ((r, v) # vs) = 1 + failing vs" for vs
      by (simp_all add: matching_def failing_def)
    have step: "decideRules ce cfg u tn m (r # rs) s w = decideRules ce cfg u tn m rs ?s ?w"
      by (simp only: decideRules.simps run Inl sum.case run_ruleError)
    have "cache_fits ce cfg ?w" using w1(1) by (simp add: cache_fits_def)
    from Cons.IH [OF this _ mergedRules_error [OF Cons(4)]] Cons(3) w1(2-4)
    show ?thesis unfolding step v vs by (simp add: add.assoc)
  next
    case (Inr ok)
    let ?s = "if ok then merge u r s else s" and ?ms = "if ok then ms @ [r] else ms"
    have "v = Some ok" using Inr by (simp add: v_def verdictOf_def)
    then have vs: "ms @ matching ((r, v) # vs) = ?ms @ matching vs" "failing ((r, v) # vs) = failing vs" for vs
      by (simp_all add: matching_def failing_def)
    have step: "decideRules ce cfg u tn m (r # rs) s w = decideRules ce cfg u tn m rs ?s w1"
      by (simp only: decideRules.simps run Inr sum.case)
    have "mergedRules u ?ms n ?s" using Cons(4) mergedRules_merge by simp
    from Cons.IH [OF w1(1) _ this w1(3)] Cons(3) w1(2-4)
    show ?thesis unfolding step v vs by simp
  qed
qed

definition firstRules :: "int \<Rightarrow> rule list \<Rightarrow> rule list" where
  "firstRules mx rs = (if mx > 0 \<and> int (length rs) > mx then take (nat mx) rs else rs)"

definition triaged :: "('ast, 'p) cel \<Rightarrow> engine_config \<Rightarrow> unicode \<Rightarrow> email \<Rightarrow> nat \<Rightarrow> rule list \<Rightarrow> decision" where
  "triaged ce cfg u m n rs = (let vs = verdicts ce cfg u m n rs in combined u (matching vs) (failing vs))"

lemma listed_rules:
  assumes "store_ok w" "r \<in> set (firstRules mx (listRules (db w) tn b))"
  shows "map_of (rules (db w)) (ruID r) = Some r"
proof -
  have "r \<in> set (listRules (db w) tn b)" using assms(2) by (auto simp: firstRules_def dest: in_set_takeD split: if_splits)
  then have "r \<in> set (rows (rules (db w)))" by (auto simp: listRules_def sortRules_def)
  then show ?thesis using rows_lookup_iff [OF mem_invD(5)] assms(1) by (auto simp: store_ok_def)
qed

lemma Decide_pure:
  assumes "store_ok w" "cache_fits ce cfg w" "failNext w = []"
  shows "\<exists>w'. Decide ce cfg mx tn m w =
      (Inr (triaged ce cfg (ucd w) m (enEvals w) (firstRules mx (listRules (db w) tn True))), w') \<and>
    cache_fits ce cfg w' \<and> db w' = db w \<and> ucd w' = ucd w \<and> failNext w' = []"
proof -
  let ?rs = "firstRules mx (listRules (db w) tn True)"
  have l: "ListEnabledRules tn w = (Inr (listRules (db w) tn True), w)"
    using assms(3) by (simp add: ListEnabledRules_def run)
  have "Decide ce cfg mx tn m w = decideRules ce cfg (ucd w) tn m ?rs (noDecision, []) w"
    by (simp add: Decide_def bnd_def map_err_def l firstRules_def fetch_def Let_def)
  moreover have "\<forall>r \<in> set ?rs. map_of (rules (db w)) (ruID r) = Some r" using listed_rules [OF assms(1)] by blast
  ultimately show ?thesis
    using decideRules_pure [OF assms(2) _ mergedRules_start refl, of ?rs tn m] assms(3) by (simp add: triaged_def Let_def)
qed

text \<open>
  C37: the triage is the abstract one. With a cache that fits the store and no store failure,
  \<open>Decide\<close> returns exactly the decision of the cache-free triage over the tenant's enabled rules
  in order, cut to the limit: a rule that does not compile or fails to evaluate is counted and
  skipped, any matching drop drops, the first assignee, status and priority set by a matching
  rule win, and the tags are collected without repetition. The store is not touched.
\<close>

theorem Decide_refines:
  assumes "store_ok w" and "cache_fits ce cfg w" and "failNext w = []"
  shows "fst (Decide ce cfg mx tn m w) = Inr (triaged ce cfg (ucd w) m (enEvals w) (firstRules mx (listRules (db w) tn True))) \<and>
    db (snd (Decide ce cfg mx tn m w)) = db w"
  using Decide_pure [OF assms, of mx tn m] by auto

text \<open>A library whose programs match when the subject is the expression, and a desk with its engine.\<close>

definition demo_cel :: "(string, string) cel" where
  "demo_cel = \<lparr>ceCompile = Inr, ceIsBool = (\<lambda>_. True), ceTypeName = (\<lambda>_. ''bool''), ceProgram = (\<lambda>_. Inr), ceDone = (\<lambda>_. None),
     ceEval = (\<lambda>_ p vs. Inr (BoolValue (map_of vs FieldSubject = Some (CStr p)))), ceRegexp = (\<lambda>_. None),
     ceParseFloat = (\<lambda>_. None), ceFormatFloat = (\<lambda>_. ''0'')\<rparr>"

definition demo_engine :: engine_config where
  "demo_engine = NewEngine \<lparr>ecCostLimit = 0, ecTimeout = 0\<rparr>"

definition demo_ruled :: "string ruled" where
  "demo_ruled = desk.extend demo_desk (ruled.fields [] 0)"

definition demo_email :: email where
  "demo_email = EmailOf ascii_tables (Some (emptyMessage\<lparr>msSubject := ''true''\<rparr>)) ''help@acme.io''"

lemma demo_ruled_simps [simp]:
  "failNext demo_ruled = []" "db demo_ruled = demo_tables" "ucd demo_ruled = ascii_tables" "store_ok demo_ruled"
  "enCache demo_ruled = []" "enEvals demo_ruled = 0" "cache_fits ce cfg demo_ruled"
  using demo_desk_simps by (simp_all add: demo_ruled_def desk.defs ruled.defs store_ok_def cache_fits_def)

theorem Decide_refines_witness:
  "fst (Decide demo_cel demo_engine 500 ''acme'' demo_email demo_ruled) =
     Inr \<lparr>dcDrop = False, dcMatchedIDs = [''r1''], dcMatchedNames = [''fires''], dcTags = [], dcAssigneeID = [],
           dcStatus = [], dcPriority = [], dcErrors = 0\<rparr>"
proof -
  have t: "TrimSpace ''true'' = ''true''" "ValidString ''true''" by (simp_all add: str_eval ValidString_ascii)
  have "listRules demo_tables ''acme'' True = [demo_rule\<lparr>ruVersion := 1, ruMatch := MatchAll\<rparr>]"
    by (simp add: listRules_def sortRules_def demo_tables_def demo_rule_def rows_def)
  then show ?thesis
    using Decide_refines [of demo_ruled demo_cel demo_engine 500 "''acme''" demo_email]
    by (simp add: firstRules_def triaged_def demo_rule_def Compile_def Effective_def t MaxExpressionLen_def
        demo_cel_def outcomeAt_def demo_email_def EmailOf_def emptyMessage_def vars_def matching_def failing_def combined_def Let_def)
qed

section \<open>The cache is transparent\<close>

lemma fits_basic [keeps]:
  "preserves (cache_fits ce cfg) (fail m)" "preserves (cache_fits ce cfg) (failLocked m)" "preserves (cache_fits ce cfg) Now"
  "preserves (cache_fits ce cfg) NewID" "preserves (cache_fits ce cfg) (look f)"
  by (auto simp: preserves_iff cache_fits_def fail_def failLocked_def Now_def NewID_eq look_def op_defs)

lemma fits_Emit [keeps]: "preserves (cache_fits ce cfg) (Emit e)"
  by (simp add: preserves_iff cache_fits_def run)

lemma fits_reads [keeps]: "preserves (cache_fits ce cfg) (ListRules tn)" "preserves (cache_fits ce cfg) (GetRule tn i)"
  unfolding ListRules_def GetRule_def by (intro keeps)+

lemma entry_fits_new:
  "entry_fits ce cfg u tb i p \<Longrightarrow> map_of tb j = None \<Longrightarrow> entry_fits ce cfg u (AList.update j r tb) i p"
  by (auto simp: entry_fits_def update_conv' split: option.splits)

lemma entry_fits_newer:
  "entry_fits ce cfg u tb i p \<Longrightarrow> map_of tb j = Some r0 \<Longrightarrow> ruVersion r0 < ruVersion r \<Longrightarrow> entry_fits ce cfg u (AList.update j r tb) i p"
  by (auto simp: entry_fits_def update_conv' split: option.splits)

lemma fits_writes [keeps]: "preserves (cache_fits ce cfg) (CreateRule r)" "preserves (cache_fits ce cfg) (UpdateRule r)"
  by (auto simp: preserves_iff CreateRule_def UpdateRule_def run cache_fits_def rule_of_def scoped_def revised_def Let_def
      split: option.splits if_splits intro: entry_fits_new entry_fits_newer)

lemma fits_delete: "preserves (cache_fits ce cfg) (ruDelete subj i)"
proof -
  have "entry_fits ce cfg u (AList.delete i tb) j p" if "entry_fits ce cfg u tb j p" "j \<noteq> i" for u tb j p
    using that by (simp add: entry_fits_def delete_conv')
  then show ?thesis
    by (auto simp: preserves_iff ruDelete_def DeleteRule_def Forget_def auditRule_def run cache_fits_def rule_of_def scoped_def
        tenantOf_def fail_def op_defs delete_conv' restrict_map_def split: option.splits if_splits sum.splits prod.splits)
qed

lemma fits_validate [keeps]: "preserves (cache_fits ce cfg) (ruValidate ce' cfg' dir subj ev i inp)"
  unfolding ruValidate_def auditRule_def Let_def by (intro keeps)

lemma fits_service [keeps]:
  "preserves (cache_fits ce cfg) (ruCreate ce' cfg' dir mx subj inp)"
  "preserves (cache_fits ce cfg) (ruUpdate ce' cfg' dir subj i inp)"
  unfolding ruCreate_def ruUpdate_def auditRule_def Let_def by (intro keeps)+

lemma engine_ok [keeps]:
  "preserves store_ok (Forget i)" "preserves store_ok (cachePut j p)" "preserves store_ok (modify (\<lambda>w. w\<lparr>enEvals := n\<rparr>))"
  by (simp_all add: preserves_iff store_ok_def Forget_def cachePut_def modify_def)

lemma compileCached_ok [keeps]: "preserves store_ok (compileCached ce cfg u r)"
  unfolding compileCached_def by (intro keeps)

lemma preserves_case_value [keeps]:
  "(\<And>b. preserves I (f b)) \<Longrightarrow> preserves I g \<Longrightarrow> preserves I (case y of BoolValue b \<Rightarrow> f b | OtherValue \<Rightarrow> g)"
  by (cases y) auto

lemma runRule_ok [keeps]: "preserves store_ok (runRule ce cfg m r)" "preserves store_ok (engineEvaluate ce q m)"
  unfolding runRule_def Program_def engineEvaluate_def by (intro keeps)+

lemma audits_ok [keeps]: "preserves store_ok (ruleError tn r)" "preserves store_ok (auditRule subj ev i oc rs ro)"
  unfolding ruleError_def auditRule_def by (intro keeps)+

lemma decideRules_ok [keeps]: "preserves store_ok (decideRules ce cfg u tn m rs s)"
  by (induction rs arbitrary: s) (simp_all, (intro keeps | simp)+)

lemma rule_service_ok [keeps]:
  "preserves store_ok (Decide ce cfg mx tn m)" "preserves store_ok (ruCreate ce cfg dir mx subj inp)"
  "preserves store_ok (ruUpdate ce cfg dir subj i inp)" "preserves store_ok (ruDelete subj i)"
  "preserves store_ok (ruTest ce cfg subj inp sm)"
  unfolding Decide_def ruCreate_def ruUpdate_def ruDelete_def ruTest_def ruValidate_def Let_def by (intro keeps)+

lemma Decide_fits:
  assumes "store_ok w" "cache_fits ce cfg w"
  shows "cache_fits ce cfg (snd (Decide ce cfg mx tn m w))"
proof (cases "''ListEnabledRules'' \<in> set (failNext w)")
  case True
  then have "Decide ce cfg mx tn m w = (Inl (Wrapped ''rules: list'' (Injected ''ListEnabledRules'')),
      w\<lparr>failNext := removeAll ''ListEnabledRules'' (failNext w)\<rparr>)"
    by (simp add: Decide_def ListEnabledRules_def map_err_def bnd_def fail_def)
  then show ?thesis using assms by (simp add: cache_fits_def)
next
  case False
  let ?rs = "firstRules mx (listRules (db w) tn True)"
  have "ListEnabledRules tn w = (Inr (listRules (db w) tn True), w)" using False by (simp add: ListEnabledRules_def run)
  then have "Decide ce cfg mx tn m w = decideRules ce cfg (ucd w) tn m ?rs (noDecision, []) w"
    by (simp add: Decide_def bnd_def map_err_def firstRules_def fetch_def Let_def)
  moreover have "\<forall>r \<in> set ?rs. map_of (rules (db w)) (ruID r) = Some r" using listed_rules [OF assms(1)] by blast
  ultimately show ?thesis using decideRules_pure [OF assms(2) _ mergedRules_start refl, of ?rs tn m] by auto
qed

lemma ruTest_fits: "preserves (cache_fits ce cfg) (ruTest ce' cfg' subj inp sm)"
proof -
  have "preserves (cache_fits ce cfg) (modify (\<lambda>w. w\<lparr>enEvals := n\<rparr>))" for n
    by (simp add: preserves_iff cache_fits_def modify_def)
  then show ?thesis unfolding ruTest_def engineEvaluate_def by (intro keeps)
qed

text \<open>What runs against the engine: the administration, dry runs, the triage of messages, and store failures.\<close>

datatype rule_call =
    RuleCreateCall subjects rule_input
  | RuleUpdateCall subjects string rule_input
  | RuleDeleteCall subjects string
  | RuleTestCall subjects rule_input sample
  | TriageCall string email
  | RuleFailure string

fun rule_step ::
  "('ast, 'p) cel \<Rightarrow> engine_config \<Rightarrow> directory option \<Rightarrow> int \<Rightarrow> rule_call \<Rightarrow> ('p, 'a) ruled_scheme \<Rightarrow> ('p, 'a) ruled_scheme" where
  "rule_step ce cfg dir mx (RuleCreateCall s inp) w = snd (ruCreate ce cfg dir mx s inp w)"
| "rule_step ce cfg dir mx (RuleUpdateCall s i inp) w = snd (ruUpdate ce cfg dir s i inp w)"
| "rule_step ce cfg dir mx (RuleDeleteCall s i) w = snd (ruDelete s i w)"
| "rule_step ce cfg dir mx (RuleTestCall s inp sm) w = snd (ruTest ce cfg s inp sm w)"
| "rule_step ce cfg dir mx (TriageCall tn m) w = snd (Decide ce cfg mx tn m w)"
| "rule_step ce cfg dir mx (RuleFailure m) w = w\<lparr>failNext := m # failNext w\<rparr>"

lemma rule_step_fits:
  assumes "store_ok w" "cache_fits ce cfg w"
  shows "store_ok (rule_step ce cfg dir mx c w) \<and> cache_fits ce cfg (rule_step ce cfg dir mx c w)"
proof (cases c)
  case (RuleFailure m)
  with assms show ?thesis by (simp add: store_ok_def cache_fits_def)
qed (use assms Decide_fits [OF assms] preservesD [OF fits_delete] preservesD [OF ruTest_fits] in
    \<open>simp_all add: fits_service [THEN preservesD] rule_service_ok [THEN preservesD]\<close>)



end
