(* ===== verification/RuleInv.thy ===== *)
theory RuleInv
  imports RuleProps TagSvc
begin

text \<open>
  What a stored rule is: the administration stores only rules whose expression compiles and
  type-checks, with complete and bounded actions.
\<close>

section \<open>Sound rules\<close>

definition name_ok :: "string \<Rightarrow> bool" where
  "name_ok n \<longleftrightarrow> n \<noteq> [] \<and> ValidString n \<and> RuneCountInString n \<le> MaxTagName \<and> \<not> ruHasControl n"

definition action_ok :: "action \<Rightarrow> bool" where
  "action_ok a \<longleftrightarrow>
     (acType a = ActionTag \<and> ValidKind (acTagKind a) \<and> acTagNames a \<noteq> [] \<and> length (acTagNames a) \<le> MaxTagNames \<and>
        list_all name_ok (acTagNames a)) \<or>
     (acType a = ActionAssign \<and> acAssigneeID a \<noteq> []) \<or>
     (acType a = ActionStatus \<and> ValidStatus (acStatus a)) \<or>
     (acType a = ActionPriority \<and> ValidPriority (acPriority a)) \<or>
     acType a = ActionDrop"

definition compiles :: "('ast, 'p) cel \<Rightarrow> engine_config \<Rightarrow> unicode \<Rightarrow> rule \<Rightarrow> bool" where
  "compiles ce cfg u r \<longleftrightarrow> (case Compile ce cfg u r of Inl _ \<Rightarrow> False | Inr _ \<Rightarrow> True)"

definition rule_sound :: "('ast, 'p) cel \<Rightarrow> engine_config \<Rightarrow> unicode \<Rightarrow> rule \<Rightarrow> bool" where
  "rule_sound ce cfg u r \<longleftrightarrow>
     compiles ce cfg u r \<and> ruMatch r \<in> {MatchAll, MatchAny} \<and>
     ruName r \<noteq> [] \<and> ValidString (ruName r) \<and> RuneCountInString (ruName r) \<le> ruMaxName \<and> \<not> ruHasControl (ruName r) \<and>
     \<bar>ruSortOrder r\<bar> \<le> MaxSort \<and> ruActions r \<noteq> [] \<and> length (ruActions r) \<le> MaxActions \<and> list_all action_ok (ruActions r)"

lemma cleanTagNames_ok: "cleanTagNames u at ns known out = Inr names \<Longrightarrow> list_all name_ok out \<Longrightarrow> list_all name_ok names"
  by (induction ns arbitrary: known out) (auto simp: Let_def name_ok_def split: if_splits)

lemma normalizeAction_ok: "normalizeAction u i a = Inr n \<Longrightarrow> action_ok n"
  by (auto simp: normalizeAction_def Let_def action_ok_def emptyAction_def dest: cleanTagNames_ok split: if_splits sum.splits)

lemma normalizeFrom_ok: "normalizeFrom u i as = Inr ns \<Longrightarrow> length ns = length as \<and> list_all action_ok ns"
  by (induction as arbitrary: i ns) (auto split: sum.splits dest: normalizeAction_ok)

lemma build_sound: "build ce cfg u inp = Inr r \<Longrightarrow> rule_sound ce cfg u r"
  by (auto simp: build_def builtRule_def rule_sound_def compiles_def Let_def NormalizeMatch_def normalizeActions_def
      dest!: normalizeFrom_ok split: if_splits sum.splits)

text \<open>Compilation reads the expression, the conditions and the match mode only; the version is copied.\<close>

lemma Compile_content:
  assumes "ruExpression r' = ruExpression r" "ruConditions r' = ruConditions r" "ruMatch r' = ruMatch r"
  shows "compiles ce cfg u r' = compiles ce cfg u r"
  using assms by (simp add: compiles_def Compile_def Effective_def Let_def split: sum.splits)

lemma sound_content:
  assumes "rule_sound ce cfg u r" "ruExpression r' = ruExpression r" "ruConditions r' = ruConditions r" "ruMatch r' = ruMatch r"
    "ruName r' = ruName r" "ruSortOrder r' = ruSortOrder r" "ruActions r' = ruActions r"
  shows "rule_sound ce cfg u r'"
  using assms Compile_content [OF assms(2-4), of ce cfg u] by (simp add: rule_sound_def)

section \<open>The administration stores sound rules\<close>

definition rules_sound :: "('ast, 'p) cel \<Rightarrow> engine_config \<Rightarrow> unicode \<Rightarrow> 'a mem_scheme \<Rightarrow> bool" where
  "rules_sound ce cfg u w \<longleftrightarrow> ucd w = u \<and> (\<forall>r \<in> set (rows (rules (db w))). rule_sound ce cfg u r)"

lemma sound_basic [keeps]:
  "preserves (rules_sound ce cfg u) (fail m)" "preserves (rules_sound ce cfg u) Now" "preserves (rules_sound ce cfg u) NewID"
  "preserves (rules_sound ce cfg u) (look f)" "preserves (rules_sound ce cfg u) (Emit e)"
  "preserves (rules_sound ce cfg u) (count n as)"
  by (auto simp: preserves_iff rules_sound_def fail_def Now_def NewID_eq look_def run count_def op_defs)

lemma sound_store [keeps]:
  "preserves (rules_sound ce cfg u) (ListRules tn)" "preserves (rules_sound ce cfg u) (GetRule tn i)"
  "preserves (rules_sound ce cfg u) (ListEnabledRules tn)" "preserves (rules_sound ce cfg u) (auditRule subj ev i oc rs ro)"
  "preserves (rules_sound ce cfg u) (ruleError tn r)"
  unfolding ListRules_def GetRule_def ListEnabledRules_def auditRule_def ruleError_def MetricRuleError_def by (intro keeps)+

lemma sound_put: "rule_sound ce cfg u r \<Longrightarrow> preserves (rules_sound ce cfg u) (save (\<lambda>d. d\<lparr>rules := AList.update k r (rules d)\<rparr>))"
  using rows_update_subset [of k r] by (fastforce simp: preserves_iff rules_sound_def save_def op_defs)

lemma sound_drop [keeps]: "preserves (rules_sound ce cfg u) (save (\<lambda>d. d\<lparr>rules := AList.delete k (rules d)\<rparr>))"
  using rows_delete_subset [of k] by (fastforce simp: preserves_iff rules_sound_def save_def op_defs)

lemma stored_sound:
  assumes "rule_sound ce cfg u r"
  shows "rule_sound ce cfg u (storedRule now r)" "rule_sound ce cfg u (revised cur now r)"
    "rule_sound ce cfg u (r\<lparr>ruID := i, ruTenantID := tn, ruVersion := v, ruCreatedAt := c, ruUpdatedAt := d\<rparr>)"
proof -
  have "ruMatch r \<noteq> []" using assms const_nonempty by (auto simp: rule_sound_def)
  then show "rule_sound ce cfg u (storedRule now r)" "rule_sound ce cfg u (revised cur now r)"
    "rule_sound ce cfg u (r\<lparr>ruID := i, ruTenantID := tn, ruVersion := v, ruCreatedAt := c, ruUpdatedAt := d\<rparr>)"
    by (simp_all add: sound_content [OF assms] storedRule_def revised_def Let_def)
qed

lemma sound_writes:
  assumes "rule_sound ce cfg u r"
  shows "preserves (rules_sound ce cfg u) (CreateRule r)" "preserves (rules_sound ce cfg u) (UpdateRule r)"
  unfolding CreateRule_def UpdateRule_def Let_def cloneRule_id by (intro keeps sound_put stored_sound assms)+

lemma validate_bnd:
  fixes g :: "rule \<Rightarrow> ('z world_scheme, 'b) op"
  assumes "\<And>r. build ce cfg u inp = Inr r \<Longrightarrow> preserves (rules_sound ce cfg u) (g r)"
  shows "preserves (rules_sound ce cfg u) (bnd (ruValidate ce cfg dir subj ev i inp) g)"
proof (rule preservesI)
  fix w :: "'z world_scheme" assume w: "rules_sound ce cfg u w"
  then have u: "ucd w = u" by (simp add: rules_sound_def)
  have e: "rules_sound ce cfg u (emitted ev w)" for ev using w by (simp add: rules_sound_def)
  show "rules_sound ce cfg u (snd (bnd (ruValidate ce cfg dir subj ev i inp) g w))"
    using u w e preservesD [OF assms w]
    by (auto simp: ruValidate_def Let_def bnd_assoc run auditRule_def split: sum.splits)
qed

lemma sound_service [keeps]:
  "preserves (rules_sound ce cfg u) (ruCreate ce cfg dir mx subj inp)"
  "preserves (rules_sound ce cfg u) (ruUpdate ce cfg dir subj i inp)"
  unfolding ruCreate_def ruUpdate_def Let_def
  by (rule validate_bnd keeps sound_writes stored_sound | erule build_sound | simp)+

lemma sound_engine [keeps]:
  "preserves (rules_sound ce cfg u) (Forget i)" "preserves (rules_sound ce cfg u) (cachePut j p)"
  "preserves (rules_sound ce cfg u) (modify (\<lambda>w. w\<lparr>enEvals := n\<rparr>))"
  by (simp_all add: preserves_iff rules_sound_def Forget_def cachePut_def modify_def)

lemma sound_runs [keeps]:
  "preserves (rules_sound ce cfg u) (runRule ce' cfg' m r)" "preserves (rules_sound ce cfg u) (engineEvaluate ce' q m)"
  unfolding runRule_def Program_def compileCached_def engineEvaluate_def by (intro keeps)+

lemma sound_decideRules [keeps]: "preserves (rules_sound ce cfg u) (decideRules ce' cfg' u' tn m rs s)"
  by (induction rs arbitrary: s) (simp_all, (intro keeps | simp)+)

lemma sound_rest [keeps]:
  "preserves (rules_sound ce cfg u) (ruDelete subj i)" "preserves (rules_sound ce cfg u) (ruTest ce' cfg' subj inp sm)"
  "preserves (rules_sound ce cfg u) (Decide ce' cfg' mx tn m)"
  unfolding ruDelete_def DeleteRule_def ruTest_def Decide_def Let_def by (intro keeps)+


definition demo_rule_input :: rule_input where
  "demo_rule_input = \<lparr>riName = '' urgent '', riEnabled = None, riSortOrder = 5, riMatch = [], riConditions = [], riExpression = ''true'',
     riActions = [\<lparr>acType = ActionPriority, acTagKind = [], acTagNames = [], acAssigneeID = [], acStatus = [], acPriority = PriorityHigh\<rparr>]\<rparr>"

definition demo_empty :: "string ruled" where
  "demo_empty = demo_ruled\<lparr>db := (db demo_ruled)\<lparr>rules := []\<rparr>\<rparr>"

lemma demo_build:
  "build demo_cel demo_engine ascii_tables demo_rule_input =
     Inr (builtRule ascii_tables demo_rule_input ''urgent'' MatchAll (riActions demo_rule_input))"
proof -
  have t: "TrimSpace '' urgent '' = ''urgent''" "TrimSpace [] = []" "TrimSpace ''true'' = ''true''" "TrimSpace ActionPriority = ActionPriority"
    "ToLower ascii_tables [] = []"
    by (simp_all add: str_eval store_consts)
  have v: "ValidString ''urgent''" "RuneCountInString ''urgent'' = 6" "\<not> ruHasControl ''urgent''" "ValidString ''true''"
    by (simp_all add: ValidString_ascii RuneCountInString_def chunks_ascii ruHasControl_def runes_ascii byte_def)
  show ?thesis
    by (simp add: build_def demo_rule_input_def t v ruMaxName_def MaxSort_def NormalizeMatch_def normalizeActions_def MaxActions_def
        normalizeAction_def emptyAction_def action_neq ValidPriority_iff Priorities_def storedConditions_def builtRule_def Compile_def Effective_def
        demo_cel_def MaxExpressionLen_def Let_def)
qed


end
