(* ===== verification/RuleQuote.thy ===== *)
theory RuleQuote
  imports RuleInv
begin

text \<open>
  The value of a condition never changes the structure of the expression it is put into
  (the claim of \<open>engine.go\<close> about \<open>quote\<close>): read as the CEL grammar reads a string literal, the
  quoted value is one token that denotes the value, and what follows it is untouched.
\<close>

section \<open>Reading a literal\<close>

text \<open>
  A double-quoted CEL string literal, over runes: a quote ends it, a backslash starts an escape,
  a line break is an error. The escapes the renderer does not write are not listed.
\<close>

definition hexVal :: "rune \<Rightarrow> nat option" where
  "hexVal r = (if 48 \<le> r \<and> r \<le> 57 then Some (r - 48) else if 97 \<le> r \<and> r \<le> 102 then Some (r - 87)
     else if 65 \<le> r \<and> r \<le> 70 then Some (r - 55) else None)"

fun hexRead :: "nat \<Rightarrow> nat \<Rightarrow> rune list \<Rightarrow> (nat \<times> rune list) option" where
  "hexRead 0 acc rs = Some (acc, rs)"
| "hexRead (Suc n) acc [] = None"
| "hexRead (Suc n) acc (r # rs) = (case hexVal r of None \<Rightarrow> None | Some d \<Rightarrow> hexRead n (acc * 16 + d) rs)"

lemma hexRead_length: "hexRead n acc rs = Some (v, rest) \<Longrightarrow> length rest \<le> length rs"
  by (induction n acc rs rule: hexRead.induct) (auto split: option.splits)

definition consed :: "rune \<Rightarrow> (rune list \<times> rune list) option \<Rightarrow> (rune list \<times> rune list) option" where
  "consed r = map_option (\<lambda>(xs, rest). (r # xs, rest))"

function celBody :: "rune list \<Rightarrow> (rune list \<times> rune list) option" where
  "celBody [] = None"
| "celBody (r # rs) =
     (if r = 0x22 then Some ([], rs)
      else if r = 0x0A \<or> r = 0x0D then None
      else if r = 0x5C then
        (case rs of
           [] \<Rightarrow> None
         | e # rs' \<Rightarrow>
             if e = 0x5C \<or> e = 0x22 then consed e (celBody rs')
             else if e = 0x75 \<or> e = 0x55 then
               (case hexRead (if e = 0x75 then 4 else 8) 0 rs' of
                  None \<Rightarrow> None
                | Some (v, rest) \<Rightarrow> if valid_rune v then consed v (celBody rest) else None)
             else None)
      else consed r (celBody rs))"
  by pat_completeness auto
termination
  by (relation "measure length") (auto dest!: hexRead_length split: if_splits)

definition celLiteral :: "rune list \<Rightarrow> (rune list \<times> rune list) option" where
  "celLiteral rs = (case rs of [] \<Rightarrow> None | r # rs' \<Rightarrow> if r = 0x22 then celBody rs' else None)"

section \<open>Hexadecimal escapes\<close>

definition hexRunes :: "nat \<Rightarrow> nat \<Rightarrow> rune list" where
  "hexRunes width n = map (\<lambda>k. (let d = n div 16 ^ k mod 16 in if d < 10 then 48 + d else 87 + d)) (rev [0..<width])"

lemma hexRead_digits:
  "hexRead w acc (hexRunes w n @ rest) = Some (acc * 16 ^ w + n mod 16 ^ w, rest)"
proof (induction w arbitrary: acc)
  case 0
  then show ?case by (simp add: hexRunes_def)
next
  case (Suc w)
  let ?d = "n div 16 ^ w mod 16"
  have "hexVal (if ?d < 10 then 48 + ?d else 87 + ?d) = Some ?d"
    using mod_less_divisor [of 16 "n div 16 ^ w"] by (auto simp: hexVal_def)
  moreover have "hexRunes (Suc w) n = (if ?d < 10 then 48 + ?d else 87 + ?d) # hexRunes w n"
    by (simp add: hexRunes_def Let_def)
  ultimately have "hexRead (Suc w) acc (hexRunes (Suc w) n @ rest) = Some ((acc * 16 + ?d) * 16 ^ w + n mod 16 ^ w, rest)"
    using Suc by simp
  moreover have "n mod 16 ^ Suc w = 16 ^ w * ?d + n mod 16 ^ w"
    by (metis add.commute mod_mult2_eq power_Suc2)
  ultimately show ?case by (simp add: algebra_simps)
qed

lemma hexText_runes: "hexText w n = encode (hexRunes w n)"
proof -
  have "hexDigit d = char_of (if d < 10 then 48 + d else 87 + d)" for d by (simp add: hexDigit_def)
  moreover have "EncodeRune (if d < 10 then 48 + d else 87 + d) = [char_of (if d < 10 then 48 + d else 87 + d)]" if "d < 16" for d :: nat
    using that by (simp add: EncodeRune_def enc_bytes_def)
  ultimately have "EncodeRune (let d = n div 16 ^ k mod 16 in if d < 10 then 48 + d else 87 + d) = [hexDigit (n div 16 ^ k mod 16)]" for k
    unfolding Let_def by simp
  then show ?thesis by (simp add: hexText_def hexRunes_def encode_def comp_def)
qed

lemma hexRunes_valid: "r \<in> set (hexRunes w n) \<Longrightarrow> valid_rune r"
  by (auto simp: hexRunes_def valid_rune_def Let_def split: if_splits)

section \<open>The quoted text\<close>

definition quoteRunes :: "unicode \<Rightarrow> rune \<Rightarrow> rune list" where
  "quoteRunes u r =
     (if r = 0x5C then [0x5C, 0x5C]
      else if r = 0x22 then [0x5C, 0x22]
      else if r < 0x80 \<and> uIsPrint u r then [r]
      else if r \<ge> 0x80 \<and> uIsPrint u r \<and> r \<noteq> 0x2028 \<and> r \<noteq> 0x2029 then [r]
      else if r \<le> 0xFFFF then [0x5C, 0x75] @ hexRunes 4 r
      else [0x5C, 0x55] @ hexRunes 8 r)"

lemma quoteRune_runes: "quoteRune u r = encode (quoteRunes u r)"
proof -
  have e: "EncodeRune 0x5C = [backslash]" "EncodeRune 0x22 = [dquote]" "EncodeRune 0x75 = ''u''" "EncodeRune 0x55 = ''U''"
    unfolding backslash_def dquote_def by code_simp+
  have b: "byte backslash = 0x5C" "byte dquote = 0x22" by (simp_all add: backslash_def dquote_def byte_def)
  show ?thesis by (simp add: quoteRune_def quoteRunes_def b e hexText_runes)
qed

lemma quoteRunes_valid: "valid_rune r \<Longrightarrow> x \<in> set (quoteRunes u r) \<Longrightarrow> valid_rune x"
  by (auto simp: quoteRunes_def valid_rune_def dest: hexRunes_valid split: if_splits)

lemma celBody_quoted:
  assumes "valid_rune r" "\<forall>c < 0x20. \<not> uIsPrint u c"
  shows "celBody (quoteRunes u r @ rest) = consed r (celBody rest)"
proof -
  have lines: "\<not> uIsPrint u 0x0A" "\<not> uIsPrint u 0x0D" using assms(2) by auto
  have h4: "hexRead 4 0 (hexRunes 4 r @ rest) = Some (r, rest)" if "r \<le> 0xFFFF"
    using hexRead_digits [of 4 0 r rest] that by simp
  have h8: "hexRead 8 0 (hexRunes 8 r @ rest) = Some (r, rest)"
    using hexRead_digits [of 8 0 r rest] assms(1) by (simp add: valid_rune_def)
  show ?thesis using lines h4 h8 assms(1) by (auto simp: quoteRunes_def)
qed

lemma celLiteral_quote:
  assumes "ValidString s" "\<forall>c < 0x20. \<not> uIsPrint u c"
  shows "celLiteral (runes (quote u s @ rest)) = Some (runes s, runes rest)"
proof -
  have e: "EncodeRune 0x22 = [dquote]" unfolding dquote_def by code_simp
  let ?q = "0x22 # concat (map (quoteRunes u) (runes s)) @ [0x22]"
  have v: "\<forall>r \<in> set (runes s). valid_rune r" using ValidString_chunks [OF assms(1)] by blast
  have "concat (map (quoteRune u) rs) = encode (concat (map (quoteRunes u) rs))" for rs
    by (induction rs) (simp_all add: quoteRune_runes)
  then have "quote u s = encode ?q" by (simp add: quote_def e)
  moreover have "\<forall>r \<in> set ?q. valid_rune r" using v quoteRunes_valid by (auto simp: valid_rune_def [of "0x22"])
  ultimately have q: "runes (quote u s @ rest) = ?q @ runes rest" using runes_encode_append by metis
  have "celBody (concat (map (quoteRunes u) rs) @ 0x22 # xs) = Some (rs, xs)" if "\<forall>r \<in> set rs. valid_rune r" for rs xs
    using that by (induction rs) (simp_all add: celBody_quoted [OF _ assms(2)] consed_def)
  from this [OF v] show ?thesis unfolding q by (simp add: celLiteral_def)
qed

section \<open>Conditions\<close>

lemma lower_EncodeRune: "valid_rune r \<Longrightarrow> map lower_byte (EncodeRune r) = EncodeRune (lower_ascii r)"
proof (cases "r < 0x80")
  case True
  then have "byte (char_of r) = r" by (simp add: byte_char_of)
  with True show ?thesis by (auto simp: EncodeRune_def enc_bytes_def lower_byte_def lower_ascii_def)
next
  case False
  assume v: "valid_rune r"
  have "0x80 \<le> b \<and> b < 256" if "b \<in> set (enc_bytes r)" for b
    using that False v by (auto simp: enc_bytes_def valid_rune_def split: if_splits)
  then have "lower_byte (char_of b) = char_of b" if "b \<in> set (enc_bytes r)" for b
    using that byte_char_of [of b] by (force simp: lower_byte_def lower_ascii_def)
  with False show ?thesis by (simp add: EncodeRune_def lower_ascii_def)
qed

lemma asciiLower_valid: "ValidString s \<Longrightarrow> ValidString (asciiLower s)"
proof -
  assume s: "ValidString s"
  have v: "\<forall>r \<in> set (runes s). valid_rune r" and e: "s = encode (runes s)" using ValidString_chunks [OF s] by auto
  have "asciiLower (encode rs) = encode (map lower_ascii rs)" if "\<forall>r \<in> set rs. valid_rune r" for rs
    using that by (induction rs) (simp_all add: asciiLower_def lower_EncodeRune)
  from this [OF v] e have "asciiLower s = encode (map lower_ascii (runes s))" by metis
  moreover have "\<forall>r \<in> set (map lower_ascii (runes s)). valid_rune r" using v by (auto simp: lower_ascii_def valid_rune_def)
  ultimately show ?thesis using ValidString_encode by metis
qed

text \<open>What surrounds the literal in the expression of a text condition: a function of the field and the operator alone.\<close>

definition textFrame :: "string \<Rightarrow> string \<Rightarrow> string \<times> string" where
  "textFrame field oper =
     (if oper = ''matches'' then (field @ ''.matches('', '')'')
      else if oper = ''contains'' then (field @ ''.lowerAscii().contains('', '')'')
      else if oper = ''not_contains'' then (''!'' @ field @ ''.lowerAscii().contains('', '')'')
      else if oper = ''equals'' then (field @ ''.lowerAscii() == '', [])
      else if oper = ''not_equals'' then (field @ ''.lowerAscii() != '', [])
      else if oper = ''starts_with'' then (field @ ''.lowerAscii().startsWith('', '')'')
      else (field @ ''.lowerAscii().endsWith('', '')''))"

definition comparedValue :: "string \<Rightarrow> string \<Rightarrow> string" where
  "comparedValue oper v = (if oper = ''matches'' then v else asciiLower v)"

lemma textCondition_shape:
  assumes "textCondition ce u at field oper c = Inr e"
  shows "e = fst (textFrame field oper) @ quote u (comparedValue oper (cnValue c)) @ snd (textFrame field oper)"
  using assms by (auto simp: textCondition_def textFrame_def comparedValue_def Let_def split: if_splits option.splits)

text \<open>
  C40: a condition value cannot change the expression. The expression of a text condition is a frame that
  depends on the field and the operator only, around the quoted value; read as a CEL string literal the quoted value
  denotes exactly the runes of the value (lower-cased unless it is a pattern), and the reader stops where the frame
  continues, whatever quotes, backslashes, line breaks or operators the value contains.
\<close>

theorem condition_is_literal:
  assumes "\<forall>c < 0x20. \<not> uIsPrint u c" and "conditionExpr ce u i c = Inr e" and "TrimSpace (cnField c) = field"
    and "field \<in> set TextFields" and "ToLower u (TrimSpace (cnOperator c)) = oper" and "textFrame field oper = (pre, suf)"
  shows "e = pre @ quote u (comparedValue oper (cnValue c)) @ suf \<and>
    celLiteral (runes (quote u (comparedValue oper (cnValue c)) @ suf)) = Some (runes (comparedValue oper (cnValue c)), runes suf)"
proof -
  have n: "field \<noteq> FieldHasAttachments" "field \<noteq> FieldSpamScore" using assms(4) by (auto simp: TextFields_def field_consts)
  then have v: "ValidString (cnValue c)" and t: "textCondition ce u (''conditions['' @ Itoa (int i) @ '']'') field oper c = Inr e"
    using assms(2,3,5) by (auto simp: conditionExpr_def Let_def split: if_splits)
  have "ValidString (comparedValue oper (cnValue c))" using v asciiLower_valid by (simp add: comparedValue_def)
  from celLiteral_quote [OF this assms(1)] textCondition_shape [OF t] assms(6) show ?thesis by simp
qed

definition demo_condition :: condition where
  "demo_condition = \<lparr>cnField = '' subject'', cnOperator = ''Contains'', cnValue = [dquote] @ '') || true || ('' @ [dquote]\<rparr>"

theorem condition_is_literal_witness:
  "conditionExpr demo_cel ascii_tables 0 demo_condition =
     Inr (''subject.lowerAscii().contains('' @ quote ascii_tables (cnValue demo_condition) @ '')'') \<and>
   celLiteral (runes (quote ascii_tables (cnValue demo_condition) @ '')'')) = Some (runes (cnValue demo_condition), runes '')'')"
proof -
  have t: "TrimSpace '' subject'' = ''subject''" "ToLower ascii_tables (TrimSpace ''Contains'') = ''contains''"
    by (simp_all add: str_eval)
  have a: "asciiLower (cnValue demo_condition) = cnValue demo_condition"
  proof -
    have "lower_byte c = c" if "\<not> (0x41 \<le> byte c \<and> byte c \<le> 0x5A)" for c
      using that by (auto simp: lower_byte_def lower_ascii_def byte_def)
    then show ?thesis by (simp add: asciiLower_def demo_condition_def dquote_def byte_def)
  qed
  have v: "ValidString (cnValue demo_condition)" by (simp add: demo_condition_def dquote_def ValidString_ascii byte_def)
  have l: "length (cnValue demo_condition) \<le> MaxValueLen" "cnValue demo_condition \<noteq> []"
    by (simp_all add: demo_condition_def MaxValueLen_def)
  have e: "conditionExpr demo_cel ascii_tables 0 demo_condition =
     Inr (''subject.lowerAscii().contains('' @ quote ascii_tables (cnValue demo_condition) @ '')'')"
    using v l a t
    by (simp add: conditionExpr_def textCondition_def demo_condition_def TextFields_def TextOperators_def field_consts Let_def)
  have c: "comparedValue ''contains'' (cnValue demo_condition) = cnValue demo_condition" by (simp add: comparedValue_def a)
  have f: "textFrame ''subject'' ''contains'' = (''subject.lowerAscii().contains('', '')'')" by (simp add: textFrame_def)
  have "celLiteral (runes (quote ascii_tables (cnValue demo_condition) @ '')'')) = Some (runes (cnValue demo_condition), runes '')'')"
    using condition_is_literal [OF _ e _ _ _ f, unfolded c] t
    by (simp add: demo_condition_def ascii_tables_def TextFields_def field_consts)
  with e show ?thesis by blast
qed

end
