(* ===== verification/Inbound.thy ===== *)
theory Inbound
  imports RuleQuote CommentProps
begin

text \<open>
  The inbound mail edge (\<open>internal/inbound\<close>): a posted message is authenticated, read within
  its cap, parsed, routed to the mailbox of a tenant, checked for duplicates, threaded into a ticket of that
  tenant or triaged into a new one, and a new ticket is acknowledged when that is safe. Requests
  are the record \<open>request\<close> (headers by canonical name, the announced length, the body and the error its
  reader ends with), responses a status and the fields of the JSON body. The TLS listener is not modelled.
\<close>

section \<open>Requests and responses\<close>

definition HeaderToken :: string where "HeaderToken = ''X-Ticket-Token''"
definition HeaderIrisRecipient :: string where "HeaderIrisRecipient = ''X-Iris-Recipient''"
definition HeaderRecipient :: string where "HeaderRecipient = ''X-Ticket-Recipient''"
definition HeaderIrisMessageID :: string where "HeaderIrisMessageID = ''X-Iris-Message-Id''"

definition OutcomeCreated :: string where "OutcomeCreated = ''created''"
definition OutcomeThreaded :: string where "OutcomeThreaded = ''threaded''"
definition OutcomeDuplicate :: string where "OutcomeDuplicate = ''duplicate''"
definition OutcomeDropped :: string where "OutcomeDropped = ''dropped''"

lemmas inbound_outcomes = OutcomeCreated_def OutcomeThreaded_def OutcomeDuplicate_def OutcomeDropped_def

definition maxRecipientLookups :: nat where "maxRecipientLookups = 10"

definition NilTenant :: string where "NilTenant = ''00000000-0000-0000-0000-000000000000''"

datatype read_err = MaxBytes | ReadFailed

record request =
  rqHeader :: "string \<Rightarrow> string"
  rqContentLength :: int
  rqBody :: string
  rqReadErr :: "read_err option"

record response =
  rsStatus :: int
  rsBody :: "(string \<times> string) list"

definition Refusal :: "int \<Rightarrow> response" where
  "Refusal status = \<lparr>rsStatus = status, rsBody = [(''outcome'', ''refused'')]\<rparr>"

text \<open>
  What the handler is wired with: the MIME and CEL libraries, the engine, the rule limit, the agent
  directory, whether there is a triage, the parse limits, the relay token (no source, or what reading it gives)
  and the fallback domain. The other dependencies are in the state.
\<close>

record ('ast, 'p) inbound_deps =
  idLib :: mime_lib
  idCel :: "('ast, 'p) cel"
  idEngine :: engine_config
  idMaxRules :: int
  idDir :: "directory option"
  idTriage :: bool
  idLimits :: limits
  idSecrets :: "string res option"
  idMailDomain :: string

definition NewHandler :: "('ast, 'p) inbound_deps \<Rightarrow> ('ast, 'p) inbound_deps" where
  "NewHandler d =
     (if liMaxTextBytes (idLimits d) \<le> 0 \<or> liMaxTextBytes (idLimits d) > int MaxDescription
      then d\<lparr>idLimits := (idLimits d)\<lparr>liMaxTextBytes := int MaxDescription\<rparr>\<rparr> else d)"

section \<open>Authentication and routing\<close>

definition bearer :: "unicode \<Rightarrow> string \<Rightarrow> string" where
  "bearer u a = (if length a > 7 \<and> EqualFold u (take 7 a) ''Bearer '' then TrimSpace (drop 7 a) else [])"

definition authenticate :: "('ast, 'p) inbound_deps \<Rightarrow> unicode \<Rightarrow> (string \<Rightarrow> string) \<Rightarrow> request \<Rightarrow> int \<times> string" where
  "authenticate d u digest r =
     (let got = (if rqHeader r HeaderToken = [] then bearer u (rqHeader r ''Authorization'') else rqHeader r HeaderToken)
      in case idSecrets d of
           None \<Rightarrow> (503, ''token_unavailable'')
         | Some (Inl _) \<Rightarrow> (503, ''token_unavailable'')
         | Some (Inr want) \<Rightarrow>
             if want = [] then (503, ''token_unavailable'')
             else if got = [] \<or> digest got \<noteq> digest want then (401, ''token'')
             else (0, []))"

fun tryRoutes :: "string list \<Rightarrow> ('a mem_scheme, mailbox_route \<times> string) op" where
  "tryRoutes [] = throw RepoNotFound"
| "tryRoutes (c # cs) =
     bnd (fetch ucd) (\<lambda>u.
     let addr = NormalizeRecipient u c
     in if addr = [] then tryRoutes cs
        else
        bnd (attempt (RouteMailbox addr)) (\<lambda>r.
        case r of
          Inl e \<Rightarrow> if err_is e RepoNotFound then tryRoutes cs else throw (Retry e)
        | Inr rt \<Rightarrow> if rtActive rt then ret (rt, addr) else tryRoutes cs))"

definition candidates :: "request \<Rightarrow> message \<Rightarrow> string list" where
  "candidates r msg =
     (if rqHeader r HeaderIrisRecipient \<noteq> [] then [rqHeader r HeaderIrisRecipient]
      else if rqHeader r HeaderRecipient \<noteq> [] then [rqHeader r HeaderRecipient]
      else msDeliveredTo msg @ msTo msg)"

definition route :: "request \<Rightarrow> message \<Rightarrow> ('a mem_scheme, mailbox_route \<times> string) op" where
  "route r msg = tryRoutes (take maxRecipientLookups (candidates r msg))"

definition auditInbound :: "subjects \<Rightarrow> string \<Rightarrow> string \<Rightarrow> string \<Rightarrow> (string \<times> any) list \<Rightarrow> ('a world_scheme, unit) op" where
  "auditInbound subj t kind ident details =
     Emit \<lparr>evTenantID = suTenantID subj, evEventType = t, evActorKind = ActorInbound, evActorID = ActorID subj,
       evSubjectKind = kind, evSubjectID = ident, evOutcome = OutcomeOK, evReason = [], evDetails = details\<rparr>"

section \<open>Duplicates and attachments\<close>

definition duplicate :: "string \<Rightarrow> string \<Rightarrow> ('a mem_scheme, string option) op" where
  "duplicate tenantID msgID =
     (if msgID = [] then ret None
      else
      bnd (attempt (FindCommentByMessageID tenantID msgID)) (\<lambda>r.
      case r of
        Inr c \<Rightarrow> ret (Some (cmTicketID c))
      | Inl e \<Rightarrow>
          if \<not> err_is e RepoNotFound then throw (Retry e)
          else
          bnd (attempt (FindTicketByExternalID tenantID msgID)) (\<lambda>r'.
          case r' of
            Inr t \<Rightarrow> ret (Some (tkID t))
          | Inl e' \<Rightarrow> if \<not> err_is e' RepoNotFound then throw (Retry e') else ret None)))"

definition discard :: "attachment list \<Rightarrow> ('a world_scheme, unit) op" where
  "discard = each (\<lambda>a. bnd (attempt (blobDelete (atStorageKey a))) (\<lambda>_. ret ()))"

definition stagedOf :: "string \<Rightarrow> string \<Rightarrow> string \<Rightarrow> mail_attachment \<Rightarrow> string \<Rightarrow> attachment" where
  "stagedOf tenantID ticketID i a checksum =
     \<lparr>atID = i, atTenantID = tenantID, atTicketID = ticketID, atCommentID = [], atFilename = maFilename a,
      atContentType = maContentType a, atSize = int (length (maData a)), atContentID = maContentID a, atInline = maInline a,
      atStorageKey = AttachmentKey tenantID ticketID i, atChecksum = checksum, atCreatedAt = 0\<rparr>"

fun uploadFrom :: "string \<Rightarrow> string \<Rightarrow> mail_attachment list \<Rightarrow> attachment list \<Rightarrow> ('a world_scheme, attachment list) op" where
  "uploadFrom tenantID ticketID [] out = ret out"
| "uploadFrom tenantID ticketID (a # as) out =
     bnd NewID (\<lambda>i.
     bnd (attempt (blobPut (AttachmentKey tenantID ticketID i) (maData a))) (\<lambda>r.
     case r of
       Inl e \<Rightarrow> bnd (discard out) (\<lambda>_. throw (Retry (Wrapped ''attachment upload'' e)))
     | Inr checksum \<Rightarrow> uploadFrom tenantID ticketID as (out @ [stagedOf tenantID ticketID i a checksum])))"

definition upload :: "string \<Rightarrow> string \<Rightarrow> message \<Rightarrow> ('a world_scheme, attachment list) op" where
  "upload tenantID ticketID msg = uploadFrom tenantID ticketID (msAttachments msg) []"

fun recordAttachments :: "string \<Rightarrow> attachment list \<Rightarrow> ('a world_scheme, nat) op" where
  "recordAttachments commentID [] = ret 0"
| "recordAttachments commentID (a # as) =
     bnd (attempt (CreateAttachment (a\<lparr>atCommentID := commentID\<rparr>))) (\<lambda>r.
     case r of
       Inl _ \<Rightarrow> bnd (discard [a]) (\<lambda>_. recordAttachments commentID as)
     | Inr _ \<Rightarrow> bnd (recordAttachments commentID as) (\<lambda>n. ret (Suc n)))"

definition noteText :: "unicode \<Rightarrow> message \<Rightarrow> string" where
  "noteText u msg =
     concat (map (\<lambda>s. ''Attachment '' @ Quote u (mkFilename s) @ '' ('' @ Itoa (mkSize s) @
       '' bytes) was not stored: it exceeds the size limit.'' @ nl) (msSkipped msg)) @
     (if msTruncated msg
      then ''Some parts of this message were not processed: it exceeds the MIME part or nesting limit.'' @ nl else [])"

definition inNote :: "string \<Rightarrow> string \<Rightarrow> message \<Rightarrow> ('a mem_scheme, unit) op" where
  "inNote tenantID ticketID msg =
     (if msSkipped msg = [] \<and> \<not> msTruncated msg then ret ()
      else
      bnd (fetch ucd) (\<lambda>u.
      bnd NewID (\<lambda>i.
      bnd (attempt (CreateComment ((newComment i tenantID ticketID (TrimSpace (noteText u msg)) True [])
            \<lparr>cmAuthorKind := AuthorSystem, cmAuthorName := ''Inbound mail''\<rparr>))) (\<lambda>_.
      ret ()))))"

section \<open>Acknowledgement\<close>

definition AckOff :: string where "AckOff = ''auto_ack_off''"
definition AckNoRelay :: string where "AckNoRelay = ''no_relay''"
definition AckAutoSubmitted :: string where "AckAutoSubmitted = ''auto_submitted''"
definition AckBulk :: string where "AckBulk = ''bulk_precedence''"
definition AckDaemon :: string where "AckDaemon = ''daemon_sender''"
definition AckSelf :: string where "AckSelf = ''self_addressed''"
definition AckUnsafe :: string where "AckUnsafe = ''unsafe_header''"
definition AckRecordFailed :: string where "AckRecordFailed = ''record_failed''"

lemmas ack_reasons = AckOff_def AckNoRelay_def AckAutoSubmitted_def AckBulk_def AckDaemon_def AckSelf_def AckUnsafe_def AckRecordFailed_def

definition AckAuthorName :: string where "AckAuthorName = ''Auto-acknowledgement''"
definition NamePlaceholder :: string where "NamePlaceholder = ''{{name}}''"

definition defaultAck :: string where
  "defaultAck = ''Hello{{greeting}},'' @ nl @ nl @
     ''Thank you for contacting support. We have received your request and '' @
     ''our team will get back to you as soon as possible.'' @ nl @ nl @
     ''You can simply reply to this email to add more information.''"

definition AckBody :: "string \<Rightarrow> string \<Rightarrow> string \<Rightarrow> string" where
  "AckBody template name0 ticketID =
     (let name = TrimSpace name0;
          body = (if TrimSpace template = []
                  then ReplaceAll defaultAck ''{{greeting}}'' (if name \<noteq> [] then '' '' @ name else [])
                  else ReplaceAll template NamePlaceholder name);
          ref = ReferenceLine ticketID
      in if Contains body ref then body
         else TrimRight body crlf @ nl @ nl @ ''--'' @ nl @ ref @ nl)"

definition ackSuppressed :: "mailbox_route \<Rightarrow> string \<Rightarrow> message \<Rightarrow> ticket \<Rightarrow> ('a desk_scheme, string) op" where
  "ackSuppressed rt recipient msg t =
     bnd (fetch (\<lambda>w. (ucd w, mlOn w \<and> mlEnabled w))) (\<lambda>(u, relay).
     let addr = ToLower u (TrimSpace (tkRequesterEmail t))
     in if \<not> rtAutoAck rt then ret AckOff
        else if \<not> relay then ret AckNoRelay
        else if msAutoSubmitted msg \<noteq> [] \<and> msAutoSubmitted msg \<noteq> ''no'' then ret AckAutoSubmitted
        else if IsAuto msg then ret AckBulk
        else if IsDaemonSender u addr \<or> \<not> Contains addr ''@'' then ret AckDaemon
        else if EqualFold u addr recipient then ret AckSelf
        else
        bnd (attempt (RouteMailbox addr)) (\<lambda>r.
        ret (case r of Inr _ \<Rightarrow> AckSelf | Inl _ \<Rightarrow> [])))"

definition ackSkipped :: "subjects \<Rightarrow> string \<Rightarrow> string \<Rightarrow> ('a world_scheme, unit) op" where
  "ackSkipped subj ticketID reason =
     bnd (MetricAck ResultSkipped) (\<lambda>_.
     Emit \<lparr>evTenantID = suTenantID subj, evEventType = AckSkipped, evActorKind = ActorInbound, evActorID = ActorID subj,
       evSubjectKind = SubjectTicket, evSubjectID = ticketID, evOutcome = OutcomeOK, evReason = reason, evDetails = []\<rparr>)"

definition domainFor :: "unicode \<Rightarrow> string \<Rightarrow> string \<Rightarrow> string" where
  "domainFor u mb fallback = (if DomainOf u mb \<noteq> [] then DomainOf u mb else fallback)"

definition ackMail :: "unicode \<Rightarrow> mailbox_route \<Rightarrow> string \<Rightarrow> ticket \<Rightarrow> string \<Rightarrow> out_mail" where
  "ackMail u rt recipient t msgID =
     (let out = \<lparr>omFrom = recipient, omFromName = rtDisplayName rt, omTo = TrimSpace (tkRequesterEmail t),
            omToName = tkRequesterName t, omSubject = ReplySubject u (tkSubject t),
            omText = AckBody (rtAutoAckTemplate rt) (tkRequesterName t) (tkID t), omMessageID = msgID, omInReplyTo = [],
            omReferences = [], omAutoReply = True\<rparr>;
          threaded = (if tkExternalID t \<noteq> [] then out\<lparr>omInReplyTo := tkExternalID t, omReferences := [tkExternalID t]\<rparr> else out)
      in case ValidateMail u threaded of
           Inl _ \<Rightarrow> if omInReplyTo threaded \<noteq> [] then threaded\<lparr>omInReplyTo := [], omReferences := []\<rparr> else threaded
         | Inr _ \<Rightarrow> threaded)"

definition sendAck :: "subjects \<Rightarrow> mailbox_route \<Rightarrow> ticket \<Rightarrow> out_mail \<Rightarrow> comment \<Rightarrow> ('a desk_scheme, unit) op" where
  "sendAck subj rt t out c =
     bnd (attempt (FakeSend out)) (\<lambda>sendErr.
     let (delivery, outcome, result) =
           (case sendErr of
              Inr _ \<Rightarrow> (DeliverySent, OutcomeOK, ResultSent)
            | Inl _ \<Rightarrow> (DeliveryFailed, OutcomeError, ResultFailed))
     in bnd (attempt (SetCommentDelivery (tkTenantID t) (cmID c) delivery)) (\<lambda>_.
        bnd (MetricAck result) (\<lambda>_.
        Emit \<lparr>evTenantID = suTenantID subj, evEventType = AckSent, evActorKind = ActorInbound, evActorID = ActorID subj,
          evSubjectKind = SubjectTicket, evSubjectID = tkID t, evOutcome = outcome, evReason = [],
          evDetails = [(''comment_id'', VStr (cmID c)), (''mailbox_id'', VStr (rtMailboxID rt))]\<rparr>)))"

definition acknowledge ::
  "string \<Rightarrow> subjects \<Rightarrow> mailbox_route \<Rightarrow> string \<Rightarrow> message \<Rightarrow> ticket \<Rightarrow> ('a desk_scheme, unit) op" where
  "acknowledge mailDomain subj rt recipient msg t =
     bnd (ackSuppressed rt recipient msg t) (\<lambda>reason.
     if reason \<noteq> [] then ackSkipped subj (tkID t) reason
     else
     bnd (fetch ucd) (\<lambda>u.
     bnd (MessageID (tkID t) (domainFor u recipient mailDomain)) (\<lambda>msgID.
     let out = ackMail u rt recipient t msgID
     in case ValidateMail u out of
          Inl _ \<Rightarrow> ackSkipped subj (tkID t) AckUnsafe
        | Inr _ \<Rightarrow>
            bnd NewID (\<lambda>i.
            let c = (newComment i (tkTenantID t) (tkID t) (omText out) False (omMessageID out))
                      \<lparr>cmAuthorKind := AuthorSystem, cmAuthorID := ActorID subj, cmAuthorName := AckAuthorName\<rparr>
            in bnd (attempt (CreateComment c)) (\<lambda>r.
               case r of
                 Inl _ \<Rightarrow> ackSkipped subj (tkID t) AckRecordFailed
               | Inr _ \<Rightarrow> sendAck subj rt t out c)))))"

section \<open>Replies and new tickets\<close>

definition reopenReplied :: "subjects \<Rightarrow> ticket \<Rightarrow> ('a desk_scheme, ticket \<times> bool) op" where
  "reopenReplied subj t =
     bnd (fetch tkOn) (\<lambda>on.
     if (tkStatus t = StatusResolved \<or> tkStatus t = StatusClosed) \<and> on then
       bnd (attempt (SetStatusAs subj (tkID t) StatusOpen ActorInbound)) (\<lambda>r.
       ret (case r of Inr v \<Rightarrow> (vwTicket v, True) | Inl _ \<Rightarrow> (t, False)))
     else ret (t, False))"

definition replied :: "subjects \<Rightarrow> match \<Rightarrow> message \<Rightarrow> string \<Rightarrow> attachment list \<Rightarrow> ('a desk_scheme, string \<times> string) op" where
  "replied subj m msg commentID st =
     bnd (recordAttachments commentID st) (\<lambda>stored.
     bnd (inNote (suTenantID subj) (maTicketID m) msg) (\<lambda>_.
     bnd (attempt (GetTicket (suTenantID subj) (maTicketID m))) (\<lambda>r.
     bnd (case r of
            Inl _ \<Rightarrow> ret False
          | Inr t0 \<Rightarrow>
              bnd (reopenReplied subj t0) (\<lambda>(t, reopened).
              bnd (EmitEvent (suTenantID subj) TicketRequesterReplied t (histActorKind subj)) (\<lambda>_.
              ret reopened))) (\<lambda>reopened.
     bnd (auditInbound subj InboundThreaded SubjectTicket (maTicketID m)
            [(''by'', VStr (maBy m)), (''comment_id'', VStr commentID), (''attachments'', VInt (int stored)),
             (''skipped'', VInt (int (length (msSkipped msg)))), (''reopened'', VBool reopened)]) (\<lambda>_.
     ret (OutcomeThreaded, maTicketID m))))))"

definition inReply :: "subjects \<Rightarrow> match \<Rightarrow> message \<Rightarrow> ('a desk_scheme, string \<times> string) op" where
  "inReply subj m msg =
     bnd (upload (suTenantID subj) (maTicketID m) msg) (\<lambda>st.
     bnd NewID (\<lambda>i.
     let c = (newComment i (suTenantID subj) (maTicketID m) (if msText msg = [] then ''(empty message)'' else msText msg) False
               (msMessageID msg))\<lparr>cmAuthorKind := AuthorRequester, cmAuthorName := msFromName msg, cmAuthorEmail := msFromEmail msg\<rparr>
     in bnd (attempt (CreateComment c)) (\<lambda>r.
        case r of
          Inl e \<Rightarrow>
            bnd (discard st) (\<lambda>_.
            if err_is e RepoConflict then
              bnd (auditInbound subj InboundDuplicate SubjectTicket (maTicketID m) []) (\<lambda>_. ret (OutcomeDuplicate, maTicketID m))
            else if err_is e RepoNotFound then throw InTicketGone
            else throw (Retry e))
        | Inr _ \<Rightarrow> replied subj m msg (cmID c) st)))"

definition emailTicket :: "string \<Rightarrow> subjects \<Rightarrow> mailbox_route \<Rightarrow> string \<Rightarrow> message \<Rightarrow> ticket" where
  "emailTicket i subj rt recipient msg =
     \<lparr>tkID = i, tkTenantID = suTenantID subj, tkSubject = (if msSubject msg = [] then NoSubject else msSubject msg),
      tkDescription = msText msg, tkBodyHTML = msHTML msg, tkStatus = StatusOpen, tkPriority = PriorityNormal,
      tkSource = SourceEmail, tkRequesterEmail = msFromEmail msg, tkRequesterName = msFromName msg, tkRecipient = recipient,
      tkMailboxID = rtMailboxID rt, tkExternalID = msMessageID msg, tkAssigneeID = [], tkAssigneeName = [], tkCommentCount = 0,
      tkLastMessageID = [], tkCreatedBy = CreatedByInbound, tkCreatedAt = 0, tkUpdatedAt = 0, tkResolvedAt = None\<rparr>"

text \<open>What follows the stored ticket: attachment rows, the note, the rule actions, the event, the acknowledgement.\<close>

definition opened ::
  "('ast, 'p) inbound_deps \<Rightarrow> subjects \<Rightarrow> mailbox_route \<Rightarrow> string \<Rightarrow> message \<Rightarrow> plan \<Rightarrow> ticket \<Rightarrow> attachment list \<Rightarrow>
   ('a desk_scheme, string \<times> string) op" where
  "opened d subj rt recipient msg p t st =
     bnd (recordAttachments [] st) (\<lambda>stored.
     bnd (inNote (suTenantID subj) (tkID t) msg) (\<lambda>_.
     bnd (case plnApply p of
            None \<Rightarrow> ret ()
          | Some dc \<Rightarrow> bnd (attempt (triageApply (idDir d) subj (tkID t) dc)) (\<lambda>_. ret ())) (\<lambda>_.
     bnd (attempt (GetTicket (suTenantID subj) (tkID t))) (\<lambda>r.
     let created = (case r of Inr x \<Rightarrow> x | Inl _ \<Rightarrow> t)
     in bnd (EmitEvent (suTenantID subj) TicketCreated created (histActorKind subj)) (\<lambda>_.
        bnd (acknowledge (idMailDomain d) subj rt recipient msg created) (\<lambda>_.
        bnd (auditInbound subj InboundCreated SubjectTicket (tkID t)
               [(''mailbox_id'', VStr (rtMailboxID rt)), (''attachments'', VInt (int stored)),
                (''skipped'', VInt (int (length (msSkipped msg)))), (''has_html'', VBool (msHTML msg \<noteq> [])),
                (''auto'', VBool (IsAuto msg)), (''spam_score'', VFloat (msSpamScore msg))]) (\<lambda>_.
        ret (OutcomeCreated, tkID t))))))))"

definition inCreate ::
  "('ast, 'p) inbound_deps \<Rightarrow> subjects \<Rightarrow> mailbox_route \<Rightarrow> string \<Rightarrow> message \<Rightarrow> plan \<Rightarrow> ('a desk_scheme, string \<times> string) op" where
  "inCreate d subj rt recipient msg p =
     bnd NewID (\<lambda>i.
     let t = emailTicket i subj rt recipient msg
     in bnd (upload (suTenantID subj) (tkID t) msg) (\<lambda>st.
        bnd (attempt (CreateTicket t)) (\<lambda>r.
        case r of
          Inl e \<Rightarrow>
            bnd (discard st) (\<lambda>_.
            if err_is e RepoConflict \<and> tkExternalID t \<noteq> [] then
              bnd (attempt (FindTicketByExternalID (suTenantID subj) (tkExternalID t))) (\<lambda>f.
              case f of
                Inr ex \<Rightarrow>
                  bnd (auditInbound subj InboundDuplicate SubjectTicket (tkID ex) []) (\<lambda>_. ret (OutcomeDuplicate, tkID ex))
              | Inl _ \<Rightarrow> throw (Retry e))
            else throw (Retry e))
        | Inr _ \<Rightarrow> opened d subj rt recipient msg p t st)))"

section \<open>The handler\<close>

definition noPlan :: plan where "noPlan = \<lparr>plnDrop = False, plnApply = None\<rparr>"

definition triageFor ::
  "('ast, 'p) inbound_deps \<Rightarrow> subjects \<Rightarrow> string \<Rightarrow> message \<Rightarrow> (('p, 'a) ruled_scheme, plan) op" where
  "triageFor d subj recipient msg =
     (if idTriage d then
        bnd (attempt (Evaluate (idCel d) (idEngine d) (idMaxRules d) subj (Some msg) recipient)) (\<lambda>r.
        ret (case r of Inr p \<Rightarrow> p | Inl _ \<Rightarrow> noPlan))
      else ret noPlan)"

definition openTicket ::
  "('ast, 'p) inbound_deps \<Rightarrow> subjects \<Rightarrow> mailbox_route \<Rightarrow> string \<Rightarrow> message \<Rightarrow> (('p, 'a) ruled_scheme, string \<times> string) op" where
  "openTicket d subj rt recipient msg =
     bnd (triageFor d subj recipient msg) (\<lambda>p.
     if plnDrop p then
       bnd (auditInbound subj InboundDropped SubjectMessage [] [(''spam_score'', VFloat (msSpamScore msg))]) (\<lambda>_.
       ret (OutcomeDropped, []))
     else inCreate d subj rt recipient msg p)"

definition ingest ::
  "('ast, 'p) inbound_deps \<Rightarrow> subjects \<Rightarrow> mailbox_route \<Rightarrow> string \<Rightarrow> message \<Rightarrow> (('p, 'a) ruled_scheme, string \<times> string) op" where
  "ingest d subj rt recipient msg =
     bnd (duplicate (rtTenantID rt) (msMessageID msg)) (\<lambda>dup.
     case dup of
       Some ident \<Rightarrow>
         bnd (auditInbound subj InboundDuplicate SubjectTicket ident []) (\<lambda>_. ret (OutcomeDuplicate, ident))
     | None \<Rightarrow>
         bnd (map_err Retry (resolveIn (rtTenantID rt)
           \<lparr>tiMessageIDs = ThreadIDs msg, tiText = msText msg, tiSubject = msSubject msg\<rparr>)) (\<lambda>m.
         if maTicketID m \<noteq> [] then
           bnd (attempt (inReply subj m msg)) (\<lambda>r.
           case r of
             Inr x \<Rightarrow> ret x
           | Inl e \<Rightarrow> if err_is e InTicketGone then openTicket d subj rt recipient msg else throw e)
         else openTicket d subj rt recipient msg))"

definition refuse :: "int \<Rightarrow> string \<Rightarrow> ('a world_scheme, response) op" where
  "refuse code reason =
     bnd (Emit \<lparr>evTenantID = NilTenant, evEventType = InboundRefused, evActorKind = ActorInbound, evActorID = InboundActorID,
            evSubjectKind = SubjectMessage, evSubjectID = [], evOutcome = OutcomeRefused, evReason = reason, evDetails = []\<rparr>) (\<lambda>_.
     bnd (MetricInbound (if code = 503 then OutcomeError else OutcomeRefused)) (\<lambda>_.
     ret (Refusal code)))"

definition inFail :: "string \<Rightarrow> ('a world_scheme, response) op" where
  "inFail tenantID =
     bnd (MetricInbound OutcomeError) (\<lambda>_.
     bnd (if tenantID \<noteq> [] then
            Emit \<lparr>evTenantID = tenantID, evEventType = InboundRefused, evActorKind = ActorInbound, evActorID = InboundActorID,
              evSubjectKind = SubjectMessage, evSubjectID = [], evOutcome = OutcomeError, evReason = ''storage_unavailable'', evDetails = []\<rparr>
          else ret ()) (\<lambda>_.
     ret (Refusal 503)))"

definition accepted_response :: "string \<Rightarrow> string \<Rightarrow> response" where
  "accepted_response outcome ticketID =
     \<lparr>rsStatus = 202, rsBody = (''outcome'', outcome) # (if ticketID \<noteq> [] then [(''ticket_id'', ticketID)] else [])\<rparr>"

definition bodyLimit :: "('ast, 'p) inbound_deps \<Rightarrow> int" where
  "bodyLimit d = (if liMaxBodyBytes (idLimits d) \<le> 0 then liMaxBodyBytes DefaultLimits else liMaxBodyBytes (idLimits d))"

text \<open>\<open>io.ReadAll(io.LimitReader(r.Body, limit+1))\<close>: the error shows only when the reader gets to it.\<close>

definition readBody :: "int \<Rightarrow> request \<Rightarrow> string \<times> read_err option" where
  "readBody limit r =
     (let n = nat (limit + 1) in (take n (rqBody r), if length (rqBody r) \<ge> n then None else rqReadErr r))"

definition deliverMail ::
  "('ast, 'p) inbound_deps \<Rightarrow> request \<Rightarrow> message \<Rightarrow> (('p, 'a) ruled_scheme, response) op" where
  "deliverMail d r msg =
     bnd (attempt (route r msg)) (\<lambda>res.
     case res of
       Inl e \<Rightarrow> if err_is e RepoNotFound then refuse 404 ''mailbox'' else inFail []
     | Inr (rt, recipient) \<Rightarrow>
         (let msg' = (case ParseMessageIDs (rqHeader r HeaderIrisMessageID) of [] \<Rightarrow> msg | i # _ \<Rightarrow> msg\<lparr>msMessageID := i\<rparr>)
          in bnd (attempt (ingest d (SystemFor (rtTenantID rt)) rt recipient msg')) (\<lambda>out.
             case out of
               Inl _ \<Rightarrow> inFail (rtTenantID rt)
             | Inr (outcome, ticketID) \<Rightarrow>
                 bnd (MetricInbound outcome) (\<lambda>_. ret (accepted_response outcome ticketID)))))"

definition ServeHTTP :: "('ast, 'p) inbound_deps \<Rightarrow> request \<Rightarrow> (('p, 'a) ruled_scheme, response) op" where
  "ServeHTTP d r =
     bnd (fetch (\<lambda>w. (ucd w, sha256 w))) (\<lambda>(u, digest).
     let (code, reason) = authenticate d u digest r
     in if code \<noteq> 0 then refuse code reason
        else
        (let limit = bodyLimit d
         in if rqContentLength r > limit then refuse 413 ''size''
            else
            (let (raw, rerr) = readBody limit r
             in if rerr \<noteq> None \<or> int (length raw) > limit then
                  (if rerr = None \<or> rerr = Some MaxBytes then refuse 413 ''size'' else refuse 400 ''read'')
                else
                case Parse ((idLib d)\<lparr>mlTables := u\<rparr>) raw (idLimits d) of
                  Inl _ \<Rightarrow> refuse 413 ''size''
                | Inr msg \<Rightarrow> deliverMail d r msg)))"

section \<open>The edge\<close>

definition PathMail :: string where "PathMail = ''/inbound/mail''"
definition PathHealthz :: string where "PathHealthz = ''/healthz''"

text \<open>\<open>http.MaxBytesReader\<close>: the body ends with its error after the cap.\<close>

definition maxBytesReader :: "int \<Rightarrow> request \<Rightarrow> request" where
  "maxBytesReader n r =
     (if int (length (rqBody r)) > n then r\<lparr>rqBody := take (nat n) (rqBody r), rqReadErr := Some MaxBytes\<rparr> else r)"

text \<open>The mux of \<open>NewServer\<close> on a path in canonical form; a pattern for \<open>GET\<close> also serves \<open>HEAD\<close>, and what no other pattern matches is refused.\<close>

definition serveEdge ::
  "('ast, 'p) inbound_deps option \<Rightarrow> int \<Rightarrow> string \<Rightarrow> string \<Rightarrow> request \<Rightarrow> (('p, 'a) ruled_scheme, response) op" where
  "serveEdge mail maxBody verb path r =
     (if path = PathHealthz \<and> verb \<in> {''GET'', ''HEAD''} then ret \<lparr>rsStatus = 200, rsBody = [(''status'', ''ok'')]\<rparr>
      else if path = PathMail \<and> verb = ''POST'' then
        (case mail of
           None \<Rightarrow> ret (Refusal 503)
         | Some d \<Rightarrow> ServeHTTP d (if maxBody > 0 then maxBytesReader maxBody r else r))
      else ret (Refusal 404))"

end
