(* ===== verification/Confine.thy ===== *)
theory Confine
  imports World MemIso
begin

text \<open>
  What an operation leaves alone, for the layers above the store: \<open>still\<close> operations do not touch the tables, and
  \<open>apart\<close> ones keep the integrity of the store and every row another tenant can see. The lemmas lift the store's
  isolation to compositions of its methods.
\<close>

section \<open>Reads and effects outside the store\<close>

definition still :: "tables \<Rightarrow> unicode \<Rightarrow> 'a mem_scheme \<Rightarrow> bool" where
  "still D u w \<longleftrightarrow> db w = D \<and> ucd w = u"

lemma still_basic [keeps]:
  "preserves (still D u) (fail m)" "preserves (still D u) (failLocked m)" "preserves (still D u) Now" "preserves (still D u) NewID"
  "preserves (still D u) (look f)"
  by (auto simp: preserves_iff still_def fail_def failLocked_def Now_def NewID_eq look_def op_defs)

lemma still_world [keeps]:
  "preserves (still D u) (Emit e)" "preserves (still D u) (EmitEvent tn ev t ak)" "preserves (still D u) (count n as)"
  "preserves (still D u) (blobPut k d)" "preserves (still D u) (blobDelete k)" "preserves (still D u) (blobGet k)"
  by (auto simp: preserves_iff still_def same_storeD [OF same_store_world(2)] same_storeD [OF same_store_world(3)]
      same_storeD [OF same_store_world(4)] same_storeD [OF same_store_world(5)] same_storeD [OF same_store_world(6)]
      same_storeD [OF same_store_world(7)])

lemma still_metrics [keeps]:
  "preserves (still D u) (MetricInbound x)" "preserves (still D u) MetricRuleError" "preserves (still D u) (MetricAck x)"
  "preserves (still D u) (MetricReply x)" "preserves (still D u) (Transition x y)"
  unfolding MetricInbound_def MetricRuleError_def MetricAck_def MetricReply_def Transition_def by (intro keeps)+

lemma still_reads [keeps]:
  "preserves (still D u) (GetTicket tn i)" "preserves (still D u) (FindTicketByExternalID tn i)"
  "preserves (still D u) (FindCommentByMessageID tn i)" "preserves (still D u) (RouteMailbox a)"
  "preserves (still D u) (ListEnabledRules tn)" "preserves (still D u) (TagsForTickets tn is)" "preserves (still D u) (ListAttachments tn i)"
  "preserves (still D u) (GetComment tn i)" "preserves (still D u) (ListComments tn i)" "preserves (still D u) (GetAttachment tn i j)"
  "preserves (still D u) (GetTag tn i)" "preserves (still D u) (ListTags tn k)" "preserves (still D u) (GetRule tn i)"
  "preserves (still D u) (ListRules tn)" "preserves (still D u) (GetMailbox tn i)" "preserves (still D u) (ListMailboxes tn)"
  "preserves (still D u) (ListHistory tn i)"
  unfolding GetTicket_def FindTicketByExternalID_def FindCommentByMessageID_def RouteMailbox_def ListEnabledRules_def
    TagsForTickets_def ListAttachments_def GetComment_def ListComments_def GetAttachment_def GetTag_def ListTags_def GetRule_def
    ListRules_def GetMailbox_def ListMailboxes_def ListHistory_def Let_def by (intro keeps)+

lemma still_all [keeps]:
  "preserves (still D u) (AllTickets tn)" "preserves (still D u) (AllComments tn)" "preserves (still D u) (AllAttachments tn)"
  "preserves (still D u) (AllTagLinks tn)" "preserves (still D u) (AllHistory tn)"
  unfolding AllTickets_def AllComments_def AllAttachments_def AllTagLinks_def AllHistory_def Let_def by (intro keeps)+

lemma still_pages [keeps]:
  "preserves (still D u) (ListTickets St Wt tn f req)" "preserves (still D u) (PageTags Sg Wg tn k req)"
  "preserves (still D u) (PageRules Sr Wr tn req)" "preserves (still D u) (PageMailboxes Sm Wm tn req)"
  unfolding ListTickets_def PageTags_def PageRules_def PageMailboxes_def Let_def by (intro keeps)+

section \<open>One tenant\<close>

definition apart :: "string \<Rightarrow> tables \<Rightarrow> 'a mem_scheme \<Rightarrow> bool" where
  "apart tn v w \<longleftrightarrow> store_ok w \<and> tenant_view tn (db w) = v"

lemma apart_still: "(\<And>D u. preserves (still D u) f) \<Longrightarrow> preserves (apart tn v) f"
  by (fastforce simp: preserves_iff still_def apart_def store_ok_def)

lemma apart_iso: "preserves store_ok f \<Longrightarrow> (\<And>w. store_ok w \<Longrightarrow> tenant_view tn (db (snd (f w))) = tenant_view tn (db w)) \<Longrightarrow> preserves (apart tn v) f"
  by (simp add: preserves_iff apart_def)

lemmas apart_world [keeps] = still_basic [THEN apart_still] still_world [THEN apart_still] still_metrics [THEN apart_still]

lemmas apart_lookups [keeps] = still_reads [THEN apart_still] still_all [THEN apart_still] still_pages [THEN apart_still]

text \<open>The methods that write a row.\<close>

lemma apart_rows:
  shows "tkTenantID t \<noteq> tn \<Longrightarrow> tkCommentCount t = 0 \<Longrightarrow> preserves (apart tn v) (CreateTicket t)"
    "cmTenantID c \<noteq> tn \<Longrightarrow> preserves (apart tn v) (CreateComment c)"
    "atTenantID a \<noteq> tn \<Longrightarrow> preserves (apart tn v) (CreateAttachment a)"
    "tgTenantID g \<noteq> tn \<Longrightarrow> preserves (apart tn v) (CreateTag g)" "tgTenantID g \<noteq> tn \<Longrightarrow> preserves (apart tn v) (UpdateTag g)"
    "mbTenantID m \<noteq> tn \<Longrightarrow> preserves (apart tn v) (CreateMailbox m)" "mbTenantID m \<noteq> tn \<Longrightarrow> preserves (apart tn v) (UpdateMailbox m)"
    "ruTenantID r \<noteq> tn \<Longrightarrow> preserves (apart tn v) (CreateRule r)" "ruTenantID r \<noteq> tn \<Longrightarrow> preserves (apart tn v) (UpdateRule r)"
    "hiTenantID h \<noteq> tn \<Longrightarrow> preserves (apart tn v) (AppendHistory h)"
  by (auto intro!: apart_iso keeps CreateTicket_ok simp: isolation)

text \<open>The methods that name the tenant.\<close>

lemma apart_writes:
  assumes "tn' \<noteq> tn"
  shows "preserves (apart tn v) (UpdateTicket tn' i p at)" "preserves (apart tn v) (SetAssignee tn' i aid an at)"
    "preserves (apart tn v) (SetStatus tn' i st at)" "preserves (apart tn v) (SetCommentDelivery tn' i dl)"
    "preserves (apart tn v) (EnsureTagByName tn' k n)" "preserves (apart tn v) (AddTicketTags tn' i gs)"
    "preserves (apart tn v) (SetTicketTags tn' i gs)" "preserves (apart tn v) (DeleteTicket tn' i)" "preserves (apart tn v) (DeleteRule tn' i)"
    "preserves (apart tn v) (DeleteTag tn' i)" "preserves (apart tn v) (DeleteMailbox tn' i force)"
    "i \<noteq> [] \<Longrightarrow> preserves (apart tn v) (DeleteComment tn' i)"
    "preserves (apart tn v) (histAppend tn' i f ov nv ak ai)"
proof -
  show "preserves (apart tn v) (histAppend tn' i f ov nv ak ai)"
    unfolding histAppend_def by (intro keeps apart_rows) (simp add: assms)
qed (use assms in \<open>auto intro!: apart_iso keeps simp: isolation\<close>)

end
