(* ===== verification/ServiceKeep.thy ===== *)
theory ServiceKeep
  imports RuleProps MailboxSvc CommentProps Confine
begin

text \<open>
  The domain services stay in the caller's tenant: every operation of the ticket, comment, tag, mailbox and rule services keeps
  the integrity of the store and leaves the rows of every other tenant alone, on every path, errors included.
\<close>

section \<open>Effects outside the store\<close>

lemma still_engine [keeps]:
  "preserves (still D u) (Forget i)" "preserves (still D u) (cachePut j p)" "preserves (still D u) (modify (\<lambda>w. w\<lparr>enEvals := n\<rparr>))"
  by (simp_all add: preserves_iff still_def Forget_def cachePut_def modify_def)

lemma still_send [keeps]: "preserves (still D u) (FakeSend m)"
  by (auto simp: preserves_iff still_def FakeSend_def run split: sum.splits option.splits)

lemma still_audits [keeps]:
  "preserves (still D u) (auditTicket subj ev i oc ds)" "preserves (still D u) (auditComment subj ev i oc ds)"
  "preserves (still D u) (auditTag subj ev k i oc rs ds)" "preserves (still D u) (auditMailbox subj ev i oc ds)"
  "preserves (still D u) (auditRule subj ev i oc rs ro)" "preserves (still D u) (ruleError tn r)"
  unfolding auditTicket_def auditComment_def auditTag_def auditMailbox_def auditRule_def ruleError_def by (intro keeps)+

lemma still_services [keeps]:
  "preserves (still D u) (view_op t full)" "preserves (still D u) (MessageID i dom')" "preserves (still D u) (commented subj tn i)"
  "preserves (still D u) (sender t)" "preserves (still D u) (cmTicket tn i)" "preserves (still D u) (ruValidate ce cfg dir subj ev i inp)"
  "preserves (still D u) (engineEvaluate ce q m)"
  unfolding view_op_def MessageID_def commented_def sender_def cmTicket_def ruValidate_def engineEvaluate_def Let_def by (intro keeps)+

lemma still_objects [keeps]: "preserves (still D u) (deleteObjects ks)"
  by (induction ks) (auto intro!: keeps)

lemma still_queries [keeps]:
  "preserves (still D u) (tkGet subj i)" "preserves (still D u) (tkList St Wt subj f req)" "preserves (still D u) (tkHistory subj i)"
  "preserves (still D u) (OpenAttachment subj i j)" "preserves (still D u) (cmList subj i)" "preserves (still D u) (tgList Sg Wg subj k req)"
  "preserves (still D u) (mbList Sm Wm subj req)" "preserves (still D u) (mbGet subj i)" "preserves (still D u) (ruList Sr Wr subj req)"
  "preserves (still D u) (ruGet subj i)" "preserves (still D u) (ruTest ce cfg subj inp sm)"
  unfolding tkGet_def tkList_def tkHistory_def OpenAttachment_def cmList_def tgList_def mbList_def mbGet_def ruList_def ruGet_def
    ruTest_def histList_def Let_def by (intro keeps)+

lemmas apart_effects [keeps] = still_engine [THEN apart_still] still_send [THEN apart_still] still_audits [THEN apart_still]
  still_services [THEN apart_still] still_objects [THEN apart_still] still_queries [THEN apart_still]

section \<open>Writes\<close>

lemma tenantOf_Inr: "tenantOf subj = Inr x \<Longrightarrow> x = suTenantID subj"
  by (auto simp: tenantOf_def split: if_splits)

text \<open>A step whose value is known to satisfy something.\<close>

lemma preserves_bnd_val:
  assumes "preserves I f" "\<And>x w w'. f w = (Inr x, w') \<Longrightarrow> Q x" "\<And>x. Q x \<Longrightarrow> preserves I (g x)"
  shows "preserves I (bnd f g)"
proof (rule preservesI)
  fix w assume w: "I w"
  obtain r w' where r: "f w = (r, w')" by fastforce
  have "I w'" by (rule preservesE [OF assms(1) w r])
  then show "I (snd (bnd f g w))"
    using r assms(2) [of w _ w'] assms(3) [THEN preservesD, of _ w'] by (cases r) (auto simp: bnd_def)
qed

lemma preserves_tenant:
  "preserves I (g (suTenantID subj)) \<Longrightarrow> preserves I (bnd (of_res (tenantOf subj)) g)"
  by (rule preserves_bnd_of_res) (auto dest: tenantOf_Inr)

lemma got_tenant:
  "GetTicket tn i w = (Inr t, w') \<Longrightarrow> tkTenantID t = tn" "GetTag tn i w = (Inr g, w') \<Longrightarrow> tgTenantID g = tn"
  "GetMailbox tn i w = (Inr m, w') \<Longrightarrow> mbTenantID m = tn" "GetComment tn i w = (Inr c, w') \<Longrightarrow> cmTenantID c = tn"
  by (auto simp: GetTicket_def GetTag_def GetMailbox_def GetComment_def op_iffs fail_def look_def ticket_of_def tag_of_def mailbox_of_def
      comment_of_def scoped_iff split: if_splits dest!: HOL.sym [of "Inr _"])

lemma apart_tickets:
  assumes "suTenantID subj \<noteq> tn"
  shows "preserves (apart tn v) (AssignAs dir subj i aid ak)" "preserves (apart tn v) (SetStatusAs subj i st ak)"
    "preserves (apart tn v) (SetPriorityAs subj i pr ak)" "preserves (apart tn v) (tkUpdate subj i ui)" "preserves (apart tn v) (tkDelete subj i)"
  unfolding AssignAs_def SetStatusAs_def SetPriorityAs_def tkUpdate_def tkDelete_def Let_def
  by (intro preserves_tenant keeps apart_writes assms)+

lemma apart_tkCreate:
  assumes "suTenantID subj \<noteq> tn"
  shows "preserves (apart tn v) (tkCreate dir subj inp)"
proof -
  have w: "tkTenantID t' \<noteq> tn \<and> tkCommentCount t' = 0"
    if "withAssignee dir (suTenantID subj) aid (newTicket i (suTenantID subj) now sb ds pr em nm cb) = Inr t'" for aid i now sb ds pr em nm cb t'
    using that assms by (auto simp: withAssignee_def newTicket_def split: if_splits sum.splits)
  show ?thesis
    unfolding tkCreate_def Let_def
    by (rule preserves_tenant preserves_bnd_of_res keeps apart_rows | (drule w, simp))+
qed

lemma apart_reopen: "suTenantID subj \<noteq> tn \<Longrightarrow> preserves (apart tn v) (reopen subj t)"
  unfolding reopen_def by (intro keeps apart_tickets)

lemma author_tenant [simp]: "cmTenantID (author dir subj c) = cmTenantID c"
  by (simp add: author_def Let_def)

lemma apart_replies:
  assumes "suTenantID subj \<noteq> tn"
  shows "preserves (apart tn v) (AddNote dir subj i b)" "preserves (apart tn v) (Reply dir md subj i b)"
proof -
  note w = apart_rows(2) apart_writes [OF assms] apart_reopen [OF assms]
  have d: "preserves (apart tn v) (deliver subj (suTenantID subj) t mb out c)" for t mb out c
    unfolding deliver_def Let_def by (intro keeps w)
  have s: "preserves (apart tn v) (sendReply dir subj (suTenantID subj) t mb b out)" for t mb b out
    unfolding sendReply_def Let_def by (intro keeps w d) (simp add: newComment_def assms)
  show "preserves (apart tn v) (AddNote dir subj i b)"
    unfolding AddNote_def Let_def by (intro preserves_tenant keeps w) (simp add: newComment_def assms)
  show "preserves (apart tn v) (Reply dir md subj i b)"
    unfolding Reply_def Let_def by (intro preserves_tenant keeps s)
qed

lemma apart_cmAdd: "suTenantID subj \<noteq> tn \<Longrightarrow> preserves (apart tn v) (cmAdd dir md subj i b internal)"
  unfolding cmAdd_def by (intro keeps apart_replies)

lemma apart_cmDelete: "suTenantID subj \<noteq> tn \<Longrightarrow> i \<noteq> [] \<Longrightarrow> preserves (apart tn v) (cmDelete subj i)"
  unfolding cmDelete_def Let_def by (intro preserves_tenant keeps apart_writes)

lemma applyTag_tenant: "applyTag inp t = Inr t' \<Longrightarrow> tgTenantID t' = tgTenantID t"
  by (auto simp: applyTag_def applyTagName_def applyTagColor_def applyTagDescription_def Let_def split: sum.splits option.splits if_splits)

lemma apart_tgWrite: "preserves (apart tn v) f \<Longrightarrow> preserves (apart tn v) (tgWrite subj ev i f)"
  unfolding tgWrite_def by (intro keeps)

lemma apart_mbWrite: "preserves (apart tn v) f \<Longrightarrow> preserves (apart tn v) (mbWrite subj ev i rf rs f)"
  unfolding mbWrite_def by (intro keeps)

lemma apart_tag_service:
  assumes "suTenantID subj \<noteq> tn"
  shows "preserves (apart tn v) (tgCreate subj gi)" "preserves (apart tn v) (tgUpdate subj i gi)" "preserves (apart tn v) (tgDelete subj i)"
    "preserves (apart tn v) (tgSetTicketTags subj i is)"
proof -
  show "preserves (apart tn v) (tgCreate subj gi)"
    unfolding tgCreate_def Let_def
    by (rule preserves_tenant preserves_bnd_of_res keeps apart_tgWrite apart_rows | (drule applyTag_tenant, simp add: assms))+
  show "preserves (apart tn v) (tgUpdate subj i gi)"
    unfolding tgUpdate_def Let_def
    by (rule preserves_tenant, rule preserves_bnd_val [where Q = "\<lambda>g. tgTenantID g = suTenantID subj"])
      (rule preserves_bnd_of_res keeps apart_tgWrite apart_rows | (drule applyTag_tenant, simp add: assms) |
        (simp add: op_iffs, erule got_tenant))+
  show "preserves (apart tn v) (tgDelete subj i)" "preserves (apart tn v) (tgSetTicketTags subj i is)"
    unfolding tgDelete_def tgSetTicketTags_def Let_def by (intro preserves_tenant keeps apart_writes assms)+
qed

lemma apart_mailbox_service:
  assumes "suTenantID subj \<noteq> tn"
  shows "preserves (apart tn v) (mbCreate subj mi)" "preserves (apart tn v) (mbUpdate subj i mi)" "preserves (apart tn v) (mbDelete subj i force)"
proof -
  have a: "applyMailbox u mi m = Inr m' \<Longrightarrow> mbTenantID m = suTenantID subj \<Longrightarrow> mbTenantID m' \<noteq> tn" for u m m'
    using applyMailbox_keeps(2) [of u mi m m'] assms by simp
  show "preserves (apart tn v) (mbCreate subj mi)"
    unfolding mbCreate_def Let_def
    by (rule preserves_tenant preserves_bnd_of_res keeps apart_mbWrite apart_rows | (drule a, simp_all add: newMailbox_def))+
  show "preserves (apart tn v) (mbUpdate subj i mi)"
    unfolding mbUpdate_def Let_def
    by (rule preserves_tenant, rule preserves_bnd_val [where Q = "\<lambda>m. mbTenantID m = suTenantID subj"])
      (rule preserves_bnd_of_res keeps apart_mbWrite apart_rows | (drule a, assumption, assumption) |
        (simp add: op_iffs, erule got_tenant))+
  show "preserves (apart tn v) (mbDelete subj i force)"
    unfolding mbDelete_def by (intro preserves_tenant keeps apart_mbWrite apart_writes assms)
qed

lemma apart_rule_service:
  assumes "suTenantID subj \<noteq> tn"
  shows "preserves (apart tn v) (ruCreate ce cfg dir mx subj inp)" "preserves (apart tn v) (ruUpdate ce cfg dir subj i inp)"
    "preserves (apart tn v) (ruDelete subj i)"
  unfolding ruCreate_def ruUpdate_def ruDelete_def Let_def
  by (intro preserves_tenant keeps apart_rows apart_writes assms | simp add: assms)+

end
