(* ===== verification/InboundKeep.thy ===== *)
theory InboundKeep
  imports Inbound ServiceKeep
begin

text \<open>
  What the inbound pipeline leaves alone: its reads and side effects do not touch the store, the
  triage hook is one of them, and everything it writes belongs to the tenant the message was routed to.
\<close>

section \<open>Reads\<close>

lemma still_ops [keeps]:
  "preserves (still D u) (auditInbound subj ev k i ds)" "preserves (still D u) (ackSkipped subj i rs)"
  "preserves (still D u) (refuse code rs)" "preserves (still D u) (inFail tn)"
  unfolding auditInbound_def ackSkipped_def refuse_def inFail_def Let_def by (intro keeps)+

lemma still_firstFound [keeps]: "(\<And>x. preserves (still D u) (f x)) \<Longrightarrow> preserves (still D u) (firstFound f xs)"
  by (induction xs) (auto intro!: keeps)

lemma still_resolve [keeps]: "preserves (still D u) (resolveIn tn inp)"
  unfolding resolveIn_def Resolve_def byToken_def unlessMissing_def Let_def by (intro keeps)

lemma still_evaluate [keeps]: "preserves (still D u) (runRule ce cfg m r)"
  unfolding runRule_def Program_def compileCached_def engineEvaluate_def by (intro keeps)

lemma still_decideRules [keeps]: "preserves (still D u) (decideRules ce cfg u' tn m rs s)"
  by (induction rs arbitrary: s) (simp_all, (intro keeps | simp)+)

lemma still_tryRoutes [keeps]: "preserves (still D u) (tryRoutes cs)"
  by (induction cs) (simp_all add: Let_def, (intro keeps | simp)+)

lemma still_discard [keeps]: "preserves (still D u) (discard st)"
  unfolding discard_def by (intro keeps)

lemma still_upload [keeps]: "preserves (still D u) (upload tn i msg)"
proof -
  have "preserves (still D u) (uploadFrom tn i as out)" for as out
    by (induction as arbitrary: out) (simp_all, (intro keeps | simp)+)
  then show ?thesis unfolding upload_def by blast
qed

lemma still_inbound [keeps]:
  "preserves (still D u) (duplicate tn i)" "preserves (still D u) (route r msg)" "preserves (still D u) (ackSuppressed rt rec msg t)"
  unfolding duplicate_def route_def ackSuppressed_def Let_def by (intro keeps)+

section \<open>The triage hook\<close>

text \<open>
  What the handler relies on (\<open>inbound.Triage\<close>): deciding on a message leaves the store alone,
  so that a message that is dropped, or whose decision fails, has no trace in it.
\<close>

locale triage_hook =
  fixes evaluate :: "subjects \<Rightarrow> message option \<Rightarrow> string \<Rightarrow> ('z mem_scheme, plan) op"
  assumes quiet: "preserves (still D u) (evaluate subj msg rec)"
begin

lemma hook_quiet: "preserves (still D u) (bnd (attempt (evaluate subj msg rec)) (\<lambda>r. ret (f r)))"
  by (intro keeps quiet)

end

interpretation rules_hook: triage_hook "Evaluate ce cfg mx" for ce cfg mx
proof unfold_locales
  fix D u subj msg rec
  show "preserves (still D u) (Evaluate ce cfg mx subj msg rec)"
    unfolding Evaluate_def Decide_def Let_def by (intro keeps)
qed

lemma triageFor_quiet [keeps]: "preserves (still D u) (triageFor d subj rec msg)"
  unfolding triageFor_def by (intro keeps rules_hook.hook_quiet)

section \<open>One tenant\<close>

lemma apart_reads [keeps]:
  "preserves (apart tn v) (auditInbound subj ev k i ds)"
  "preserves (apart tn v) (ackSkipped subj i rs)" "preserves (apart tn v) (refuse code rs)" "preserves (apart tn v) (inFail tn')"
  "preserves (apart tn v) (resolveIn tn' inp)" "preserves (apart tn v) (discard st)"
  "preserves (apart tn v) (duplicate tn' i)" "preserves (apart tn v) (route r msg)" "preserves (apart tn v) (ackSuppressed rt rec msg t)"
  "preserves (apart tn v) (triageFor d subj rec msg)"
  by (rule apart_still, rule keeps)+

lemma apart_uploads [keeps]: "preserves (apart tn v) (upload tn' i msg)"
  by (rule apart_still, rule keeps)

lemma apart_tags [keeps]:
  assumes "tn' \<noteq> tn"
  shows "preserves (apart tn v) (applyTags tn' i d)"
proof -
  have "preserves (apart tn v) (ensureTags tn' refs)" for refs
    by (induction refs) (simp_all, (intro keeps apart_writes assms | simp)+)
  then show ?thesis unfolding applyTags_def by (intro keeps apart_writes assms)
qed

lemma apart_apply:
  assumes "suTenantID subj \<noteq> tn"
  shows "preserves (apart tn v) (triageApply dir subj i d)"
  unfolding triageApply_def collecting_def by (intro keeps apart_tickets assms)

lemma apart_record:
  assumes "\<forall>a \<in> set st. atTenantID a \<noteq> tn"
  shows "preserves (apart tn v) (recordAttachments cid st)"
  using assms by (induction st) (simp_all, (intro keeps apart_rows | simp)+)

lemma apart_note: "tn' \<noteq> tn \<Longrightarrow> preserves (apart tn v) (inNote tn' i msg)"
  unfolding inNote_def by (intro keeps apart_rows) (simp add: newComment_def)

lemma apart_ack:
  assumes "suTenantID subj \<noteq> tn" "tkTenantID t \<noteq> tn"
  shows "preserves (apart tn v) (acknowledge md subj rt rec msg t)"
  unfolding acknowledge_def sendAck_def Let_def
  by (intro keeps apart_rows apart_writes assms) (simp add: newComment_def assms)

text \<open>What an upload stages belongs to the tenant of the ticket.\<close>

lemma uploadFrom_tenant:
  "\<forall>a \<in> set out. atTenantID a = tn \<Longrightarrow> uploadFrom tn i as out w = (Inr st, w') \<Longrightarrow> \<forall>a \<in> set st. atTenantID a = tn"
proof (induction as arbitrary: out w)
  case (Cons a as)
  have s: "atTenantID (stagedOf tn i j x c) = tn" for j x c by (simp add: stagedOf_def)
  obtain j w1 where j: "NewID w = (Inr j, w1)" by (simp add: NewID_eq)
  obtain r w2 where b: "blobPut (AttachmentKey tn i j) (maData a) w1 = (r, w2)" by fastforce
  show ?case
  proof (cases r)
    case (Inl e)
    with Cons(3) j b show ?thesis by (simp add: op_iffs attempt_def bnd_def [of NewID] bnd_def [of "attempt _"])
  next
    case (Inr c)
    with Cons(3) j b have "uploadFrom tn i as (out @ [stagedOf tn i j a c]) w2 = (Inr st, w')"
      by (simp add: bnd_def attempt_def)
    then show ?thesis using Cons(1) [of "out @ [stagedOf tn i j a c]" w2] Cons(2) s by auto
  qed
qed (simp add: op_iffs)

lemma apart_upload:
  fixes g :: "attachment list \<Rightarrow> ('z world_scheme, 'b) op"
  assumes "\<And>st. \<forall>a \<in> set st. atTenantID a = tn' \<Longrightarrow> preserves (apart tn v) (g st)"
  shows "preserves (apart tn v) (bnd (upload tn' i msg) g)"
proof (rule preservesI)
  fix w :: "'z world_scheme" assume w: "apart tn v w"
  then have w': "apart tn v (snd (upload tn' i msg w))" by (rule preservesD [OF apart_uploads])
  show "apart tn v (snd (bnd (upload tn' i msg) g w))"
  proof (cases "upload tn' i msg w")
    case (Pair r w1)
    then show ?thesis
      using w' uploadFrom_tenant [of "[]" tn' i "msAttachments msg" w] assms [THEN preservesD, of _ w1]
      by (cases r) (auto simp: bnd_def upload_def)
  qed
qed

lemma apart_reply:
  assumes "suTenantID subj \<noteq> tn"
  shows "preserves (apart tn v) (inReply subj m msg)"
  unfolding inReply_def replied_def reopenReplied_def Let_def
  by (rule apart_upload keeps apart_rows apart_record apart_note apart_tickets | simp add: newComment_def assms)+

end
