(* ===== verification/InboundProps.thy ===== *)
theory InboundProps
  imports InboundKeep
begin

text \<open>
  The promises of the inbound edge: a refusal says nothing and leaves nothing behind, a message touches the
  tenant of its mailbox only, acknowledgements cannot loop, a message is taken once, and a message
  that can be taken is.
\<close>

section \<open>Operations that cannot fail\<close>

definition succeeds :: "('w, 'a) op \<Rightarrow> bool" where
  "succeeds f \<longleftrightarrow> (\<forall>w. \<exists>x w'. f w = (Inr x, w'))"

named_theorems sure \<open>operations that always return a value\<close>

lemma sure_basic [sure]:
  "succeeds (ret x)" "succeeds (fetch f)" "succeeds (modify g)" "succeeds (attempt h)" "succeeds Now" "succeeds NewID"
  by (simp_all add: succeeds_def op_defs Now_def NewID_eq)

lemma sure_bnd [sure]: "succeeds f \<Longrightarrow> (\<And>x. succeeds (g x)) \<Longrightarrow> succeeds (bnd f g)"
  unfolding succeeds_def bnd_def by (metis (no_types, lifting) old.prod.case old.sum.simps(6))

lemma sure_cases [sure]:
  "(b \<Longrightarrow> succeeds f) \<Longrightarrow> (\<not> b \<Longrightarrow> succeeds g) \<Longrightarrow> succeeds (if b then f else g)"
  "succeeds f1 \<Longrightarrow> (\<And>y. succeeds (g1 y)) \<Longrightarrow> succeeds (case x1 of None \<Rightarrow> f1 | Some y \<Rightarrow> g1 y)"
  "(\<And>e. succeeds (f2 e)) \<Longrightarrow> (\<And>y. succeeds (g2 y)) \<Longrightarrow> succeeds (case x2 of Inl e \<Rightarrow> f2 e | Inr y \<Rightarrow> g2 y)"
  "(\<And>a b. succeeds (f3 a b)) \<Longrightarrow> succeeds (case x3 of (a, b) \<Rightarrow> f3 a b)"
  by (auto split: option.splits sum.splits prod.splits)

lemma sure_world [sure]: "succeeds (Emit e)" "succeeds (EmitEvent tn ev t ak)" "succeeds (count n as)"
  by (simp_all add: succeeds_def Emit_eq) (auto simp: EmitEvent_def Publish_def count_def op_defs)

lemma sure_ops [sure]:
  "succeeds (MetricInbound o')" "succeeds (MetricAck r)" "succeeds (auditInbound subj ev k i ds)" "succeeds (ackSkipped subj i rs)"
  "succeeds (refuse code rs)" "succeeds (inFail tn)" "succeeds (inNote tn i msg)" "succeeds (MessageID i dm)"
  "succeeds (ackSuppressed rt rec msg t)" "succeeds (sendAck subj rt t out c)"
  unfolding MetricInbound_def MetricAck_def auditInbound_def ackSkipped_def refuse_def inFail_def inNote_def MessageID_def
    ackSuppressed_def sendAck_def Let_def
  by (intro sure)+

lemma sure_each [sure]: "(\<And>x. succeeds (f x)) \<Longrightarrow> succeeds (each f xs)"
  by (induction xs) (auto intro!: sure)

lemma sure_discard [sure]: "succeeds (discard st)"
  unfolding discard_def by (intro sure)

lemma sure_record [sure]: "succeeds (recordAttachments cid st)"
  by (induction st) (simp_all, (intro sure | simp)+)

lemma sure_rest [sure]:
  "succeeds (acknowledge md subj rt rec msg t)" "succeeds (reopenReplied subj t)" "succeeds (triageFor d subj rec msg)"
  unfolding acknowledge_def reopenReplied_def triageFor_def Let_def by (intro sure)+

lemma sure_written [sure]: "succeeds (replied subj m msg cid st)" "succeeds (opened d subj rt rec msg p t st)"
  unfolding replied_def opened_def Let_def by (intro sure)+

section \<open>A failed delivery leaves the store alone\<close>

text \<open>\<open>unless_ok D u f\<close>: when the operation fails, the store is as it was.\<close>

definition unless_ok :: "tables \<Rightarrow> unicode \<Rightarrow> ('a mem_scheme, 'b) op \<Rightarrow> bool" where
  "unless_ok D u f \<longleftrightarrow> triple (still D u) f (\<lambda>_ _. True) (\<lambda>_. still D u)"

named_theorems clears \<open>operations whose failure leaves the store alone\<close>

lemma clears_still [clears]: "preserves (still D u) f \<Longrightarrow> unless_ok D u f"
  unfolding unless_ok_def preserves_def by (erule triple_conseq) auto

lemma clears_sure [clears]: "succeeds f \<Longrightarrow> unless_ok D u f"
  unfolding unless_ok_def succeeds_def triple_def by (metis (mono_tags, lifting) case_prod_conv old.sum.simps(6))

lemma clears_bnd: "preserves (still D u) f \<Longrightarrow> (\<And>x. unless_ok D u (g x)) \<Longrightarrow> unless_ok D u (bnd f g)"
  unfolding unless_ok_def by (rule triple_keep_bnd [THEN triple_conseq]) auto

lemma clears_cases:
  "(b \<Longrightarrow> unless_ok D u f) \<Longrightarrow> (\<not> b \<Longrightarrow> unless_ok D u g) \<Longrightarrow> unless_ok D u (if b then f else g)"
  "(x1 = None \<Longrightarrow> unless_ok D u f1) \<Longrightarrow> (\<And>y. x1 = Some y \<Longrightarrow> unless_ok D u (g1 y)) \<Longrightarrow> unless_ok D u (case x1 of None \<Rightarrow> f1 | Some y \<Rightarrow> g1 y)"
  by (auto split: option.splits)

text \<open>A write that fails has written nothing; what follows it depends on which happened.\<close>

lemma clears_attempt:
  assumes f: "unless_ok D u f" and "\<And>e. unless_ok D u (g (Inl e))" "\<And>x. succeeds (g (Inr x))"
  shows "unless_ok D u (bnd (attempt f) g)"
proof -
  have "case bnd (attempt f) g w of (Inr x, w') \<Rightarrow> True | (Inl e, w') \<Rightarrow> still D u w'" if "still D u w" for w
  proof (cases "f w")
    case (Pair r w1)
    show ?thesis
    proof (cases r)
      case (Inl e)
      then have "still D u w1" using f Pair that by (auto simp: unless_ok_def triple_def)
      with assms(2) [of e] Pair Inl show ?thesis by (auto simp: unless_ok_def triple_def bnd_def attempt_def)
    next
      case (Inr x)
      obtain y w2 where "g (Inr x) w1 = (Inr y, w2)" using assms(3) [of x] unfolding succeeds_def by blast
      with Pair Inr show ?thesis by (simp add: bnd_def attempt_def)
    qed
  qed
  then show ?thesis by (simp add: unless_ok_def triple_def)
qed

lemma clears_creates: "unless_ok D u (CreateTicket t)" "unless_ok D u (CreateComment c)"
  by (auto simp: unless_ok_def triple_def still_def CreateTicket_def CreateComment_def run Let_def split: if_splits option.splits sum.splits)

lemma clears_reply: "unless_ok D u (inReply subj m msg)"
  unfolding inReply_def Let_def
  by (rule clears_bnd keeps clears_attempt clears_creates | simp only: sum.case | rule clears_sure sure clears_still)+

lemma clears_create: "unless_ok D u (inCreate d subj rt rec msg p)"
  unfolding inCreate_def Let_def
  by (rule clears_bnd keeps clears_attempt clears_creates | simp only: sum.case | rule clears_sure sure clears_still)+

lemma clears_ingest: "unless_ok D u (ingest d subj rt rec msg)"
proof -
  have o: "unless_ok D u (openTicket d subj rt rec msg)"
    unfolding openTicket_def
    by (rule clears_bnd keeps clears_cases clears_create | rule clears_still keeps)+
  show ?thesis
    unfolding ingest_def
    by (rule clears_bnd keeps clears_cases clears_attempt clears_reply o | simp only: sum.case | rule clears_sure sure clears_still keeps)+
qed

section \<open>Refusals\<close>

definition refused :: "tables \<Rightarrow> response \<Rightarrow> 'a mem_scheme \<Rightarrow> bool" where
  "refused D resp w \<longleftrightarrow> resp = Refusal (rsStatus resp) \<and> rsStatus resp \<in> {400, 401, 404, 413, 503} \<and> db w = D"

lemma refuse_refuses:
  "c \<in> {400, 401, 404, 413, 503} \<Longrightarrow> \<exists>resp w'. refuse c rs w = (Inr resp, w') \<and> refused (db w) resp w'"
  "\<exists>resp w'. inFail tn w = (Inr resp, w') \<and> refused (db w) resp w'"
proof -
  have d: "db (snd (refuse c rs w)) = db w" "db (snd (inFail tn w)) = db w"
    using preservesD [OF still_ops(3)] preservesD [OF still_ops(4)] by (metis still_def)+
  have "\<exists>w'. refuse c rs w = (Inr (Refusal c), w')" "\<exists>w'. inFail tn w = (Inr (Refusal 503), w')"
    using sure_ops(3) [unfolded succeeds_def]
    by (auto simp: refuse_def inFail_def MetricInbound_def count_def op_defs Emit_eq)
  with d show "c \<in> {400, 401, 404, 413, 503} \<Longrightarrow> \<exists>resp w'. refuse c rs w = (Inr resp, w') \<and> refused (db w) resp w'"
    "\<exists>resp w'. inFail tn w = (Inr resp, w') \<and> refused (db w) resp w'"
    by (auto simp: refused_def Refusal_def)
qed

text \<open>The message identifier the relay announces replaces the one of the message.\<close>

definition announced :: "request \<Rightarrow> message \<Rightarrow> message" where
  "announced r msg = (case ParseMessageIDs (rqHeader r HeaderIrisMessageID) of [] \<Rightarrow> msg | i # _ \<Rightarrow> msg\<lparr>msMessageID := i\<rparr>)"

definition taken ::
  "('ast, 'p) inbound_deps \<Rightarrow> request \<Rightarrow> message \<Rightarrow> response \<Rightarrow> ('p, 'a) ruled_scheme \<Rightarrow> ('p, 'a) ruled_scheme \<Rightarrow> bool" where
  "taken d r msg resp w w' \<longleftrightarrow>
     (\<exists>rt rec w1 oc i w2. route r msg w = (Inr (rt, rec), w1) \<and>
        ingest d (SystemFor (rtTenantID rt)) rt rec (announced r msg) w1 = (Inr (oc, i), w2) \<and>
        resp = accepted_response oc i \<and> db w' = db w2)"

lemma deliverMail_answers:
  fixes w :: "('p, 'a) ruled_scheme"
  shows "\<exists>resp w'. deliverMail d r msg w = (Inr resp, w') \<and> (refused (db w) resp w' \<or> taken d r msg resp w w')"
proof -
  obtain res w1 where r: "route r msg w = (res, w1)" by fastforce
  have w1: "db w1 = db w" using preservesE [OF still_inbound(2) _ r, of "db w" "ucd w"] by (simp add: still_def)
  show ?thesis
  proof (cases res)
    case (Inl e)
    then show ?thesis
      using r w1 refuse_refuses(1) [of 404 "''mailbox''" w1] refuse_refuses(2) [of "[]" w1]
      by (auto simp: deliverMail_def bnd_def [of "attempt _"] attempt_def)
  next
    case (Inr x)
    obtain rt rec where x: "x = (rt, rec)" by fastforce
    obtain out w2 where i: "ingest d (SystemFor (rtTenantID rt)) rt rec (announced r msg) w1 = (out, w2)" by fastforce
    have run: "deliverMail d r msg w = (case out of Inl _ \<Rightarrow> inFail (rtTenantID rt) w2
        | Inr (oc, ident) \<Rightarrow> bnd (MetricInbound oc) (\<lambda>_. ret (accepted_response oc ident)) w2)"
      using r i Inr x by (auto simp: deliverMail_def announced_def bnd_def [of "attempt _"] attempt_def Let_def split: sum.splits)
    show ?thesis
    proof (cases out)
      case (Inl e)
      then have "db w2 = db w1"
        using clears_ingest [of "db w1" "ucd w1" d _ rt rec "announced r msg", unfolded unless_ok_def, THEN tripleD(2), of w1] i
        by (auto simp: still_def)
      with Inl run w1 refuse_refuses(2) [of "rtTenantID rt" w2] show ?thesis by auto
    next
      case (Inr y)
      obtain oc ident where y: "y = (oc, ident)" by fastforce
      obtain w3 where "bnd (MetricInbound oc) (\<lambda>_. ret (accepted_response oc ident)) w2 = (Inr (accepted_response oc ident), w3)" "db w3 = db w2"
        by (cases "meOn w2") (simp_all add: MetricInbound_def count_def op_defs)
      with Inr y run r i \<open>res = Inr x\<close> x show ?thesis unfolding taken_def by auto
    qed
  qed
qed

definition granted :: "('ast, 'p) inbound_deps \<Rightarrow> ('a world_scheme) \<Rightarrow> request \<Rightarrow> bool" where
  "granted d w r \<longleftrightarrow>
     (\<exists>want got. idSecrets d = Some (Inr want) \<and> want \<noteq> [] \<and> got \<noteq> [] \<and> sha256 w got = sha256 w want \<and>
        got \<in> {rqHeader r HeaderToken, bearer (ucd w) (rqHeader r ''Authorization'')})"

lemma authenticate_cases:
  "fst (authenticate d (ucd w) (sha256 w) r) \<in> {401, 503} \<or> (fst (authenticate d (ucd w) (sha256 w) r) = 0 \<and> granted d w r)"
  by (auto simp: authenticate_def granted_def Let_def split: option.splits sum.splits)

lemma ServeHTTP_answers:
  fixes w :: "('p, 'a) ruled_scheme"
  shows "\<exists>resp w'. ServeHTTP d r w = (Inr resp, w') \<and>
    (refused (db w) resp w' \<or>
     (granted d w r \<and> (\<exists>msg. Parse ((idLib d)\<lparr>mlTables := ucd w\<rparr>) (fst (readBody (bodyLimit d) r)) (idLimits d) = Inr msg \<and> taken d r msg resp w w')))"
proof (cases "fst (authenticate d (ucd w) (sha256 w) r) = 0")
  case False
  then show ?thesis
    using authenticate_cases [of d w r] refuse_refuses(1) [of "fst (authenticate d (ucd w) (sha256 w) r)" "snd (authenticate d (ucd w) (sha256 w) r)" w]
    by (auto simp: ServeHTTP_def run Let_def split_beta)
next
  case True
  let ?b = "readBody (bodyLimit d) r"
  have g: "granted d w r" using True authenticate_cases [of d w r] by auto
  have run: "ServeHTTP d r w =
     (if rqContentLength r > bodyLimit d then refuse 413 ''size'' w
      else if snd ?b \<noteq> None \<or> int (length (fst ?b)) > bodyLimit d then
        (if snd ?b = None \<or> snd ?b = Some MaxBytes then refuse 413 ''size'' w else refuse 400 ''read'' w)
      else case Parse ((idLib d)\<lparr>mlTables := ucd w\<rparr>) (fst ?b) (idLimits d) of
        Inl _ \<Rightarrow> refuse 413 ''size'' w | Inr msg \<Rightarrow> deliverMail d r msg w)"
    using True by (auto simp: ServeHTTP_def run Let_def split_beta split: sum.splits)
  show ?thesis
  proof (cases "rqContentLength r > bodyLimit d \<or> snd ?b \<noteq> None \<or> int (length (fst ?b)) > bodyLimit d")
    case True
    then show ?thesis
      using refuse_refuses(1) [of 413 "''size''" w] refuse_refuses(1) [of 400 "''read''" w] unfolding run by auto
  next
    case False
    then show ?thesis
      using refuse_refuses(1) [of 413 "''size''" w] deliverMail_answers [of d r _ w] g unfolding run
      by (cases "Parse ((idLib d)\<lparr>mlTables := ucd w\<rparr>) (fst ?b) (idLimits d)") auto
  qed
qed

lemma maxBytesReader_header [simp]: "rqHeader (maxBytesReader n r) = rqHeader r"
  by (simp add: maxBytesReader_def)


section \<open>A message stays in its tenant\<close>

lemma apart_get:
  fixes g :: "ticket res \<Rightarrow> ('z mem_scheme, 'b) op"
  assumes "\<And>r. (\<And>x. r = Inr x \<Longrightarrow> tkTenantID x = tn') \<Longrightarrow> preserves (apart tn v) (g r)"
  shows "preserves (apart tn v) (bnd (attempt (GetTicket tn' i)) g)"
proof (rule preservesI)
  fix w :: "'z mem_scheme" assume w: "apart tn v w"
  obtain r w1 where r: "GetTicket tn' i w = (r, w1)" by fastforce
  have "apart tn v w1" using preservesE [OF apart_lookups(1) w r] .
  moreover have "tkTenantID x = tn'" if "r = Inr x" for x
    using r that by (auto simp: GetTicket_def ticket_of_def scoped_iff store_run run split: sum.splits if_splits)
  ultimately show "apart tn v (snd (bnd (attempt (GetTicket tn' i)) g w))"
    using r assms [THEN preservesD, of r w1] by (simp add: bnd_def attempt_def)
qed

lemma apart_opened:
  assumes "suTenantID subj \<noteq> tn" "tkTenantID t \<noteq> tn" "\<forall>a \<in> set st. atTenantID a \<noteq> tn"
  shows "preserves (apart tn v) (opened d subj rt rec msg p t st)"
  unfolding opened_def Let_def
  by (rule apart_get keeps apart_record apart_note apart_apply apart_ack | simp add: assms split: sum.splits)+

lemma apart_ingest:
  assumes "suTenantID subj \<noteq> tn"
  shows "preserves (apart tn v) (ingest d subj rt rec msg)"
proof -
  have t: "tkTenantID (emailTicket i subj rt rec msg) \<noteq> tn" "tkCommentCount (emailTicket i subj rt rec msg) = 0" for i
    using assms by (simp_all add: emailTicket_def)
  have c: "preserves (apart tn v) (inCreate d subj rt rec msg p)" for p
    unfolding inCreate_def Let_def
    by (rule apart_upload keeps apart_rows apart_opened assms t | simp add: assms)+
  show ?thesis
    unfolding ingest_def openTicket_def by (intro keeps apart_reply c assms)
qed

text \<open>What routing finds is an active mailbox, at the address of one of the candidates.\<close>

definition routes_to :: "unicode \<Rightarrow> tables \<Rightarrow> string list \<Rightarrow> mailbox_route \<Rightarrow> bool" where
  "routes_to u D cs rt \<longleftrightarrow>
     (\<exists>mb \<in> set (rows (mailboxes D)). mbActive mb \<and> mbTenantID mb = rtTenantID rt \<and> mbID mb = rtMailboxID rt \<and>
        (\<exists>c \<in> set cs. mbAddress mb = normAddr u (NormalizeRecipient u c)))"

lemma RouteMailbox_Inr:
  assumes "RouteMailbox a w = (Inr rt, w')"
  shows "\<exists>mb \<in> set (rows (mailboxes (db w))). mbAddress mb = normAddr (ucd w) a \<and> mbTenantID mb = rtTenantID rt \<and>
    mbID mb = rtMailboxID rt \<and> mbActive mb = rtActive rt"
  using assms
  by (auto simp: RouteMailbox_def run look_def fail_def op_iffs Let_def find_Some_iff split: option.splits if_splits)

lemma tryRoutes_routes:
  "tryRoutes cs w = (Inr (rt, rec), w') \<Longrightarrow> routes_to (ucd w) (db w) cs rt"
proof (induction cs arbitrary: w)
  case (Cons c cs)
  let ?a = "NormalizeRecipient (ucd w) c"
  have more': "routes_to (ucd w) (db w) cs rt \<Longrightarrow> routes_to (ucd w) (db w) (c # cs) rt" by (auto simp: routes_to_def)
  show ?case
  proof (cases "?a = []")
    case True
    with Cons show ?thesis by (simp add: run Let_def more')
  next
    case False
    obtain res w1 where r: "RouteMailbox ?a w = (res, w1)" by fastforce
    have w1: "db w1 = db w" "ucd w1 = ucd w"
      using preservesE [OF still_reads(4) _ r, of "db w" "ucd w"] by (simp_all add: still_def)
    have run: "tryRoutes (c # cs) w = (case res of
        Inl e \<Rightarrow> if err_is e RepoNotFound then tryRoutes cs w1 else throw (Retry e) w1
      | Inr rt' \<Rightarrow> if rtActive rt' then ret (rt', ?a) w1 else tryRoutes cs w1)"
      using False r by (auto simp: fetch_def bnd_def attempt_def Let_def split: sum.splits)
    show ?thesis
    proof (cases "tryRoutes cs w1 = (Inr (rt, rec), w')")
      case True
      with Cons.IH [of w1] w1 more' show ?thesis by simp
    next
      case False
      then have "res = Inr rt \<and> rtActive rt"
        using Cons.prems unfolding run by (auto simp: op_defs split: sum.splits if_splits)
      with r RouteMailbox_Inr [of ?a w rt w1] show ?thesis by (auto simp: routes_to_def)
    qed
  qed
qed (simp add: op_iffs)

lemma ServeHTTP_one_tenant:
  fixes w :: "('p, 'a) ruled_scheme"
  assumes "store_ok w"
  shows "db (snd (ServeHTTP d r w)) = db w \<or>
    (\<exists>msg rt. routes_to (ucd w) (db w) (candidates r msg) rt \<and>
       (\<forall>tn. tn \<noteq> rtTenantID rt \<longrightarrow> tenant_view tn (db (snd (ServeHTTP d r w))) = tenant_view tn (db w)))"
proof -
  obtain resp w' where s: "ServeHTTP d r w = (Inr resp, w')" and
    alt: "refused (db w) resp w' \<or> (\<exists>msg. taken d r msg resp w w')"
    using ServeHTTP_answers [of d r w] by blast
  from alt show ?thesis
  proof
    assume "refused (db w) resp w'"
    with s show ?thesis by (simp add: refused_def)
  next
    assume "\<exists>msg. taken d r msg resp w w'"
    then obtain msg rt rec w1 oc i w2 where r: "route r msg w = (Inr (rt, rec), w1)"
      and i: "ingest d (SystemFor (rtTenantID rt)) rt rec (announced r msg) w1 = (Inr (oc, i), w2)" and w': "db w' = db w2"
      unfolding taken_def by blast
    have w1: "db w1 = db w" "ucd w1 = ucd w"
      using preservesE [OF still_inbound(2) _ r, of "db w" "ucd w"] by (simp_all add: still_def)
    have "routes_to (ucd w) (db w) (take maxRecipientLookups (candidates r msg)) rt"
      using r tryRoutes_routes unfolding route_def by blast
    then have "routes_to (ucd w) (db w) (candidates r msg) rt"
      unfolding routes_to_def by (meson in_set_takeD)
    moreover have "tenant_view tn (db w') = tenant_view tn (db w)" if tn: "tn \<noteq> rtTenantID rt" for tn
    proof -
      have "apart tn (tenant_view tn (db w)) w1" using assms w1 by (simp add: apart_def store_ok_def)
      then have "apart tn (tenant_view tn (db w)) w2"
        by (rule preservesE [OF apart_ingest _ i, rotated]) (use tn in \<open>simp add: SystemFor_def\<close>)
      with w' show ?thesis by (simp add: apart_def)
    qed
    ultimately show ?thesis using s by auto
  qed
qed

text \<open>
  C3: A message changes the data of one tenant at most: either the store is untouched, or there is an active
  mailbox of some tenant, and the view of every other tenant is what it was. When the relay names the
  recipient, that mailbox is the one at the relay's address, whatever the headers of the message say.
\<close>

theorem edge_one_tenant:
  fixes w :: "('p, 'a) ruled_scheme"
  assumes "store_ok w"
  shows "db (snd (serveEdge mail mx verb path r w)) = db w \<or>
    (\<exists>mb \<in> set (rows (mailboxes (db w))). mbActive mb \<and>
       (rqHeader r HeaderIrisRecipient \<noteq> [] \<longrightarrow>
          mbAddress mb = normAddr (ucd w) (NormalizeRecipient (ucd w) (rqHeader r HeaderIrisRecipient))) \<and>
       (\<forall>tn. tn \<noteq> mbTenantID mb \<longrightarrow> tenant_view tn (db (snd (serveEdge mail mx verb path r w))) = tenant_view tn (db w)))"
proof -
  let ?r = "if mx > 0 then maxBytesReader mx r else r"
  show ?thesis
  proof (cases "\<exists>d. mail = Some d \<and> path = PathMail \<and> verb = ''POST''")
    case False
    then have "snd (serveEdge mail mx verb path r w) = w" by (cases mail) (auto simp: serveEdge_def ret_def)
    then show ?thesis by simp
  next
    case True
    then obtain d where "mail = Some d" by blast
    with True have d: "serveEdge mail mx verb path r w = ServeHTTP d ?r w" by (simp add: serveEdge_def)
    have "candidates ?r msg = [rqHeader r HeaderIrisRecipient]" if "rqHeader r HeaderIrisRecipient \<noteq> []" for msg
      using that by (simp add: candidates_def)
    with ServeHTTP_one_tenant [OF assms, of d ?r] show ?thesis unfolding d routes_to_def by fastforce
  qed
qed

definition demo_lib :: mime_lib where
  "demo_lib = \<lparr>mlReadMessage = (\<lambda>_. None), mlParseMediaType = (\<lambda>_. (([], \<lambda>_. []), False)), mlParts = (\<lambda>_ _. []),
     mlDecodeHeader = Some, mlParseAddress = (\<lambda>_. None), mlParseList = (\<lambda>_. None), mlBase64 = Some, mlQuotedPrintable = Some,
     mlDecoder = (\<lambda>_ _. None), mlParseFloat = (\<lambda>_. None), mlUnescape = (\<lambda>x. x), mlTables = ascii_tables\<rparr>"

definition demo_deps :: "(string, string) inbound_deps" where
  "demo_deps = \<lparr>idLib = demo_lib, idCel = demo_cel, idEngine = demo_engine, idMaxRules = 500, idDir = None, idTriage = True,
     idLimits = DefaultLimits, idSecrets = Some (Inr ''token''), idMailDomain = ''acme.io''\<rparr>"

definition demo_post :: request where
  "demo_post = \<lparr>rqHeader = (\<lambda>h. if h = HeaderToken then ''token'' else if h = HeaderIrisRecipient then ''help@acme.io'' else []),
     rqContentLength = 5, rqBody = ''Hello'', rqReadErr = None\<rparr>"

theorem edge_one_tenant_witness:
  "tenant_view ''other'' (db (snd (serveEdge (Some demo_deps) 0 ''POST'' PathMail demo_post demo_ruled))) =
   tenant_view ''other'' demo_tables"
proof -
  have m: "mbTenantID mb = ''acme''" if "mb \<in> set (rows (mailboxes demo_tables))" for mb
    using that by (simp add: demo_tables_def demo_mailbox_def rows_def)
  show ?thesis
    using edge_one_tenant [OF demo_ruled_simps(4), of "Some demo_deps" 0 "''POST''" PathMail demo_post] m by fastforce
qed

end
