(* ===== verification/InboundOnce.thy ===== *)
theory InboundOnce
  imports InboundProps
begin

text \<open>
  What a delivery does to a store that does not fail: it only adds to it, it records the identifier of the message,
  and the one mail it can send is an acknowledgement that no machine and no mailbox of the desk would answer.
\<close>

section \<open>A calm store\<close>

definition calmly :: "(tables \<Rightarrow> unicode \<Rightarrow> out_mail list \<Rightarrow> bool) \<Rightarrow> 'a desk_scheme \<Rightarrow> bool" where
  "calmly P w \<longleftrightarrow> failNext w = [] \<and> P (db w) (ucd w) (mlSent w)"

lemma calmly_basic [keeps]:
  "preserves (calmly P) (fail m)" "preserves (calmly P) (failLocked m)" "preserves (calmly P) Now" "preserves (calmly P) NewID"
  "preserves (calmly P) (look f)" "preserves (calmly P) (Emit e)" "preserves (calmly P) (EmitEvent tn ev t ak)"
  "preserves (calmly P) (count n as)" "preserves (calmly P) (blobPut k d)" "preserves (calmly P) (blobDelete k)"
  by (auto simp: preserves_iff calmly_def run fail_def failLocked_def Now_def NewID_eq look_def EmitEvent_def Publish_def count_def
      Emit_def Record_def afterID_def blobPut_def blobDelete_def op_defs split: sum.splits prod.splits option.splits)

lemma calmly_metrics [keeps]:
  "preserves (calmly P) (MetricInbound x)" "preserves (calmly P) MetricRuleError" "preserves (calmly P) (MetricAck x)"
  "preserves (calmly P) (Transition x y)"
  unfolding MetricInbound_def MetricRuleError_def MetricAck_def Transition_def by (intro keeps)+

lemma calmly_engine [keeps]:
  "preserves (calmly P) (Forget i)" "preserves (calmly P) (cachePut j p)" "preserves (calmly P) (modify (\<lambda>w. w\<lparr>enEvals := n\<rparr>))"
  by (simp_all add: preserves_iff calmly_def Forget_def cachePut_def modify_def)

lemma calmly_reads [keeps]:
  "preserves (calmly P) (GetTicket tn i)" "preserves (calmly P) (FindTicketByExternalID tn i)"
  "preserves (calmly P) (FindCommentByMessageID tn i)" "preserves (calmly P) (RouteMailbox a)"
  "preserves (calmly P) (ListEnabledRules tn)" "preserves (calmly P) (TagsForTickets tn is)" "preserves (calmly P) (ListAttachments tn i)"
  unfolding GetTicket_def FindTicketByExternalID_def FindCommentByMessageID_def RouteMailbox_def ListEnabledRules_def
    TagsForTickets_def ListAttachments_def Let_def by (intro keeps)+

lemma calmly_ops [keeps]:
  "preserves (calmly P) (view_op t full)" "preserves (calmly P) (MessageID i dom')" "preserves (calmly P) (auditTicket subj ev i oc ds)"
  "preserves (calmly P) (auditInbound subj ev k i ds)" "preserves (calmly P) (ruleError tn r)" "preserves (calmly P) (ackSkipped subj i rs)"
  unfolding view_op_def MessageID_def auditTicket_def auditInbound_def ruleError_def ackSkipped_def Let_def
  by (intro keeps)+

lemma calmly_firstFound [keeps]: "(\<And>x. preserves (calmly P) (f x)) \<Longrightarrow> preserves (calmly P) (firstFound f xs)"
  by (induction xs) (auto intro!: keeps)

lemma calmly_resolve [keeps]: "preserves (calmly P) (resolveIn tn inp)"
  unfolding resolveIn_def Resolve_def byToken_def unlessMissing_def Let_def by (intro keeps)

lemma calmly_evaluate [keeps]: "preserves (calmly P) (runRule ce cfg m r)"
  unfolding runRule_def Program_def compileCached_def engineEvaluate_def by (intro keeps)

lemma calmly_decideRules [keeps]: "preserves (calmly P) (decideRules ce cfg u' tn m rs s)"
  by (induction rs arbitrary: s) (simp_all, (intro keeps | simp)+)

lemma calmly_tryRoutes [keeps]: "preserves (calmly P) (tryRoutes cs)"
  by (induction cs) (simp_all add: Let_def, (intro keeps | simp)+)

lemma calmly_discard [keeps]: "preserves (calmly P) (discard st)"
  unfolding discard_def by (intro keeps)

lemma calmly_upload [keeps]: "preserves (calmly P) (upload tn i msg)"
proof -
  have "preserves (calmly P) (uploadFrom tn i as out)" for as out
    by (induction as arbitrary: out) (simp_all, (intro keeps | simp)+)
  then show ?thesis unfolding upload_def by blast
qed

lemma calmly_inbound [keeps]:
  "preserves (calmly P) (duplicate tn i)" "preserves (calmly P) (route r msg)" "preserves (calmly P) (ackSuppressed rt rec msg t)"
  "preserves (calmly P) (triageFor d subj rec msg)"
  unfolding duplicate_def route_def ackSuppressed_def triageFor_def Evaluate_def Decide_def Let_def by (intro keeps)+

section \<open>What a store that only grows keeps\<close>

definition sameComment :: "comment \<Rightarrow> comment \<Rightarrow> bool" where
  "sameComment c c' \<longleftrightarrow> cmTenantID c' = cmTenantID c \<and> cmTicketID c' = cmTicketID c \<and> cmMessageID c' = cmMessageID c \<and>
     cmInternal c' = cmInternal c"

definition sameTicket :: "ticket \<Rightarrow> ticket \<Rightarrow> bool" where
  "sameTicket t t' \<longleftrightarrow> tkTenantID t' = tkTenantID t \<and> tkExternalID t' = tkExternalID t \<and> tkRequesterEmail t' = tkRequesterEmail t"

definition grown_table :: "('v \<Rightarrow> 'v \<Rightarrow> bool) \<Rightarrow> 'v table \<Rightarrow> 'v table \<Rightarrow> bool" where
  "grown_table R tb tb' \<longleftrightarrow> (\<forall>i x. map_of tb i = Some x \<longrightarrow> (\<exists>x'. map_of tb' i = Some x' \<and> R x x'))"

definition extends :: "tables \<Rightarrow> tables \<Rightarrow> bool" where
  "extends d d' \<longleftrightarrow> mailboxes d' = mailboxes d \<and> grown_table sameComment (comments d) (comments d') \<and>
     grown_table sameTicket (tickets d) (tickets d')"

lemma same_refl [simp]: "sameComment c c" "sameTicket t t"
  by (simp_all add: sameComment_def sameTicket_def)

lemma same_trans: "sameComment a b \<Longrightarrow> sameComment b c \<Longrightarrow> sameComment a c" "sameTicket s t \<Longrightarrow> sameTicket t v \<Longrightarrow> sameTicket s v"
  by (simp_all add: sameComment_def sameTicket_def)

lemma grown_refl: "(\<And>x. R x x) \<Longrightarrow> grown_table R tb tb"
  by (auto simp: grown_table_def)

lemma grown_update:
  assumes "grown_table R tb0 tb" and "\<And>x. map_of tb k = Some x \<Longrightarrow> R x v" and "\<And>x y z. R x y \<Longrightarrow> R y z \<Longrightarrow> R x z"
  shows "grown_table R tb0 (AList.update k v tb)"
  using assms unfolding grown_table_def by (fastforce simp: update_conv)

lemma extends_refl [simp]: "extends d d"
  by (simp add: extends_def grown_refl)

lemma extends_puts:
  assumes "extends D d"
  shows "(\<And>x. map_of (comments d) k = Some x \<Longrightarrow> sameComment x c) \<Longrightarrow> extends D (d\<lparr>comments := AList.update k c (comments d)\<rparr>)"
    and "(\<And>x. map_of (tickets d) k = Some x \<Longrightarrow> sameTicket x t) \<Longrightarrow> extends D (d\<lparr>tickets := AList.update k t (tickets d)\<rparr>)"
    and "extends D (d\<lparr>attachments := as\<rparr>)" "extends D (d\<lparr>tags := gs\<rparr>)" "extends D (d\<lparr>links := ls\<rparr>)" "extends D (d\<lparr>history := hs\<rparr>)"
  using assms by (auto simp: extends_def elim!: grown_update intro: same_trans)

definition keyed :: "tables \<Rightarrow> bool" where
  "keyed d \<longleftrightarrow> (\<forall>i t. map_of (tickets d) i = Some t \<longrightarrow> tkID t = i)"

definition grown :: "tables \<Rightarrow> unicode \<Rightarrow> out_mail list \<Rightarrow> 'a desk_scheme \<Rightarrow> bool" where
  "grown D u s = calmly (\<lambda>d u' s'. keyed d \<and> extends D d \<and> u' = u \<and> s' = s)"

lemma grown_iff: "grown D u s w \<longleftrightarrow> failNext w = [] \<and> keyed (db w) \<and> extends D (db w) \<and> ucd w = u \<and> mlSent w = s"
  by (auto simp: grown_def calmly_def)

lemma keyed_puts:
  assumes "keyed d"
  shows "tkID t = k \<Longrightarrow> keyed (d\<lparr>tickets := AList.update k t (tickets d)\<rparr>)"
    and "keyed (d\<lparr>comments := cs\<rparr>)" "keyed (d\<lparr>attachments := as\<rparr>)" "keyed (d\<lparr>tags := gs\<rparr>)" "keyed (d\<lparr>links := ls\<rparr>)" "keyed (d\<lparr>history := hs\<rparr>)"
  using assms by (auto simp: keyed_def update_conv)

lemma grown_calmly: "(\<And>P. preserves (calmly P) f) \<Longrightarrow> preserves (grown D u s) f"
  by (simp add: grown_def)

lemma grown_reads [keeps]:
  "preserves (grown D u s) Now" "preserves (grown D u s) NewID" "preserves (grown D u s) (Emit e)" "preserves (grown D u s) (count n as)"
  "preserves (grown D u s) (EmitEvent tn' ev t ak)" "preserves (grown D u s) (Transition x y)"
  "preserves (grown D u s) (GetTicket tn' i)" "preserves (grown D u s) (view_op t full)"
  "preserves (grown D u s) (auditTicket subj ev i oc ds)" "preserves (grown D u s) (auditInbound subj ev k i ds)"
  "preserves (grown D u s) (discard st)"
  by (rule grown_calmly, rule keeps)+

lemma grown_ticket_writes [keeps]:
  "preserves (grown D u s) (SetAssignee tn i aid an at)" "preserves (grown D u s) (SetStatus tn i st at)"
  "preserves (grown D u s) (UpdateTicket tn i p at)"
  by (auto simp: preserves_iff grown_iff SetAssignee_def SetStatus_def UpdateTicket_def run Let_def ticket_of_def scoped_iff sameTicket_def
      keyed_def [THEN iffD1, rule_format] assigned_def restated_def patched_def
      intro!: keyed_puts(1) extends_puts(2) split: sum.splits)

lemma grown_other_writes [keeps]:
  "preserves (grown D u s) (SetCommentDelivery tn i dl)" "preserves (grown D u s) (CreateAttachment a)" 
  "preserves (grown D u s) (EnsureTagByName tn k n)" "preserves (grown D u s) (AddTicketTags tn i gs)"
  "preserves (grown D u s) (AppendHistory h)"
  by (auto simp: preserves_iff grown_iff SetCommentDelivery_def CreateAttachment_def EnsureTagByName_def createTag_def AddTicketTags_def
      AppendHistory_def run Let_def comment_of_def scoped_iff sameComment_def keyed_puts
      intro!: extends_puts split: sum.splits if_splits option.splits)

lemma grown_CreateTicket [keeps]: "preserves (grown D u s) (CreateTicket t)"
  by (auto simp: preserves_iff grown_iff CreateTicket_def run Let_def withDefaults_def
      intro!: keyed_puts extends_puts split: if_splits option.splits)

lemma CreateComment_frame:
  "ucd (snd (CreateComment c w)) = ucd w" "mlSent (snd (CreateComment c w)) = mlSent w" "failNext w = [] \<Longrightarrow> failNext (snd (CreateComment c w)) = []"
  by (auto simp: CreateComment_def fail_def look_def save_def Now_def op_defs Let_def split: sum.splits prod.splits)

lemma grown_CreateComment [keeps]: "preserves (grown D u s) (CreateComment c)"
proof (rule preservesI)
  fix w :: "'a desk_scheme" assume w: "grown D u s w"
  obtain r w' where r: "CreateComment c w = (r, w')" by fastforce
  have fr: "ucd w' = u" "mlSent w' = s" "failNext w' = []"
    using CreateComment_frame [where c = c and w = w] r w by (auto simp: grown_iff)
  have "keyed (db w') \<and> extends D (db w')"
  proof (cases r)
    case (Inl e)
    with r w CreateComment_Inl [of c w e w'] show ?thesis by (simp add: grown_iff)
  next
    case (Inr x)
    then obtain t now where t: "map_of (tickets (db w)) (cmTicketID c) = Some t" and new: "map_of (comments (db w)) (cmID c) = None"
      and d: "db w' = (db w)\<lparr>comments := AList.update (cmID c) (storedComment now c) (comments (db w)),
        tickets := AList.update (tkID t) (counted (storedComment now c) t) (tickets (db w))\<rparr>"
      using r CreateComment_Inr [of c w w'] by auto
    let ?d = "(db w)\<lparr>comments := AList.update (cmID c) (storedComment now c) (comments (db w))\<rparr>"
    have k: "tkID t = cmTicketID c" using t w by (simp add: grown_iff keyed_def)
    have "extends D ?d" "keyed ?d" using w new by (auto simp: grown_iff intro: extends_puts keyed_puts)
    from extends_puts(2) [OF this(1), of "tkID t" "counted (storedComment now c) t"]
      keyed_puts(1) [OF this(2), of "counted (storedComment now c) t" "tkID t"]
    show ?thesis using t k d by (simp add: sameTicket_def counted_def)
  qed
  with r fr show "grown D u s (snd (CreateComment c w))" by (simp add: grown_iff)
qed

lemma grown_services [keeps]:
  "preserves (grown D u s) (histAppend tn i f ov nv ak ai)" "preserves (grown D u s) (AssignAs dir subj i aid ak)"
  "preserves (grown D u s) (SetStatusAs subj i st ak)" "preserves (grown D u s) (SetPriorityAs subj i pr ak)"
  unfolding histAppend_def AssignAs_def SetStatusAs_def SetPriorityAs_def Let_def by (intro keeps)+

lemma grown_applyTags [keeps]: "preserves (grown D u s) (applyTags tn i d)"
proof -
  have "preserves (grown D u s) (ensureTags tn refs)" for refs
    by (induction refs) (simp_all, (intro keeps | simp)+)
  then show ?thesis unfolding applyTags_def by (intro keeps)
qed

lemma grown_apply [keeps]: "preserves (grown D u s) (triageApply dir subj i d)"
  unfolding triageApply_def collecting_def by (intro keeps)

lemma grown_record [keeps]: "preserves (grown D u s) (recordAttachments cid st)"
  by (induction st) (simp_all, (intro keeps | simp)+)

lemma grown_rest [keeps]:
  "preserves (grown D u s) (inNote tn i msg)" "preserves (grown D u s) (reopenReplied subj t)" "preserves (grown D u s) (replied subj m msg cid st)"
  unfolding inNote_def reopenReplied_def replied_def Let_def by (intro keeps)+

section \<open>Acknowledgements\<close>

lemma grown_table_trans:
  assumes "grown_table R a b" "grown_table R b c" "\<And>x y z. R x y \<Longrightarrow> R y z \<Longrightarrow> R x z"
  shows "grown_table R a c"
  using assms unfolding grown_table_def by meson

lemma extends_trans: "extends a b \<Longrightarrow> extends b c \<Longrightarrow> extends a c"
  unfolding extends_def by (auto elim: grown_table_trans intro: same_trans)

lemma recordedAs_extends: "recordedAs tn tk i m (comments d) \<Longrightarrow> extends d d' \<Longrightarrow> recordedAs tn tk i m (comments d')"
  unfolding recordedAs_def extends_def grown_table_def sameComment_def by metis

text \<open>An acknowledgement that no machine and no mailbox of the desk would answer.\<close>

definition ackSafe :: "unicode \<Rightarrow> tables \<Rightarrow> mailbox_route \<Rightarrow> string \<Rightarrow> message \<Rightarrow> out_mail \<Rightarrow> bool" where
  "ackSafe u D rt rec msg m \<longleftrightarrow>
     rtAutoAck rt \<and> omAutoReply m \<and> \<not> IsAuto msg \<and> \<not> IsDaemonSender u (ToLower u (omTo m)) \<and> \<not> EqualFold u (ToLower u (omTo m)) rec \<and>
     (\<forall>mb \<in> set (rows (mailboxes D)). mbAddress mb \<noteq> [] \<longrightarrow> mbAddress mb \<noteq> normAddr u (ToLower u (omTo m)))"

lemma RouteMailbox_calm:
  fixes w :: "'z mem_scheme"
  assumes "failNext w = []"
  obtains r where "RouteMailbox a w = (r, w)" and "\<And>mb e. r = Inl e \<Longrightarrow> mb \<in> set (rows (mailboxes (db w))) \<Longrightarrow>
      mbAddress mb \<noteq> [] \<Longrightarrow> mbAddress mb \<noteq> normAddr (ucd w) a"
proof (cases "find (\<lambda>mb. mbAddress mb = normAddr (ucd w) a \<and> normAddr (ucd w) a \<noteq> []) (rows (mailboxes (db w)))")
  case None
  then have "RouteMailbox a w = (Inl RepoNotFound, w)" using assms by (simp add: RouteMailbox_def run Let_def)
  moreover have "mbAddress mb \<noteq> normAddr (ucd w) a" if "mb \<in> set (rows (mailboxes (db w)))" "mbAddress mb \<noteq> []" for mb
    using None that unfolding find_None_iff by metis
  ultimately show ?thesis using that by blast
next
  case (Some mb)
  then have "\<exists>rt. RouteMailbox a w = (Inr rt, w)" using assms by (simp add: RouteMailbox_def run Let_def)
  with that show ?thesis by auto
qed

lemma ackSuppressed_calm:
  assumes "failNext w = []"
  obtains rs where "ackSuppressed rt rec msg t w = (Inr rs, w)"
    and "rs = [] \<Longrightarrow> omTo m = TrimSpace (tkRequesterEmail t) \<Longrightarrow> omAutoReply m \<Longrightarrow> ackSafe (ucd w) (db w) rt rec msg m"
proof -
  let ?a = "ToLower (ucd w) (TrimSpace (tkRequesterEmail t))"
  let ?stop = "\<not> rtAutoAck rt \<or> IsAuto msg \<or> IsDaemonSender (ucd w) ?a \<or> EqualFold (ucd w) ?a rec"
  obtain r where r: "RouteMailbox ?a w = (r, w)" "\<And>mb e. r = Inl e \<Longrightarrow> mb \<in> set (rows (mailboxes (db w))) \<Longrightarrow>
      mbAddress mb \<noteq> [] \<Longrightarrow> mbAddress mb \<noteq> normAddr (ucd w) ?a"
    using RouteMailbox_calm [OF assms] by blast
  have "\<exists>rs. ackSuppressed rt rec msg t w = (Inr rs, w) \<and> (rs = [] \<longrightarrow> \<not> ?stop \<and> (\<exists>e. r = Inl e))"
    using r(1) by (auto simp: ackSuppressed_def op_defs Let_def ack_reasons IsAuto_def split: sum.splits)
  with r(2) that show ?thesis by (auto simp: ackSafe_def)
qed

lemma ackMail_simps:
  "omTo (ackMail u rt rec t msgID) = TrimSpace (tkRequesterEmail t)" "omAutoReply (ackMail u rt rec t msgID)"
  "omMessageID (ackMail u rt rec t msgID) = msgID"
  by (simp_all add: ackMail_def Let_def split: sum.splits)

definition acked :: "tables \<Rightarrow> unicode \<Rightarrow> out_mail list \<Rightarrow> mailbox_route \<Rightarrow> string \<Rightarrow> message \<Rightarrow> ticket \<Rightarrow> 'a desk_scheme \<Rightarrow> bool" where
  "acked D u s rt rec msg t = calmly (\<lambda>d u' s'. keyed d \<and> extends D d \<and> u' = u \<and>
     (s' = s \<or> (\<exists>m i. s' = s @ [m] \<and> omTo m = TrimSpace (tkRequesterEmail t) \<and> ackSafe u D rt rec msg m \<and>
        recordedAs (tkTenantID t) (tkID t) i (omMessageID m) (comments d))))"

lemma grown_acked: "grown D u s w \<Longrightarrow> acked D u s rt rec msg t w"
  by (simp add: grown_def acked_def calmly_def)

lemma sendAck_acked:
  fixes w :: "'z desk_scheme"
  assumes w: "grown D u s w" and "recordedAs (tkTenantID t) (tkID t) i (omMessageID out) (comments (db w))"
    and "ackSafe u D rt rec msg out" "omTo out = TrimSpace (tkRequesterEmail t)"
  shows "acked D u s rt rec msg t (snd (sendAck subj rt t out c w))"
proof -
  obtain r w1 where r: "FakeSend out w = (r, w1)" by fastforce
  obtain s' where w1: "grown (db w) u s' w1" and s': "s' = s \<or> s' = s @ [out]" and D: "db w1 = db w" "keyed (db w)" "extends D (db w)"
    using r w that [of "mlSent w1"] by (auto simp: grown_iff FakeSend_def run split: option.splits sum.splits if_splits)
  have "grown (db w) u s' (snd (sendAck subj rt t out c w))"
  proof -
    have *: "sendAck subj rt t out c w = (let (delivery, outcome, result) = (case r of
              Inr _ \<Rightarrow> (DeliverySent, OutcomeOK, ResultSent) | Inl _ \<Rightarrow> (DeliveryFailed, OutcomeError, ResultFailed))
     in bnd (attempt (SetCommentDelivery (tkTenantID t) (cmID c) delivery)) (\<lambda>_.
        bnd (MetricAck result) (\<lambda>_.
        Emit \<lparr>evTenantID = suTenantID subj, evEventType = AckSent, evActorKind = ActorInbound, evActorID = ActorID subj,
          evSubjectKind = SubjectTicket, evSubjectID = tkID t, evOutcome = outcome, evReason = [],
          evDetails = [(''comment_id'', VStr (cmID c)), (''mailbox_id'', VStr (rtMailboxID rt))]\<rparr>))) w1"
      using r by (simp add: sendAck_def bnd_def [of "attempt (FakeSend out)"] attempt_def)
    have m: "preserves (grown (db w) u s') (MetricAck x)" for x :: string by (rule grown_calmly) (rule keeps)
    show ?thesis unfolding * Let_def split_beta by (rule preservesD [where I = "grown (db w) u s'", OF _ w1]) (intro keeps m)
  qed
  with assms(2-4) s' D show ?thesis
    by (auto simp: grown_iff acked_def calmly_def intro: extends_trans recordedAs_extends)
qed

lemma grown_ack [keeps]:
  "preserves (grown D u s) (ackSkipped subj i x)" "preserves (grown D u s) (MessageID i dm)" "preserves (grown D u s) (MetricAck x)"
  by (rule grown_calmly, rule keeps)+

lemma recordAck_acked:
  fixes w :: "'z desk_scheme"
  assumes w: "grown D u s w" and "ackSafe u D rt rec msg out" "omTo out = TrimSpace (tkRequesterEmail t)"
    and c: "cmTenantID c = tkTenantID t" "cmTicketID c = tkID t" "cmMessageID c = omMessageID out" "\<not> cmInternal c"
  shows "acked D u s rt rec msg t (snd (bnd (attempt (CreateComment c)) (\<lambda>r.
    case r of Inl _ \<Rightarrow> ackSkipped subj (tkID t) AckRecordFailed | Inr _ \<Rightarrow> sendAck subj rt t out c) w))"
proof -
  obtain r w1 where r: "CreateComment c w = (r, w1)" by fastforce
  have w1: "grown D u s w1" by (rule preservesE [OF grown_CreateComment w r])
  show ?thesis
  proof (cases r)
    case (Inl e)
    then show ?thesis
      using r preservesD [OF grown_ack(1) w1, of subj "tkID t" AckRecordFailed] by (simp add: bnd_def attempt_def grown_acked)
  next
    case (Inr x)
    then have "recordedAs (tkTenantID t) (tkID t) (cmID c) (omMessageID out) (comments (db w1))"
      using CreateComment_recorded [OF c(4), of "mlSent w", THEN tripleD(1), of w x w1] r c by (simp add: seen_def)
    with Inr r sendAck_acked [OF w1 _ assms(2,3)] show ?thesis by (simp add: bnd_def attempt_def)
  qed
qed

lemma acknowledge_acked:
  fixes w :: "'z desk_scheme"
  assumes w: "grown D u s w"
  shows "acked D u s rt rec msg t (snd (acknowledge md subj rt rec msg t w))"
proof -
  have u: "ucd w = u" "failNext w = []" and m: "mailboxes (db w) = mailboxes D" using w by (simp_all add: grown_iff extends_def)
  obtain rs where rs: "ackSuppressed rt rec msg t w = (Inr rs, w)"
    and safe: "\<And>i. rs = [] \<Longrightarrow> ackSafe u D rt rec msg (ackMail u rt rec t i)"
    using ackSuppressed_calm [OF u(2), of rt rec msg t "ackMail u rt rec t _"] u m
    by (metis (no_types, lifting) ackMail_simps(1,2) ackSafe_def)
  show ?thesis
  proof (cases "rs = []")
    case False
    with rs have "acknowledge md subj rt rec msg t w = ackSkipped subj (tkID t) rs w" by (simp add: acknowledge_def bnd_def)
    then show ?thesis using preservesD [OF grown_ack(1) w, of subj "tkID t" rs] by (simp add: grown_acked)
  next
    case True
    obtain i w1 where i: "MessageID (tkID t) (domainFor u rec md) w = (Inr i, w1)"
      using sure_ops(8) unfolding succeeds_def by blast
    have w1: "grown D u s w1" by (rule preservesE [OF grown_ack(2) w i])
    obtain j w2 where j: "NewID w1 = (Inr j, w2)" by (simp add: NewID_eq)
    have w2: "grown D u s w2" by (rule preservesE [OF grown_reads(2) w1 j])
    have run: "acknowledge md subj rt rec msg t w =
       (case ValidateMail u (ackMail u rt rec t i) of
          Inl _ \<Rightarrow> ackSkipped subj (tkID t) AckUnsafe w1
        | Inr _ \<Rightarrow> let out = ackMail u rt rec t i; c = (newComment j (tkTenantID t) (tkID t) (omText out) False (omMessageID out))
              \<lparr>cmAuthorKind := AuthorSystem, cmAuthorID := ActorID subj, cmAuthorName := AckAuthorName\<rparr>
            in bnd (attempt (CreateComment c)) (\<lambda>r.
               case r of Inl _ \<Rightarrow> ackSkipped subj (tkID t) AckRecordFailed | Inr _ \<Rightarrow> sendAck subj rt t out c) w2)"
      using rs True i j u(1)
      by (auto simp: acknowledge_def fetch_def Let_def bnd_def [of "ackSuppressed rt rec msg t"] bnd_def [of "\<lambda>w. _ w"]
          bnd_def [of NewID] bnd_def [of "MessageID _ _"] split: sum.splits)
    show ?thesis
    proof (cases "ValidateMail u (ackMail u rt rec t i)")
      case (Inl e)
      with run show ?thesis using preservesD [OF grown_ack(1) w1, of subj "tkID t" AckUnsafe] by (simp add: grown_acked)
    next
      case (Inr x)
      show ?thesis unfolding run Inr sum.case Let_def
        by (rule recordAck_acked [OF w2 safe [OF True]]) (simp_all add: ackMail_simps)
    qed
  qed
qed

lemma grown_get:
  fixes g :: "ticket res \<Rightarrow> ('z desk_scheme, 'b) op"
  assumes t: "map_of (tickets D) i = Some t1"
    and g: "\<And>r. (\<And>x. r = Inr x \<Longrightarrow> sameTicket t1 x \<and> tkID x = i) \<Longrightarrow> triple (grown D u s) (g r) Q E"
  shows "triple (grown D u s) (bnd (attempt (GetTicket tn i)) g) Q E"
proof -
  have "case bnd (attempt (GetTicket tn i)) g w of (Inr x, w') \<Rightarrow> Q x w' | (Inl e, w') \<Rightarrow> E e w'" if w: "grown D u s w" for w
  proof -
    obtain r where r: "GetTicket tn i w = (r, w)" and x: "\<And>x. r = Inr x \<Longrightarrow> map_of (tickets (db w)) i = Some x"
      using w by (cases "ticket_of (db w) tn i") (auto simp: GetTicket_def run grown_iff ticket_of_def scoped_iff)
    have "sameTicket t1 x \<and> tkID x = i" if "r = Inr x" for x
      using x [OF that] t w by (fastforce simp: grown_iff keyed_def extends_def grown_table_def)
    from g [OF this] w r show ?thesis by (simp add: triple_def bnd_def attempt_def)
  qed
  then show ?thesis by (simp add: triple_def)
qed

lemma acked_keeps [keeps]: "preserves (acked D u s rt rec msg t) (auditInbound subj ev k i ds)"
  unfolding acked_def by (rule keeps)

lemma opened_acked:
  assumes t: "map_of (tickets D) (tkID t) = Some t1" "sameTicket t1 t"
  shows "triple (grown D u s) (opened d subj rt rec msg p t st :: ('z desk_scheme, string \<times> string) op) (\<lambda>_. acked D u s rt rec msg t) (\<lambda>_. acked D u s rt rec msg t)"
proof -
  have last: "triple (grown D u s) (acknowledge (idMailDomain d) subj rt rec msg x :: ('z desk_scheme, unit) op) (\<lambda>_. acked D u s rt rec msg t) (\<lambda>_. acked D u s rt rec msg t)"
    if "sameTicket t1 x \<and> tkID x = tkID t" for x
  proof -
    have "acked D u s rt rec msg t (snd (acknowledge (idMailDomain d) subj rt rec msg x w))" if "grown D u s w" for w :: "'z desk_scheme"
      using acknowledge_acked [OF that, of rt rec msg x "idMailDomain d" subj] \<open>sameTicket t1 x \<and> tkID x = tkID t\<close> t(2)
      by (simp add: acked_def sameTicket_def)
    then show ?thesis unfolding triple_def case_prod_beta by (auto split: sum.splits)
  qed
  have tail: "triple (grown D u s) (bnd (EmitEvent tn ev x ak) (\<lambda>_. bnd (acknowledge (idMailDomain d) subj rt rec msg x) (\<lambda>_.
      bnd (auditInbound subj ev' k i ds) (\<lambda>_. ret z))) :: ('z desk_scheme, string \<times> string) op)
      (\<lambda>_. acked D u s rt rec msg t) (\<lambda>_. acked D u s rt rec msg t)"
    if "sameTicket t1 x \<and> tkID x = tkID t" for x tn ev ak ev' k i ds z
    by (rule triple_then [OF grown_reads(5) grown_acked], assumption, rule triple_enter [OF last [OF that]]) (intro keeps)
  have get: "triple (grown D u s) (bnd (attempt (GetTicket tn (tkID t))) (\<lambda>r.
      bnd (EmitEvent tn' ev (case r of Inr x \<Rightarrow> x | Inl _ \<Rightarrow> t) ak) (\<lambda>_.
      bnd (acknowledge (idMailDomain d) subj rt rec msg (case r of Inr x \<Rightarrow> x | Inl _ \<Rightarrow> t)) (\<lambda>_.
      bnd (auditInbound subj ev' k i ds) (\<lambda>_. ret z)))) :: ('z desk_scheme, string \<times> string) op)
      (\<lambda>_. acked D u s rt rec msg t) (\<lambda>_. acked D u s rt rec msg t)" for tn tn' ev ak ev' k i ds z
  proof (rule grown_get [OF t(1)], rule tail)
    show "sameTicket t1 (case r of Inr x \<Rightarrow> x | Inl _ \<Rightarrow> t) \<and> tkID (case r of Inr x \<Rightarrow> x | Inl _ \<Rightarrow> t) = tkID t"
      if "\<And>x. r = Inr x \<Longrightarrow> sameTicket t1 x \<and> tkID x = tkID t" for r :: "ticket res"
      using that t(2) by (cases r) simp_all
  qed
  show ?thesis
    unfolding opened_def Let_def
    by (rule triple_then [OF grown_record grown_acked], assumption, rule triple_then [OF grown_rest(1) grown_acked], assumption,
        rule triple_then [OF _ grown_acked get]) (intro keeps)
qed

lemma grown_inbound [keeps]:
  "preserves (grown D u s) (upload tn i msg)" "preserves (grown D u s) (duplicate tn i)" "preserves (grown D u s) (resolveIn tn inp)"
  "preserves (grown D u s) (triageFor d subj rec msg)" "preserves (grown D u s) (FindTicketByExternalID tn i)"
  by (rule grown_calmly, rule keeps)+

lemma grown_reply [keeps]: "preserves (grown D u s) (inReply subj m msg)"
  unfolding inReply_def Let_def by (intro keeps)

lemma CreateTicket_calm:
  assumes "CreateTicket t w = (Inr (), w')" "grown D u s w"
  shows "\<exists>t1. map_of (tickets (db w')) (tkID t) = Some t1 \<and> sameTicket t1 t \<and> grown (db w') u s w' \<and> extends D (db w')"
proof -
  have g: "grown D u s w'" using preservesE [OF grown_CreateTicket assms(2,1)] .
  obtain now where "db w' = (db w)\<lparr>tickets := AList.update (tkID t) (withDefaults now t) (tickets (db w))\<rparr>"
    using assms by (auto simp: CreateTicket_def run grown_iff Let_def split: if_splits option.splits)
  with g show ?thesis by (auto simp: grown_iff update_conv sameTicket_def withDefaults_def Let_def)
qed

section \<open>What a delivery leaves behind\<close>

definition acks :: "tables \<Rightarrow> unicode \<Rightarrow> out_mail list \<Rightarrow> string \<Rightarrow> mailbox_route \<Rightarrow> string \<Rightarrow> message \<Rightarrow> tables \<Rightarrow> out_mail list \<Rightarrow> bool" where
  "acks D u s tn rt rec msg d s' \<longleftrightarrow> s' = s \<or>
     (\<exists>m c. s' = s @ [m] \<and> omTo m = TrimSpace (msFromEmail msg) \<and> ackSafe u D rt rec msg m \<and>
        c \<in> set (rows (comments d)) \<and> cmTenantID c = tn \<and> cmMessageID c = omMessageID m \<and> \<not> cmInternal c)"

definition known :: "string \<Rightarrow> string \<Rightarrow> tables \<Rightarrow> bool" where
  "known tn mid d \<longleftrightarrow>
     (\<exists>i c. map_of (comments d) i = Some c \<and> cmTenantID c = tn \<and> cmMessageID c = mid) \<or>
     (\<exists>i t. map_of (tickets d) i = Some t \<and> tkTenantID t = tn \<and> tkExternalID t = mid)"

lemma known_extends: "known tn mid d \<Longrightarrow> extends d d' \<Longrightarrow> known tn mid d'"
  unfolding known_def extends_def grown_table_def sameComment_def sameTicket_def by metis

definition ingested ::
  "tables \<Rightarrow> unicode \<Rightarrow> out_mail list \<Rightarrow> string \<Rightarrow> mailbox_route \<Rightarrow> string \<Rightarrow> message \<Rightarrow> 'a desk_scheme \<Rightarrow> bool" where
  "ingested D u s tn rt rec msg = calmly (\<lambda>d u' s'. keyed d \<and> extends D d \<and> u' = u \<and> acks D u s tn rt rec msg d s')"

definition left_known :: "string \<Rightarrow> message \<Rightarrow> string \<times> string \<Rightarrow> 'a mem_scheme \<Rightarrow> bool" where
  "left_known tn msg x w \<longleftrightarrow> (fst x \<in> {OutcomeCreated, OutcomeThreaded} \<longrightarrow> known tn (msMessageID msg) (db w))"

lemma grown_ingested: "grown D u s w \<Longrightarrow> ingested D u s tn rt rec msg w"
  by (simp add: grown_iff ingested_def calmly_def acks_def)

lemma acked_ingested:
  assumes "acked D' u s rt rec msg t w" "extends D D'" "tkTenantID t = tn" "tkRequesterEmail t = msFromEmail msg"
  shows "ingested D u s tn rt rec msg w"
proof -
  have "ackSafe u D' rt rec msg m = ackSafe u D rt rec msg m" for m using assms(2) by (simp add: ackSafe_def extends_def)
  with assms show ?thesis
    by (auto simp: acked_def ingested_def calmly_def acks_def intro: extends_trans dest: recordedAs_row)
qed

definition delivers ::
  "tables \<Rightarrow> unicode \<Rightarrow> out_mail list \<Rightarrow> string \<Rightarrow> mailbox_route \<Rightarrow> string \<Rightarrow> message \<Rightarrow> ('z desk_scheme, string \<times> string) op \<Rightarrow> bool" where
  "delivers D u s tn rt rec msg f \<longleftrightarrow>
     triple (grown D u s) f (\<lambda>x w. ingested D u s tn rt rec msg w \<and> left_known tn msg x w) (\<lambda>_. ingested D u s tn rt rec msg)"

lemma delivers_bnd: "preserves (grown D u s) f \<Longrightarrow> (\<And>x. delivers D u s tn rt rec msg (g x)) \<Longrightarrow> delivers D u s tn rt rec msg (bnd f g)"
  unfolding delivers_def
  by (rule triple_bnd [where R = "\<lambda>_. grown D u s"]) (auto simp: preserves_def elim: triple_conseq intro: grown_ingested)

lemma delivers_cases:
  "(b \<Longrightarrow> delivers D u s tn rt rec msg f) \<Longrightarrow> (\<not> b \<Longrightarrow> delivers D u s tn rt rec msg g) \<Longrightarrow> delivers D u s tn rt rec msg (if b then f else g)"
  "delivers D u s tn rt rec msg f1 \<Longrightarrow> (\<And>y. delivers D u s tn rt rec msg (g1 y)) \<Longrightarrow> delivers D u s tn rt rec msg (case x1 of None \<Rightarrow> f1 | Some y \<Rightarrow> g1 y)"
  "(\<And>e. delivers D u s tn rt rec msg (f2 e)) \<Longrightarrow> (\<And>y. delivers D u s tn rt rec msg (g2 y)) \<Longrightarrow>
     delivers D u s tn rt rec msg (case x2 of Inl e \<Rightarrow> f2 e | Inr y \<Rightarrow> g2 y)"
  by (auto split: option.splits sum.splits)

lemma delivers_ends:
  "delivers D u s tn rt rec msg (throw e)" "fst x \<notin> {OutcomeCreated, OutcomeThreaded} \<Longrightarrow> delivers D u s tn rt rec msg (ret x)"
  by (auto simp: delivers_def triple_def op_defs left_known_def intro: grown_ingested)

text \<open>After the row of the message is written: what follows only adds to the store.\<close>

definition done_with ::
  "tables \<Rightarrow> unicode \<Rightarrow> out_mail list \<Rightarrow> string \<Rightarrow> mailbox_route \<Rightarrow> string \<Rightarrow> message \<Rightarrow> (string \<times> string) res \<times> 'z desk_scheme \<Rightarrow> bool" where
  "done_with D u s tn rt rec msg y \<longleftrightarrow> ingested D u s tn rt rec msg (snd y) \<and> known tn (msMessageID msg) (db (snd y))"

lemma delivers_write:
  assumes "preserves (grown D u s) f" and "\<And>e. delivers D u s tn rt rec msg (g (Inl e))"
    and "\<And>w w' x. grown D u s w \<Longrightarrow> f w = (Inr x, w') \<Longrightarrow> done_with D u s tn rt rec msg (g (Inr x) w')"
  shows "delivers D u s tn rt rec msg (bnd (attempt f) g)"
proof -
  have "case bnd (attempt f) g w of (Inr x, w') \<Rightarrow> ingested D u s tn rt rec msg w' \<and> left_known tn msg x w'
      | (Inl e, w') \<Rightarrow> ingested D u s tn rt rec msg w'" if w: "grown D u s w" for w
  proof (cases "f w")
    case (Pair r w1)
    then have w1: "grown D u s w1" using preservesE [OF assms(1) w] by blast
    show ?thesis
    proof (cases r)
      case (Inl e)
      with Pair w1 assms(2) [of e] show ?thesis by (simp add: bnd_def attempt_def delivers_def triple_def)
    next
      case (Inr x)
      with Pair w assms(3) [of w x w1] show ?thesis
        by (auto simp: bnd_def attempt_def done_with_def left_known_def split: prod.splits sum.splits)
    qed
  qed
  then show ?thesis by (simp add: delivers_def triple_def)
qed

lemma delivers_reply:
  assumes "suTenantID subj = tn"
  shows "delivers D u s tn rt rec msg (inReply subj m msg)"
proof -
  have r: "done_with D u s tn rt rec msg (replied subj m msg cid st w')"
    if w: "grown D u s w" and c: "CreateComment c w = (Inr x, w')" "cmTenantID c = tn" "cmMessageID c = msMessageID msg" for w w' c cid st x
  proof -
    have w': "grown D u s w'" by (rule preservesE [OF grown_CreateComment w c(1)])
    then have "grown (db w') u s w'" by (simp add: grown_iff)
    then have e: "grown (db w') u s (snd (replied subj m msg cid st w'))" by (rule preservesD [OF grown_rest(3)])
    obtain t now where "db w' = (db w)\<lparr>comments := AList.update (cmID c) (storedComment now c) (comments (db w)),
        tickets := AList.update (tkID t) (counted (storedComment now c) t) (tickets (db w))\<rparr>"
      using c(1) CreateComment_Inr [of c w w'] by auto
    then have "known tn (msMessageID msg) (db w')"
      unfolding known_def by (intro disjI1 exI [of _ "cmID c"] exI [of _ "storedComment now c"]) (simp add: update_conv storedComment_def c)
    with e w' show ?thesis
      by (auto simp: done_with_def ingested_def calmly_def grown_iff acks_def intro: known_extends extends_trans)
  qed
  show ?thesis
    unfolding inReply_def Let_def
    by (rule delivers_write [OF grown_CreateComment] | rule delivers_bnd keeps | simp only: sum.case | rule delivers_cases delivers_ends |
        (rule r, assumption, assumption, simp add: assms, simp) | simp add: inbound_outcomes)+
qed

lemma delivers_create:
  assumes "suTenantID subj = tn"
  shows "delivers D u s tn rt rec msg (inCreate d subj rt rec msg p)"
proof -
  have c: "done_with D u s tn rt rec msg (opened d subj rt rec msg p (emailTicket i subj rt rec msg) st w')"
    if w: "grown D u s w" and x: "CreateTicket (emailTicket i subj rt rec msg) w = (Inr x, w')" for w w' i x st
  proof -
    let ?t = "emailTicket i subj rt rec msg"
    obtain t1 where t1: "map_of (tickets (db w')) (tkID ?t) = Some t1" "sameTicket t1 ?t" "grown (db w') u s w'" "extends D (db w')"
      using CreateTicket_calm [of ?t w w' D u s] w x by auto
    have a: "acked (db w') u s rt rec msg ?t (snd (opened d subj rt rec msg p ?t st w'))"
      using opened_acked [OF t1(1,2), of u s d subj rt rec msg p st] t1(3)
      unfolding triple_def case_prod_beta by (force split: sum.splits)
    have "known tn (msMessageID msg) (db w')"
      unfolding known_def using t1(1,2) assms
      by (intro disjI2 exI [of _ "tkID ?t"] exI [of _ t1]) (auto simp: sameTicket_def emailTicket_def)
    with a t1(4) show ?thesis
      using acked_ingested [OF a t1(4), of tn] assms known_extends
      by (auto simp: done_with_def acked_def calmly_def emailTicket_def)
  qed
  show ?thesis
    unfolding inCreate_def Let_def
    by (rule delivers_write [OF grown_CreateTicket] | rule delivers_bnd keeps | simp only: sum.case | rule delivers_cases delivers_ends |
        (rule c, assumption, assumption) | simp add: inbound_outcomes)+
qed

end
