(* ===== verification/InboundExact.thy ===== *)
theory InboundExact
  imports InboundOnce
begin

text \<open>
  What the inbound edge promises when the store does not fail: a message is taken once, at most one
  acknowledgement leaves, never to an address that would answer it, and a message that can be taken is.
\<close>

section \<open>A whole delivery\<close>

text \<open>A reply that fails left the store grown at most, so the ticket can be opened as if the message were new.\<close>

lemma delivers_retry:
  assumes f: "delivers D u s tn rt rec msg f" and k: "preserves (grown D u s) f" and h: "\<And>e. delivers D u s tn rt rec msg (h e)"
  shows "delivers D u s tn rt rec msg (bnd (attempt f) (\<lambda>r. case r of Inr x \<Rightarrow> ret x | Inl e \<Rightarrow> h e))"
proof -
  have "case bnd (attempt f) (\<lambda>r. case r of Inr x \<Rightarrow> ret x | Inl e \<Rightarrow> h e) w of
      (Inr x, w') \<Rightarrow> ingested D u s tn rt rec msg w' \<and> left_known tn msg x w'
    | (Inl e, w') \<Rightarrow> ingested D u s tn rt rec msg w'" if w: "grown D u s w" for w
  proof (cases "f w")
    case (Pair r w1)
    then have w1: "grown D u s w1" using preservesE [OF k w] by blast
    show ?thesis
    proof (cases r)
      case (Inl e)
      with Pair w1 h [of e] show ?thesis by (simp add: bnd_def attempt_def delivers_def triple_def)
    next
      case (Inr x)
      have "case f w of (Inr x, w') \<Rightarrow> ingested D u s tn rt rec msg w' \<and> left_known tn msg x w'
        | (Inl e, w') \<Rightarrow> ingested D u s tn rt rec msg w'" by (rule f [unfolded delivers_def triple_def, rule_format, OF w])
      with Pair Inr show ?thesis by (simp add: bnd_def attempt_def ret_def)
    qed
  qed
  then show ?thesis by (simp add: delivers_def triple_def)
qed

lemma delivers_ingest:
  assumes "suTenantID subj = tn"
  shows "delivers D u s tn rt rec msg (ingest d subj rt rec msg)"
proof -
  have o: "delivers D u s tn rt rec msg (openTicket d subj rt rec msg)"
    unfolding openTicket_def
    by (rule delivers_bnd keeps delivers_cases delivers_create assms delivers_ends | simp add: inbound_outcomes)+
  show ?thesis
    unfolding ingest_def
    by (rule delivers_retry [OF delivers_reply grown_reply] | rule delivers_bnd keeps delivers_cases o delivers_ends assms | simp add: inbound_outcomes)+
qed

lemma ingest_ingested:
  fixes w :: "('p, 'z) ruled_scheme"
  assumes "failNext w = []" "store_ok w" "suTenantID subj = tn" "ingest d subj rt rec msg w = (r, w')"
  shows "ingested (db w) (ucd w) (mlSent w) tn rt rec msg w'" and "r = Inr x \<Longrightarrow> left_known tn msg x w'"
proof -
  have "keyed (db w)" using assms(2) table_lookup_id [OF mem_invD(1)] unfolding keyed_def store_ok_def by auto
  then have "grown (db w) (ucd w) (mlSent w) w" using assms(1) by (simp add: grown_iff)
  then have *: "case (r, w') of (Inr x, w') \<Rightarrow> ingested (db w) (ucd w) (mlSent w) tn rt rec msg w' \<and> left_known tn msg x w'
      | (Inl e, w') \<Rightarrow> ingested (db w) (ucd w) (mlSent w) tn rt rec msg w'"
    using delivers_ingest [OF assms(3), of "db w" "ucd w" "mlSent w" rt rec msg d, unfolded delivers_def triple_def, rule_format, of w] assms(4)
    by simp
  show "ingested (db w) (ucd w) (mlSent w) tn rt rec msg w'" using * by (cases r) auto
  show "r = Inr x \<Longrightarrow> left_known tn msg x w'" using * by simp
qed

text \<open>
  C7: On a store that does not fail, a delivery sends at most one mail. When it sends one, it is the automatic
  acknowledgement of a mailbox that wants it, it goes to the sender of the message and is marked as automatic, the message was not itself
  automatic or from a daemon address, the sender is not the address the message came to nor the address of
  any mailbox of any tenant, and a public comment of the tenant already records it: acknowledgements cannot loop.
\<close>

theorem ack_loop_safe:
  fixes w :: "('p, 'z) ruled_scheme"
  assumes "failNext w = []" "store_ok w" and w': "w' = snd (ingest d (SystemFor (rtTenantID rt)) rt rec msg w)"
  shows "mlSent w' = mlSent w \<or>
    (\<exists>m c. mlSent w' = mlSent w @ [m] \<and> omTo m = TrimSpace (msFromEmail msg) \<and> omAutoReply m \<and> rtAutoAck rt \<and>
      \<not> IsAuto msg \<and> \<not> IsDaemonSender (ucd w) (ToLower (ucd w) (omTo m)) \<and> \<not> EqualFold (ucd w) (ToLower (ucd w) (omTo m)) rec \<and>
      normAddr (ucd w) (ToLower (ucd w) (omTo m)) \<notin> set (map mbAddress (rows (mailboxes (db w)))) - {[]} \<and>
      c \<in> set (rows (comments (db w'))) \<and> cmTenantID c = rtTenantID rt \<and> cmMessageID c = omMessageID m \<and> \<not> cmInternal c)"
proof -
  obtain r where "ingest d (SystemFor (rtTenantID rt)) rt rec msg w = (r, w')" using w' by (metis prod.collapse)
  then have "ingested (db w) (ucd w) (mlSent w) (rtTenantID rt) rt rec msg w'"
    by (intro ingest_ingested(1) [OF assms(1,2)]) (simp_all add: SystemFor_def)
  then have "acks (db w) (ucd w) (mlSent w) (rtTenantID rt) rt rec msg (db w') (mlSent w')"
    by (simp add: ingested_def calmly_def)
  moreover have "ackSafe (ucd w) (db w) rt rec msg m \<Longrightarrow>
      normAddr (ucd w) (ToLower (ucd w) (omTo m)) \<notin> set (map mbAddress (rows (mailboxes (db w)))) - {[]}" for m
    by (auto simp: ackSafe_def)
  ultimately show ?thesis unfolding acks_def ackSafe_def by blast
qed

definition demo_route :: mailbox_route where
  "demo_route = \<lparr>rtTenantID = ''acme'', rtMailboxID = ''m1'', rtDisplayName = ''Acme Help'', rtActive = True, rtAutoAck = True,
     rtAutoAckTemplate = []\<rparr>"

definition demo_letter :: message where
  "demo_letter = emptyMessage\<lparr>msSubject := ''Hi'', msFromEmail := ''ann@x.org'', msMessageID := ''n1@x.org'', msText := ''Hello''\<rparr>"

theorem ack_loop_safe_witness:
  "mlSent (snd (ingest demo_deps (SystemFor ''acme'') demo_route ''help@acme.io'' (demo_letter\<lparr>msPrecedence := ''bulk''\<rparr>) demo_ruled)) = mlSent demo_ruled"
  using ack_loop_safe [OF demo_ruled_simps(1,4) refl, of demo_deps demo_route "''help@acme.io''" "demo_letter\<lparr>msPrecedence := ''bulk''\<rparr>"]
  by (auto simp: IsAuto_def demo_route_def)

section \<open>Once\<close>

lemma duplicate_known:
  fixes w :: "'z mem_scheme"
  assumes "failNext w = []" "known tn mid (db w)" "mid \<noteq> []"
  shows "\<exists>i. duplicate tn mid w = (Inr (Some i), w)"
proof -
  let ?c = "find (\<lambda>c. cmTenantID c = tn \<and> cmMessageID c = mid) (rows (comments (db w)))"
  let ?t = "find (\<lambda>t. tkTenantID t = tn \<and> tkExternalID t = mid) (rows (tickets (db w)))"
  have k: "?c \<noteq> None \<or> ?t \<noteq> None"
    using assms(2) unfolding known_def find_None_iff by (blast dest: lookup_mem_rows)
  have c: "FindCommentByMessageID tn mid w = (case ?c of None \<Rightarrow> Inl RepoNotFound | Some c \<Rightarrow> Inr c, w)"
    using assms(1,3) by (cases ?c) (simp_all add: FindCommentByMessageID_def run Let_def)
  have t: "FindTicketByExternalID tn mid w = (case ?t of None \<Rightarrow> Inl RepoNotFound | Some c \<Rightarrow> Inr c, w)"
    using assms(1,3) by (cases ?t) (simp_all add: FindTicketByExternalID_def run Let_def)
  show ?thesis
    using k assms(3) c t by (cases ?c; cases ?t) (auto simp: duplicate_def bnd_def attempt_def ret_def)
qed

lemma ingest_known:
  fixes w :: "('p, 'z) ruled_scheme"
  assumes "failNext w = []" "known (rtTenantID rt) (msMessageID msg) (db w)" "msMessageID msg \<noteq> []"
  shows "\<exists>i w'. ingest d subj rt rec msg w = (Inr (OutcomeDuplicate, i), w') \<and> db w' = db w \<and> mlSent w' = mlSent w"
proof -
  obtain i where i: "duplicate (rtTenantID rt) (msMessageID msg) w = (Inr (Some i), w)"
    using duplicate_known [OF assms] by blast
  obtain x w' where a: "auditInbound subj InboundDuplicate SubjectTicket i [] w = (Inr x, w')"
    using sure_ops(3) unfolding succeeds_def by blast
  have "calmly (\<lambda>d u s. d = db w \<and> s = mlSent w) w'"
    by (rule preservesE [OF calmly_ops(4) _ a]) (simp add: calmly_def assms(1))
  with i a show ?thesis
    by (intro exI [of _ i] exI [of _ w']) (simp add: ingest_def bnd_step [of _ w] calmly_def ret_def)
qed

text \<open>Any number of deliveries, each of any message to any mailbox, whatever comes of them.\<close>

type_synonym delivery = "mailbox_route \<times> string \<times> message"

definition later :: "('ast, 'p) inbound_deps \<Rightarrow> delivery list \<Rightarrow> ('p, 'z) ruled_scheme \<Rightarrow> ('p, 'z) ruled_scheme" where
  "later d = fold (\<lambda>(rt, rec, msg) w. snd (ingest d (SystemFor (rtTenantID rt)) rt rec msg w))"

definition holds_known :: "string \<Rightarrow> string \<Rightarrow> 'a mem_scheme \<Rightarrow> bool" where
  "holds_known tn mid w \<longleftrightarrow> failNext w = [] \<and> store_ok w \<and> known tn mid (db w)"

lemma ingest_ok: "preserves store_ok (ingest d (SystemFor (rtTenantID rt)) rt rec msg)"
proof (rule preservesI)
  fix w :: "('a, 'b) ruled_scheme" assume w: "store_ok w"
  obtain tn where "tn \<noteq> rtTenantID rt" using that [of "CHR ''x'' # rtTenantID rt"] by simp
  then have "preserves (apart tn (tenant_view tn (db w))) (ingest d (SystemFor (rtTenantID rt)) rt rec msg)"
    by (intro apart_ingest) (simp add: SystemFor_def)
  from preservesD [OF this, of w] w show "store_ok (snd (ingest d (SystemFor (rtTenantID rt)) rt rec msg w))" by (simp add: apart_def)
qed

lemma later_known: "holds_known tn mid w \<Longrightarrow> holds_known tn mid (later d xs w)"
proof (induction xs arbitrary: w)
  case (Cons x xs)
  obtain rt rec msg where x: "x = (rt, rec, msg)" by (cases x) auto
  obtain r w' where w': "ingest d (SystemFor (rtTenantID rt)) rt rec msg w = (r, w')" by fastforce
  have "ingested (db w) (ucd w) (mlSent w) (rtTenantID rt) rt rec msg w'"
    by (rule ingest_ingested(1) [OF _ _ _ w']) (use Cons.prems in \<open>simp_all add: holds_known_def SystemFor_def\<close>)
  moreover have "store_ok w'" using preservesE [OF ingest_ok _ w'] Cons.prems by (simp add: holds_known_def)
  ultimately have "holds_known tn mid w'"
    using Cons.prems known_extends by (auto simp: ingested_def calmly_def holds_known_def)
  from Cons.IH [OF this] show ?case by (simp add: later_def x w')
qed (simp add: later_def)

text \<open>
  C4: A message is taken once. After a delivery that created a ticket or added to one, on a store that does not fail, and
  after any further deliveries of any messages, a message with the same identifier for the same
  tenant is answered as a duplicate, and neither the store nor the outgoing mail changes.
\<close>

theorem ingest_once:
  fixes w :: "('p, 'z) ruled_scheme"
  assumes "failNext w = []" "store_ok w" "ingest d (SystemFor (rtTenantID rt)) rt rec msg w = (Inr (oc, i), w')"
    and "oc \<in> {OutcomeCreated, OutcomeThreaded}" "msMessageID msg \<noteq> []"
    and "rtTenantID rt' = rtTenantID rt" "msMessageID msg' = msMessageID msg"
  shows "\<exists>j w''. ingest d (SystemFor (rtTenantID rt')) rt' rec' msg' (later d xs w') = (Inr (OutcomeDuplicate, j), w'') \<and>
    db w'' = db (later d xs w') \<and> mlSent w'' = mlSent (later d xs w')"
proof -
  have t: "suTenantID (SystemFor (rtTenantID rt)) = rtTenantID rt" by (simp add: SystemFor_def)
  have "holds_known (rtTenantID rt) (msMessageID msg) w'"
    using ingest_ingested [OF assms(1,2) t assms(3)] preservesE [OF ingest_ok assms(2,3)] assms(4)
    by (auto simp: holds_known_def ingested_def calmly_def left_known_def)
  then have "holds_known (rtTenantID rt) (msMessageID msg) (later d xs w')" by (rule later_known)
  then show ?thesis
    using ingest_known [of "later d xs w'" rt' msg' d "SystemFor (rtTenantID rt')" rec'] assms(5-7) by (simp add: holds_known_def)
qed

definition returns :: "'b \<Rightarrow> ('w, 'b) op \<Rightarrow> bool" where
  "returns v f \<longleftrightarrow> (\<forall>w. \<exists>w'. f w = (Inr v, w'))"

lemma returns_bnd: "succeeds f \<Longrightarrow> (\<And>x. returns v (g x)) \<Longrightarrow> returns v (bnd f g)"
  unfolding succeeds_def returns_def bnd_def by (metis (no_types, lifting) old.prod.case old.sum.simps(6))

lemma opened_returns: "returns (OutcomeCreated, tkID t) (opened d subj rt rec msg p t st)"
  unfolding opened_def Let_def
  by (rule returns_bnd sure | simp only: returns_def ret_def | simp)+

definition demo_plain :: "(string, string) inbound_deps" where
  "demo_plain = demo_deps\<lparr>idTriage := False\<rparr>"

lemma demo_created:
  "\<exists>i w'. ingest demo_plain (SystemFor ''acme'') demo_route ''help@acme.io'' demo_letter demo_ruled = (Inr (OutcomeCreated, i), w')"
proof -
  have l: "msMessageID demo_letter = ''n1@x.org''" "msText demo_letter = ''Hello''" "msSubject demo_letter = ''Hi''" "msAttachments demo_letter = []"
    "ThreadIDs demo_letter = []" "rtTenantID demo_route = ''acme''" "rtMailboxID demo_route = ''m1''"
    by (simp_all add: demo_letter_def demo_route_def emptyMessage_def ThreadIDs_def Let_def)
  have tok: "ParseToken ''Hello'' = []" "ParseToken ''Hi'' = []" by (simp_all add: tokenAt_def)
  have d: "duplicate ''acme'' ''n1@x.org'' demo_ruled = (Inr None, demo_ruled)"
    by (simp add: duplicate_def FindCommentByMessageID_def FindTicketByExternalID_def run run_attempt Let_def demo_tables_def rows_def
        demo_comment_def demo_ticket_def)
  have r: "resolveIn ''acme'' \<lparr>tiMessageIDs = [], tiText = ''Hello'', tiSubject = ''Hi''\<rparr> demo_ruled = (Inr noMatch, demo_ruled)"
    by (simp add: resolveIn_def Resolve_def byToken_def tok) (simp add: ret_def)
  let ?t = "emailTicket (mintID demo_ruled) (SystemFor ''acme'') demo_route ''help@acme.io'' demo_letter"
  have i: "map_of (tickets demo_tables) (mintID demo_ruled) = None"
    using length_mintID [of demo_ruled] by (auto simp: demo_tables_def simp del: length_mintID)
  obtain w1 where c: "CreateTicket ?t (afterID demo_ruled) = (Inr (), w1)"
    using i by (simp add: CreateTicket_def run emailTicket_def SystemFor_def l Let_def demo_tables_def rows_def demo_ticket_def demo_mailbox_def)
  obtain w2 where "opened demo_plain (SystemFor ''acme'') demo_route ''help@acme.io'' demo_letter noPlan ?t [] w1 = (Inr (OutcomeCreated, tkID ?t), w2)"
    using opened_returns unfolding returns_def by blast
  then have "openTicket demo_plain (SystemFor ''acme'') demo_route ''help@acme.io'' demo_letter demo_ruled = (Inr (OutcomeCreated, tkID ?t), w2)"
    using c by (simp add: openTicket_def triageFor_def noPlan_def inCreate_def upload_def demo_plain_def l bnd_def NewID_eq attempt_def Let_def ret_def)
  then show ?thesis using d r by (simp add: ingest_def bnd_def map_err_def l noMatch_def)
qed

theorem ingest_once_witness:
  "\<exists>j w''. ingest demo_plain (SystemFor ''acme'') demo_route ''help@acme.io'' (demo_letter\<lparr>msText := ''Once more''\<rparr>)
     (later demo_plain [(demo_route, ''help@acme.io'', demo_letter\<lparr>msMessageID := ''n2@x.org''\<rparr>)]
        (snd (ingest demo_plain (SystemFor ''acme'') demo_route ''help@acme.io'' demo_letter demo_ruled))) = (Inr (OutcomeDuplicate, j), w'')"
proof -
  obtain i w' where "ingest demo_plain (SystemFor ''acme'') demo_route ''help@acme.io'' demo_letter demo_ruled = (Inr (OutcomeCreated, i), w')"
    using demo_created by blast
  then show ?thesis
    using ingest_once [OF demo_ruled_simps(1,4), of demo_plain demo_route "''help@acme.io''" demo_letter OutcomeCreated i w' demo_route
        "demo_letter\<lparr>msText := ''Once more''\<rparr>" "''help@acme.io''" "[(demo_route, ''help@acme.io'', demo_letter\<lparr>msMessageID := ''n2@x.org''\<rparr>)]"]
    by (auto simp: demo_route_def demo_letter_def)
qed

end
