(* ===== verification/InboundLive.thy ===== *)
theory InboundLive
  imports InboundExact
begin

text \<open>
  A message that can be taken is taken: with the relay token, within the limits, for an active
  mailbox, while store and object store work and the identifiers drawn are new, the edge accepts it.
\<close>

section \<open>Working services\<close>

definition ready :: "tables \<Rightarrow> unicode \<Rightarrow> (nat \<Rightarrow> nat \<Rightarrow> 8 word) \<Rightarrow> nat \<Rightarrow> 'a world_scheme \<Rightarrow> bool" where
  "ready D u E n w \<longleftrightarrow> db w = D \<and> ucd w = u \<and> failNext w = [] \<and> putErr w = None \<and> entropy w = E \<and> n \<le> draws w"

lemma ready_basic [keeps]:
  "preserves (ready D u E n) (fail m)" "preserves (ready D u E n) (failLocked m)" "preserves (ready D u E n) Now"
  "preserves (ready D u E n) NewID" "preserves (ready D u E n) (look f)" "preserves (ready D u E n) (Emit e)"
  "preserves (ready D u E n) (EmitEvent tn ev t ak)" "preserves (ready D u E n) (count c as)" "preserves (ready D u E n) (blobPut k d)"
  "preserves (ready D u E n) (blobDelete k)"
  by (auto simp: preserves_iff ready_def run fail_def failLocked_def Now_def NewID_eq look_def EmitEvent_def Publish_def count_def
      Emit_def Record_def afterID_def blobPut_def blobDelete_def op_defs Let_def split: sum.splits prod.splits option.splits)

lemma ready_metrics [keeps]:
  "preserves (ready D u E n) (MetricInbound x)" "preserves (ready D u E n) MetricRuleError"
  unfolding MetricInbound_def MetricRuleError_def by (intro keeps)+

lemma ready_engine [keeps]:
  "preserves (ready D u E n) (Forget i)" "preserves (ready D u E n) (cachePut j p)" "preserves (ready D u E n) (modify (\<lambda>w. w\<lparr>enEvals := k\<rparr>))"
  by (simp_all add: preserves_iff ready_def Forget_def cachePut_def modify_def)

lemma ready_reads [keeps]:
  "preserves (ready D u E n) (GetTicket tn i)" "preserves (ready D u E n) (FindTicketByExternalID tn i)"
  "preserves (ready D u E n) (FindCommentByMessageID tn i)" "preserves (ready D u E n) (RouteMailbox a)"
  "preserves (ready D u E n) (ListEnabledRules tn)"
  unfolding GetTicket_def FindTicketByExternalID_def FindCommentByMessageID_def RouteMailbox_def ListEnabledRules_def Let_def
  by (intro keeps)+

lemma ready_ops [keeps]:
  "preserves (ready D u E n) (auditInbound subj ev k i ds)" "preserves (ready D u E n) (ruleError tn r)"
  unfolding auditInbound_def ruleError_def Let_def by (intro keeps)+

lemma ready_firstFound [keeps]: "(\<And>x. preserves (ready D u E n) (f x)) \<Longrightarrow> preserves (ready D u E n) (firstFound f xs)"
  by (induction xs) (auto intro!: keeps)

lemma ready_resolve [keeps]: "preserves (ready D u E n) (resolveIn tn inp)"
  unfolding resolveIn_def Resolve_def byToken_def unlessMissing_def Let_def by (intro keeps)

lemma ready_evaluate [keeps]: "preserves (ready D u E n) (runRule ce cfg m r)"
  unfolding runRule_def Program_def compileCached_def engineEvaluate_def by (intro keeps)

lemma ready_decideRules [keeps]: "preserves (ready D u E n) (decideRules ce cfg u' tn m rs s)"
  by (induction rs arbitrary: s) (simp_all, (intro keeps | simp)+)

lemma ready_discard [keeps]: "preserves (ready D u E n) (discard st)"
  unfolding discard_def by (intro keeps)

lemma ready_upload [keeps]: "preserves (ready D u E n) (upload tn i msg)"
proof -
  have "preserves (ready D u E n) (uploadFrom tn i as out)" for as out
    by (induction as arbitrary: out) (simp_all, (intro keeps | simp)+)
  then show ?thesis unfolding upload_def by blast
qed

lemma ready_inbound [keeps]:
  "preserves (ready D u E n) (duplicate tn i)" "preserves (ready D u E n) (triageFor d subj rec msg)"
  unfolding duplicate_def triageFor_def Evaluate_def Decide_def Let_def by (intro keeps)+

section \<open>No step fails\<close>

text \<open>\<open>works D u E n f\<close>: on working services the operation returns a value; after \<open>keeps\<close> steps they still work.\<close>

definition works :: "tables \<Rightarrow> unicode \<Rightarrow> (nat \<Rightarrow> nat \<Rightarrow> 8 word) \<Rightarrow> nat \<Rightarrow> ('a world_scheme, 'b) op \<Rightarrow> bool" where
  "works D u E n f \<longleftrightarrow> triple (ready D u E n) f (\<lambda>_ _. True) (\<lambda>_ _. False)"

lemma works_sure: "succeeds f \<Longrightarrow> works D u E n f"
  unfolding works_def succeeds_def triple_def by (metis (mono_tags, lifting) case_prod_conv old.sum.simps(6))

lemma works_bnd: "works D u E n f \<Longrightarrow> preserves (ready D u E n) f \<Longrightarrow> (\<And>x. works D u E n (g x)) \<Longrightarrow> works D u E n (bnd f g)"
  unfolding works_def
  by (rule triple_bnd [where R = "\<lambda>_. ready D u E n"])
    (auto simp: preserves_def triple_def split: prod.splits sum.splits)

lemma works_cases:
  "(b \<Longrightarrow> works D u E n f) \<Longrightarrow> (\<not> b \<Longrightarrow> works D u E n g) \<Longrightarrow> works D u E n (if b then f else g)"
  "works D u E n f1 \<Longrightarrow> (\<And>y. works D u E n (g1 y)) \<Longrightarrow> works D u E n (case x1 of None \<Rightarrow> f1 | Some y \<Rightarrow> g1 y)"
  by (auto split: option.splits)

text \<open>A lookup that finds a row or reports that there is none.\<close>

definition looks_up :: "tables \<Rightarrow> unicode \<Rightarrow> (nat \<Rightarrow> nat \<Rightarrow> 8 word) \<Rightarrow> nat \<Rightarrow> ('a world_scheme, 'b) op \<Rightarrow> bool" where
  "looks_up D u E n f \<longleftrightarrow> (\<forall>w. ready D u E n w \<longrightarrow> f w = (Inl RepoNotFound, w) \<or> (\<exists>x. f w = (Inr x, w)))"

lemma looks_up_reads:
  "looks_up D u E n (GetTicket tn i)" "looks_up D u E n (FindTicketByExternalID tn i)" "looks_up D u E n (FindCommentByMessageID tn i)"
  by (auto simp: looks_up_def ready_def GetTicket_def FindTicketByExternalID_def FindCommentByMessageID_def run ticket_of_def scoped_def Let_def
      split: option.splits if_splits sum.splits)

lemma works_lookup:
  "looks_up D u E n f \<Longrightarrow> works D u E n (g (Inl RepoNotFound)) \<Longrightarrow> (\<And>x. works D u E n (g (Inr x))) \<Longrightarrow> works D u E n (bnd (attempt f) g)"
proof -
  assume f: "looks_up D u E n f" and g: "works D u E n (g (Inl RepoNotFound))" "\<And>x. works D u E n (g (Inr x))"
  have "case bnd (attempt f) g w of (Inr x, w') \<Rightarrow> True | (Inl e, w') \<Rightarrow> False" if w: "ready D u E n w" for w
  proof -
    obtain r where r: "f w = (r, w)" "r = Inl RepoNotFound \<or> (\<exists>x. r = Inr x)" using f w unfolding looks_up_def by blast
    then have "works D u E n (g r)" using g by auto
    then show ?thesis using r(1) w by (simp add: works_def triple_def bnd_def attempt_def)
  qed
  then show ?thesis by (simp add: works_def triple_def)
qed

lemmas works_ends = works_sure [OF sure_basic(1)] works_sure [OF sure_basic(6)]

lemma works_firstFound:
  assumes "\<And>x. works D u E n (f x)" "\<And>x. preserves (ready D u E n) (f x)"
  shows "works D u E n (firstFound f xs)"
  by (induction xs) (auto intro!: works_bnd works_cases works_ends assms)

lemma works_resolve:
  assumes "tn \<noteq> []"
  shows "works D u E n (resolveIn tn inp)"
proof -
  have m: "works D u E n (unlessMissing k f)" if "looks_up D u E n f" for k f
    unfolding unlessMissing_def by (rule works_lookup [OF that]) (simp_all add: works_ends)
  have p: "preserves (ready D u E n) (unlessMissing k f)" if "preserves (ready D u E n) f" for k f
    unfolding unlessMissing_def by (intro keeps that)
  have t: "works D u E n (byToken GetTicket tn c)" "preserves (ready D u E n) (byToken GetTicket tn c)" for c
    unfolding byToken_def Let_def by (intro works_cases m looks_up_reads works_ends keeps p)+
  show ?thesis
    unfolding resolveIn_def Resolve_def using assms
    by (simp, intro works_bnd works_firstFound works_cases m p t looks_up_reads keeps works_ends)
qed

lemma works_duplicate: "works D u E n (duplicate tn i)"
  unfolding duplicate_def
  by (rule works_cases works_lookup looks_up_reads works_ends | simp)+

lemma works_upload: "works D u E n (upload tn i msg :: ('z world_scheme, attachment list) op)"
proof -
  have b: "works D u E n (bnd (attempt (blobPut k c)) g)" if g: "\<And>x. works D u E n (g (Inr x))"
    for k c and g :: "string res \<Rightarrow> ('z world_scheme, attachment list) op"
  proof -
    have "case bnd (attempt (blobPut k c)) g w of (Inr x, w') \<Rightarrow> True | (Inl e, w') \<Rightarrow> False" if w: "ready D u E n w" for w :: "'z world_scheme"
    proof -
      obtain x w' where x: "blobPut k c w = (Inr x, w')" using w by (simp add: ready_def blobPut_def op_defs)
      have "ready D u E n w'" by (rule preservesE [OF ready_basic(9) w x])
      with g [of x] x show ?thesis by (simp add: works_def triple_def bnd_def attempt_def)
    qed
    then show ?thesis by (simp add: works_def triple_def)
  qed
  have "works D u E n (uploadFrom tn i as out :: ('z world_scheme, attachment list) op)" for as out
    by (induction as arbitrary: out) (auto intro!: works_bnd [OF works_ends(2) ready_basic(4)] b works_ends)
  then show ?thesis unfolding upload_def by blast
qed

text \<open>No stored ticket has an identifier made with the random bytes still to be drawn.\<close>

definition unused :: "tables \<Rightarrow> (nat \<Rightarrow> nat \<Rightarrow> 8 word) \<Rightarrow> nat \<Rightarrow> bool" where
  "unused D E n \<longleftrightarrow> (\<forall>k ms seq. n \<le> k \<longrightarrow> map_of (tickets D) (idText (idBytes ms seq (E k))) = None)"

lemma works_NewID:
  fixes g :: "string \<Rightarrow> ('z world_scheme, 'b) op"
  assumes "unused D E n" and "\<And>i. map_of (tickets D) i = None \<Longrightarrow> works D u E n (g i)"
  shows "works D u E n (bnd NewID g)"
proof -
  have "case bnd NewID g w of (Inr x, w') \<Rightarrow> True | (Inl e, w') \<Rightarrow> False" if w: "ready D u E n w" for w :: "'z world_scheme"
  proof -
    have "map_of (tickets D) (mintID w) = None"
      using assms(1) w by (auto simp: unused_def ready_def mintID_def Let_def split: prod.splits)
    moreover have "ready D u E n (afterID w)" by (rule preservesE [OF ready_basic(4) w NewID_eq])
    ultimately show ?thesis using assms(2) [of "mintID w"] by (simp add: works_def triple_def bnd_def NewID_eq)
  qed
  then show ?thesis by (simp add: works_def triple_def)
qed

text \<open>The only way a new ticket is refused is that the message already opened one, and then that one is found.\<close>

lemma CreateTicket_ready:
  fixes w :: "'z world_scheme"
  assumes w: "ready D u E n w" and "map_of (tickets D) (tkID t) = None"
    and "map_of (mailboxes D) (tkMailboxID t) = Some mb" "mbTenantID mb = tkTenantID t"
  shows "(\<exists>w'. CreateTicket t w = (Inr (), w')) \<or>
    (CreateTicket t w = (Inl RepoConflict, w) \<and> tkExternalID t \<noteq> [] \<and>
      (\<exists>x \<in> set (rows (tickets D)). tkTenantID x = tkTenantID t \<and> tkExternalID x = tkExternalID t))"
  using assms by (auto simp: ready_def CreateTicket_def run Let_def)

lemma FindTicket_ready:
  fixes w :: "'z world_scheme"
  assumes "ready D u E n w" "i \<noteq> []" "x \<in> set (rows (tickets D))" "tkTenantID x = tn" "tkExternalID x = i"
  shows "\<exists>y. FindTicketByExternalID tn i w = (Inr y, w)"
proof -
  have "find (\<lambda>t. tkTenantID t = tn \<and> tkExternalID t = i) (rows (tickets D)) \<noteq> None"
    using assms(3-5) by (auto simp: find_None_iff)
  with assms(1,2) show ?thesis by (auto simp: ready_def FindTicketByExternalID_def run Let_def)
qed

lemma works_create:
  assumes "unused D E n" and m: "map_of (mailboxes D) (rtMailboxID rt) = Some mb" "mbTenantID mb = suTenantID subj"
  shows "works D u E n (inCreate d subj rt rec msg p :: ('z desk_scheme, string \<times> string) op)"
proof -
  define after where "after t st r = (case r of
          Inl e \<Rightarrow>
            bnd (discard st) (\<lambda>_.
            if err_is e RepoConflict \<and> tkExternalID t \<noteq> [] then
              bnd (attempt (FindTicketByExternalID (suTenantID subj) (tkExternalID t))) (\<lambda>f.
              case f of
                Inr ex \<Rightarrow>
                  bnd (auditInbound subj InboundDuplicate SubjectTicket (tkID ex) []) (\<lambda>_. ret (OutcomeDuplicate, tkID ex))
              | Inl _ \<Rightarrow> throw (Retry e))
            else throw (Retry e))
        | Inr _ \<Rightarrow> (opened d subj rt rec msg p t st :: ('z desk_scheme, string \<times> string) op))" for t st and r :: "unit res"
  have c: "works D u E n (bnd (attempt (CreateTicket t)) (after t st))"
    if t: "map_of (tickets D) (tkID t) = None" "tkMailboxID t = rtMailboxID rt" "tkTenantID t = suTenantID subj" for t st
  proof -
    have "\<exists>x w'. bnd (attempt (CreateTicket t)) (after t st) w = (Inr x, w')" if w: "ready D u E n w" for w
    proof -
      consider (stored) w' where "CreateTicket t w = (Inr (), w')"
        | (taken) x where "x \<in> set (rows (tickets D))" "tkTenantID x = suTenantID subj" "tkExternalID x = tkExternalID t"
            "CreateTicket t w = (Inl RepoConflict, w)" "tkExternalID t \<noteq> []"
        using CreateTicket_ready [OF w t(1), of mb] m t by auto
      then show ?thesis
      proof cases
        case stored
        obtain x v where "opened d subj rt rec msg p t st w' = (Inr x, v)" using sure_written(2) unfolding succeeds_def by blast
        with stored show ?thesis by (simp add: bnd_def attempt_def after_def)
      next
        case taken
        obtain z w1 where dc: "discard st w = (Inr z, w1)" using sure_discard unfolding succeeds_def by blast
        have "ready D u E n w1" by (rule preservesE [OF ready_discard w dc])
        then obtain y where "FindTicketByExternalID (suTenantID subj) (tkExternalID t) w1 = (Inr y, w1)"
          using FindTicket_ready taken by blast
        moreover obtain z' v where "auditInbound subj InboundDuplicate SubjectTicket (tkID y) [] w1 = (Inr z', v)"
          using sure_ops(3) unfolding succeeds_def by blast
        ultimately show ?thesis using taken(4,5) dc by (simp add: bnd_def attempt_def after_def ret_def)
      qed
    qed
    then show ?thesis by (fastforce simp: works_def triple_def)
  qed
  show ?thesis
    unfolding inCreate_def Let_def
    by (rule works_NewID [OF assms(1)], rule works_bnd [OF works_upload ready_upload], rule c [unfolded after_def]) (simp_all add: emailTicket_def)
qed

text \<open>A reply fails only because its ticket is gone, and then nothing was written.\<close>

lemma CreateComment_ready:
  fixes w :: "'z world_scheme"
  assumes "ready D u E n w" "CreateComment c w = (Inl e, w')"
  shows "w' = w \<and> (e = RepoNotFound \<or> e = RepoConflict)"
  using assms by (auto simp: ready_def CreateComment_def run Let_def ticket_of_def scoped_def split: if_splits option.splits sum.splits)

definition misses_ticket :: "tables \<Rightarrow> unicode \<Rightarrow> (nat \<Rightarrow> nat \<Rightarrow> 8 word) \<Rightarrow> nat \<Rightarrow> ('a world_scheme, 'b) op \<Rightarrow> bool" where
  "misses_ticket D u E n f \<longleftrightarrow> triple (ready D u E n) f (\<lambda>_ _. True) (\<lambda>e w. e = InTicketGone \<and> ready D u E n w)"

lemma misses_bnd:
  "works D u E n f \<Longrightarrow> preserves (ready D u E n) f \<Longrightarrow> (\<And>x. misses_ticket D u E n (g x)) \<Longrightarrow> misses_ticket D u E n (bnd f g)"
  unfolding works_def misses_ticket_def
  by (rule triple_bnd [where R = "\<lambda>_. ready D u E n"])
    (auto simp: preserves_def triple_def split: prod.splits sum.splits)

lemma misses_reply: "misses_ticket D u E n (inReply subj m msg :: ('z desk_scheme, string \<times> string) op)"
proof -
  define after where "after c st r = (case r of
          Inl e \<Rightarrow>
            bnd (discard st) (\<lambda>_.
            if err_is e RepoConflict then
              bnd (auditInbound subj InboundDuplicate SubjectTicket (maTicketID m) []) (\<lambda>_. ret (OutcomeDuplicate, maTicketID m))
            else if err_is e RepoNotFound then throw InTicketGone
            else throw (Retry e))
        | Inr _ \<Rightarrow> (replied subj m msg (cmID c) st :: ('z desk_scheme, string \<times> string) op))" for c :: comment and st and r :: "unit res"
  have "misses_ticket D u E n (bnd (attempt (CreateComment c)) (after c st))" for c st
  proof -
    have "case bnd (attempt (CreateComment c)) (after c st) w of (Inr x, w') \<Rightarrow> True | (Inl e, w') \<Rightarrow> e = InTicketGone \<and> ready D u E n w'"
      if w: "ready D u E n w" for w
    proof (cases "CreateComment c w")
      case (Pair r w1)
      show ?thesis
      proof (cases r)
        case (Inr x)
        obtain y v where "replied subj m msg (cmID c) st w1 = (Inr y, v)" using sure_written(1) unfolding succeeds_def by blast
        with Inr Pair show ?thesis by (simp add: bnd_def attempt_def after_def)
      next
        case (Inl e)
        with Pair CreateComment_ready [OF w, of c e w1] have e: "w1 = w" "e = RepoNotFound \<or> e = RepoConflict" by auto
        obtain z w2 where dc: "discard st w = (Inr z, w2)" using sure_discard unfolding succeeds_def by blast
        have w2: "ready D u E n w2" by (rule preservesE [OF ready_discard w dc])
        obtain z' v where "auditInbound subj InboundDuplicate SubjectTicket (maTicketID m) [] w2 = (Inr z', v)"
          using sure_ops(3) unfolding succeeds_def by blast
        with Inl Pair e dc w2 show ?thesis by (auto simp: bnd_def attempt_def after_def ret_def throw_def)
      qed
    qed
    then show ?thesis by (simp add: misses_ticket_def triple_def)
  qed
  note c = this [unfolded after_def]
  show ?thesis
    unfolding inReply_def Let_def
    by (rule misses_bnd [OF works_upload ready_upload], rule misses_bnd [OF works_ends(2) ready_basic(4)], rule c)
qed

lemma works_ingest:
  assumes "unused D E n" "map_of (mailboxes D) (rtMailboxID rt) = Some mb" "mbTenantID mb = suTenantID subj" "rtTenantID rt \<noteq> []"
  shows "works D u E n (ingest d subj rt rec msg :: (('p, 'z) ruled_scheme, string \<times> string) op)"
proof -
  have o: "works D u E n (openTicket d subj rt rec msg :: (('p, 'z) ruled_scheme, string \<times> string) op)"
    unfolding openTicket_def
    by (rule works_bnd [OF works_sure [OF sure_rest(3)] ready_inbound(2)], rule works_cases, rule works_sure, intro sure)
      (rule works_create [OF assms(1-3)])
  have r: "works D u E n (bnd (attempt (inReply subj m msg)) (\<lambda>r.
           case r of
             Inr x \<Rightarrow> ret x
           | Inl e \<Rightarrow> if err_is e InTicketGone then openTicket d subj rt rec msg else throw e) :: (('p, 'z) ruled_scheme, string \<times> string) op)"
    (is "works D u E n ?f") for m
  proof -
    have "case ?f w of (Inr x, w') \<Rightarrow> True | (Inl e, w') \<Rightarrow> False" if w: "ready D u E n w" for w
    proof (cases "inReply subj m msg w")
      case (Pair y w1)
      then have "y = Inl e \<Longrightarrow> e = InTicketGone \<and> ready D u E n w1" for e
        using tripleD(2) [OF misses_reply [unfolded misses_ticket_def] w] by blast
      with Pair o show ?thesis by (cases y) (auto simp: bnd_def attempt_def ret_def works_def triple_def)
    qed
    then show ?thesis by (simp add: works_def triple_def)
  qed
  have m: "works D u E n (map_err Retry (resolveIn (rtTenantID rt) inp))" for inp
    using works_resolve [OF assms(4)] unfolding works_def by (rule triple_map_err)
  show ?thesis
    unfolding ingest_def
    by (rule works_bnd [OF works_duplicate ready_inbound(1)], rule works_cases, rule works_bnd [OF m], intro keeps, rule works_cases, rule r, rule o)
      (rule works_sure, intro sure)
qed

section \<open>The edge accepts\<close>

text \<open>What the relay must present: the token, a body within the limits, the address of an active mailbox.\<close>

definition presentable :: "('ast, 'p) inbound_deps \<Rightarrow> int \<Rightarrow> request \<Rightarrow> mailbox \<Rightarrow> 'a world_scheme \<Rightarrow> bool" where
  "presentable d mx r mb w \<longleftrightarrow>
     fst (authenticate d (ucd w) (sha256 w) r) = 0 \<and> rqReadErr r = None \<and> rqContentLength r \<le> bodyLimit d \<and>
     int (length (rqBody r)) \<le> bodyLimit d \<and> (mx > 0 \<longrightarrow> int (length (rqBody r)) \<le> mx) \<and>
     mb \<in> set (rows (mailboxes (db w))) \<and> mbActive mb \<and> mbTenantID mb \<noteq> [] \<and> mbAddress mb \<noteq> [] \<and>
     rqHeader r HeaderIrisRecipient \<noteq> [] \<and> NormalizeRecipient (ucd w) (rqHeader r HeaderIrisRecipient) \<noteq> [] \<and>
     mbAddress mb = normAddr (ucd w) (NormalizeRecipient (ucd w) (rqHeader r HeaderIrisRecipient))"

lemma route_ready:
  fixes w :: "'z mem_scheme"
  assumes "failNext w = []" "store_ok w" "mb \<in> set (rows (mailboxes (db w)))" "mbActive mb" "mbAddress mb \<noteq> []"
    and a: "rqHeader r HeaderIrisRecipient = a" "a \<noteq> []" "NormalizeRecipient (ucd w) a \<noteq> []"
    and "mbAddress mb = normAddr (ucd w) (NormalizeRecipient (ucd w) a)"
  shows "\<exists>rt rec. route r msg w = (Inr (rt, rec), w) \<and> rtTenantID rt = mbTenantID mb \<and> rtMailboxID rt = mbID mb"
proof -
  let ?b = "normAddr (ucd w) (NormalizeRecipient (ucd w) a)"
  have "find (\<lambda>x. mbAddress x = ?b \<and> ?b \<noteq> []) (rows (mailboxes (db w))) = Some mb"
    by (rule find_unique) (use assms in \<open>auto simp: store_ok_def address_unique_def inj_on_def dest!: mem_invD(12)\<close>)
  then show ?thesis
    using assms by (simp add: route_def candidates_def maxRecipientLookups_def run RouteMailbox_def Let_def run_attempt)
qed

text \<open>
  C5: A message that can be taken is taken. While neither the store nor the object store fails, and no ticket uses an identifier
  still to be drawn, a post with the relay token, within the limits, for an active mailbox, is accepted,
  whatever the message, its attachments, the rules and the relay of the desk are like.
\<close>

theorem delivery_accepted:
  fixes w :: "('p, 'z) ruled_scheme"
  assumes "store_ok w" "failNext w = []" "putErr w = None" "presentable d mx r mb w" "unused (db w) (entropy w) (draws w)"
  shows "\<exists>resp w'. serveEdge (Some d) mx ''POST'' PathMail r w = (Inr resp, w') \<and> rsStatus resp = 202"
proof -
  have r: "(if mx > 0 then maxBytesReader mx r else r) = r" using assms(4) by (auto simp: presentable_def maxBytesReader_def)
  have len: "int (length (rqBody r)) \<le> bodyLimit d" using assms(4) by (simp add: presentable_def)
  then have "length (rqBody r) < nat (bodyLimit d + 1)" by linarith
  then have body: "readBody (bodyLimit d) r = (rqBody r, None)"
    using assms(4) by (simp add: presentable_def readBody_def Let_def)
  obtain msg where msg: "Parse ((idLib d)\<lparr>mlTables := ucd w\<rparr>) (rqBody r) (idLimits d) = Inr msg"
    using len by (cases "Parse ((idLib d)\<lparr>mlTables := ucd w\<rparr>) (rqBody r) (idLimits d)")
      (auto simp: Parse_def Let_def orDefaults_def bodyLimit_def split: option.splits prod.splits if_splits)
  have "serveEdge (Some d) mx ''POST'' PathMail r w = deliverMail d r msg w"
    using assms(4) len body msg unfolding serveEdge_def r
    by (simp add: ServeHTTP_def run presentable_def Let_def split_beta)
  moreover obtain rt rec where rt: "route r msg w = (Inr (rt, rec), w)" "rtTenantID rt = mbTenantID mb" "rtMailboxID rt = mbID mb"
    using route_ready [OF assms(2,1), of mb r] assms(4) unfolding presentable_def by blast
  moreover have "\<exists>oc i w'. ingest d (SystemFor (rtTenantID rt)) rt rec (announced r msg) w = (Inr (oc, i), w')"
  proof -
    have "map_of (mailboxes (db w)) (rtMailboxID rt) = Some mb"
      using assms(1,4) rt(3) rows_lookup_iff [OF mem_invD(6), of "ucd w" "db w" mb] by (simp add: presentable_def store_ok_def)
    then have "works (db w) (ucd w) (entropy w) (draws w) (ingest d (SystemFor (rtTenantID rt)) rt rec (announced r msg)
        :: (('p, 'z) ruled_scheme, string \<times> string) op)"
      by (rule works_ingest [OF assms(5)]) (use assms(4) rt(2) in \<open>simp_all add: SystemFor_def presentable_def\<close>)
    then show ?thesis using assms(2,3) by (fastforce simp: works_def triple_def ready_def split: sum.splits)
  qed
  moreover have "deliverMail d r msg w =
      (case ingest d (SystemFor (rtTenantID rt)) rt rec (announced r msg) w of
         (Inl _, w') \<Rightarrow> inFail (rtTenantID rt) w'
       | (Inr (oc, i), w') \<Rightarrow> bnd (MetricInbound oc) (\<lambda>_. ret (accepted_response oc i)) w')"
    using rt(1) by (auto simp: deliverMail_def announced_def bnd_def [of "attempt _"] attempt_def Let_def split: sum.splits prod.splits)
  moreover have "\<exists>w''. bnd (MetricInbound oc) (\<lambda>_. ret (accepted_response oc i)) w' = (Inr (accepted_response oc i), w'')"
    for oc i and w' :: "('p, 'z) ruled_scheme"
    by (cases "meOn w'") (simp_all add: MetricInbound_def count_def op_defs)
  ultimately show ?thesis by (fastforce simp: accepted_response_def)
qed

lemma demo_recipient: "NormalizeRecipient ascii_tables ''help@acme.io'' = ''help@acme.io''" "normAddr ascii_tables ''help@acme.io'' = ''help@acme.io''"
proof -
  have "bareAddress ascii_tables ''help@acme.io''"
    by (simp add: bareAddress_def dotAtom_def isAtext_def before_first_def ValidString_ascii runes_ascii byte_def Let_def)
  then show "NormalizeRecipient ascii_tables ''help@acme.io'' = ''help@acme.io''"
    by (simp add: NormalizeRecipient_def cleanAddress_def str_eval hasControl_def IsControl_def maxAddressBytes_def Let_def)
  show "normAddr ascii_tables ''help@acme.io'' = ''help@acme.io''" by (simp add: normAddr_def str_eval)
qed

theorem delivery_accepted_witness:
  "\<exists>resp w'. serveEdge (Some demo_deps) 0 ''POST'' PathMail demo_post demo_ruled = (Inr resp, w') \<and> rsStatus resp = 202"
proof (rule delivery_accepted [OF demo_ruled_simps(4,1)])
  show "putErr demo_ruled = None" by (simp add: demo_ruled_def demo_desk_def demo_world_defs desk.defs ruled.defs)
  have mb: "rows (mailboxes demo_tables) = [demo_from]" "mbAddress demo_from = ''help@acme.io''" "mbActive demo_from" "mbTenantID demo_from = ''acme''"
    by (simp_all add: demo_from_def demo_tables_def demo_mailbox_def rows_def)
  have hd: "rqHeader demo_post HeaderToken = ''token''" "rqHeader demo_post HeaderIrisRecipient = ''help@acme.io''"
    by (simp_all add: demo_post_def HeaderToken_def HeaderIrisRecipient_def)
  have a: "fst (authenticate demo_deps ascii_tables (sha256 demo_ruled) demo_post) = 0"
    by (simp add: authenticate_def hd demo_deps_def)
  have b: "bodyLimit demo_deps = 10485760" by (simp add: bodyLimit_def demo_deps_def DefaultLimits_def)
  show "presentable demo_deps 0 demo_post demo_from demo_ruled"
    unfolding presentable_def by (simp add: a b hd mb demo_recipient) (simp add: demo_post_def)
  have "4 \<le> length (idText bs)" for bs by (simp add: idText_def Let_def)
  moreover have "length ''t1'' < 4" "length ''t2'' < 4" by simp_all
  ultimately have "idText bs \<noteq> ''t1''" "idText bs \<noteq> ''t2''" for bs by (metis not_le)+
  then show "unused (db demo_ruled) (entropy demo_ruled) (draws demo_ruled)" by (simp add: unused_def demo_tables_def)
qed

end
