(* ===== verification/StreamClient.thy ===== *)
theory StreamClient
  imports RuleEngine
begin

text \<open>
  The client of the event streams (\<open>internal/stream/client.go\<close>): stream identifiers, the
  in-process client \<open>Memory\<close> and the rate limiter. A method of the client is an operation on the
  record \<open>memory\<close>; the time it reads is an argument. A blocking read returns what the stream holds when it
  returns, so it is the same operation at a later state. The Valkey client is the interface only.
\<close>

section \<open>Identifiers\<close>

text \<open>\<open>strconv.ParseInt(s, 10, 64)\<close>: the value, clamped when out of range, and whether there is no error.\<close>

definition isDigit :: "char \<Rightarrow> bool" where
  "isDigit c \<longleftrightarrow> 48 \<le> byte c \<and> byte c \<le> 57"

datatype uint_res = UintSyntax | UintRange | UintVal nat

fun parseUint :: "nat \<Rightarrow> string \<Rightarrow> uint_res" where
  "parseUint n [] = UintVal n"
| "parseUint n (c # s) =
     (if \<not> isDigit c then UintSyntax
      else if 10 * n + (byte c - 48) \<ge> 2 ^ 64 then UintRange
      else parseUint (10 * n + (byte c - 48)) s)"

definition ParseInt :: "string \<Rightarrow> int \<times> bool" where
  "ParseInt s =
     (let neg = (s \<noteq> [] \<and> hd s = CHR ''-'');
          digits = (if s \<noteq> [] \<and> hd s \<in> {CHR ''-'', CHR ''+''} then tl s else s)
      in if digits = [] then (0, False)
         else
         case parseUint 0 digits of
           UintSyntax \<Rightarrow> (0, False)
         | UintRange \<Rightarrow> (if neg then - (2 ^ 63) else 2 ^ 63 - 1, False)
         | UintVal n \<Rightarrow>
             if \<not> neg \<and> n \<ge> 2 ^ 63 then (2 ^ 63 - 1, False)
             else if neg \<and> n > 2 ^ 63 then (- (2 ^ 63), False)
             else (if neg then - int n else int n, True))"

definition streamID :: "time \<Rightarrow> 64 word \<Rightarrow> string" where
  "streamID at seq = Itoa (sint (UnixMilli at)) @ ''-'' @ Itoa (sint seq)"

definition ParseID :: "string \<Rightarrow> int \<times> int \<times> bool" where
  "ParseID i =
     (if CHR ''-'' \<notin> set i then (0, 0, False)
      else
      (let a = before_first CHR ''-'' i;
           (ms, ok1) = ParseInt a;
           (seq, ok2) = ParseInt (drop (Suc (length a)) i)
       in (ms, seq, ok1 \<and> ok2)))"

definition Less :: "string \<Rightarrow> string \<Rightarrow> bool" where
  "Less a b =
     (let (am, as, _) = ParseID a; (bm, bs, _) = ParseID b
      in if am \<noteq> bm then am < bm else as < bs)"

section \<open>The in-process client\<close>

record entry =
  enID :: string
  enFields :: "(string \<times> string) list"

definition field :: "entry \<Rightarrow> string \<Rightarrow> string" where
  "field e k = (case map_of (enFields e) k of None \<Rightarrow> [] | Some v \<Rightarrow> v)"

record counter =
  ctN :: int
  ctExp :: time

record memory =
  mmStreams :: "entry list table"
  mmCounters :: "counter table"
  mmSeq :: "64 word"
  mmErr :: "err option"

definition NewMemory :: memory where
  "NewMemory = \<lparr>mmStreams = [], mmCounters = [], mmSeq = 0, mmErr = None\<rparr>"

definition SetErr :: "err option \<Rightarrow> (memory, unit) op" where
  "SetErr e = modify (\<lambda>m. m\<lparr>mmErr := e\<rparr>)"

definition streamOf :: "memory \<Rightarrow> string \<Rightarrow> entry list" where
  "streamOf m key = (case map_of (mmStreams m) key of None \<Rightarrow> [] | Some es \<Rightarrow> es)"

definition outage :: "(memory, unit) op" where
  "outage = bnd (fetch mmErr) (\<lambda>e. case e of Some x \<Rightarrow> throw x | None \<Rightarrow> ret ())"

text \<open>The newest \<open>maxLen\<close> entries.\<close>

definition capped :: "int \<Rightarrow> entry list \<Rightarrow> entry list" where
  "capped maxLen es = (if maxLen > 0 \<and> int (length es) > maxLen then drop (length es - nat maxLen) es else es)"

definition XAdd :: "time \<Rightarrow> string \<Rightarrow> (string \<times> string) list \<Rightarrow> int \<Rightarrow> (memory, string) op" where
  "XAdd now key fs maxLen =
     bnd outage (\<lambda>_.
     bnd (modify (\<lambda>m. m\<lparr>mmSeq := mmSeq m + 1\<rparr>)) (\<lambda>_.
     bnd (fetch (\<lambda>m. streamID now (mmSeq m))) (\<lambda>i.
     bnd (modify (\<lambda>m. m\<lparr>mmStreams := AList.update key
            (capped maxLen (streamOf m key @ [\<lparr>enID = i, enFields = fs\<rparr>])) (mmStreams m)\<rparr>)) (\<lambda>_.
     ret i))))"

definition after :: "memory \<Rightarrow> string \<Rightarrow> string \<Rightarrow> int \<Rightarrow> entry list" where
  "after m key fromID lim =
     (let es = filter (\<lambda>e. fromID = [] \<or> Less fromID (enID e)) (streamOf m key)
      in if lim > 0 then take (nat lim) es else es)"

definition XRead :: "string \<Rightarrow> string \<Rightarrow> int \<Rightarrow> (memory, entry list) op" where
  "XRead key fromID lim =
     bnd outage (\<lambda>_.
     fetch (\<lambda>m.
       let from = (if fromID \<in> {[], ''$''}
                   then (if streamOf m key = [] then ''0-0'' else enID (last (streamOf m key)))
                   else fromID)
       in after m key from lim))"

definition XRange :: "string \<Rightarrow> string \<Rightarrow> int \<Rightarrow> (memory, entry list) op" where
  "XRange key fromID lim = bnd outage (\<lambda>_. fetch (\<lambda>m. after m key fromID lim))"

definition XLast :: "string \<Rightarrow> (memory, string) op" where
  "XLast key = bnd outage (\<lambda>_. fetch (\<lambda>m. if streamOf m key = [] then [] else enID (last (streamOf m key))))"

definition XTrimMinID :: "string \<Rightarrow> string \<Rightarrow> (memory, unit) op" where
  "XTrimMinID key minID =
     bnd outage (\<lambda>_.
     modify (\<lambda>m. m\<lparr>mmStreams := AList.update key (filter (\<lambda>e. \<not> Less (enID e) minID) (streamOf m key)) (mmStreams m)\<rparr>))"

definition Incr :: "time \<Rightarrow> string \<Rightarrow> int \<Rightarrow> (memory, int) op" where
  "Incr now key ttl =
     bnd outage (\<lambda>_.
     bnd (fetch (\<lambda>m.
       let c = (case map_of (mmCounters m) key of None \<Rightarrow> \<lparr>ctN = 0, ctExp = 0\<rparr> | Some c \<Rightarrow> c);
           c' = (if ctN c = 0 \<or> (ctExp c \<noteq> 0 \<and> \<not> now < ctExp c)
                 then \<lparr>ctN = 0, ctExp = (if ttl > 0 then now + ttl else 0)\<rparr> else c)
       in c'\<lparr>ctN := ctN c' + 1\<rparr>)) (\<lambda>c.
     bnd (modify (\<lambda>m. m\<lparr>mmCounters := AList.update key c (mmCounters m)\<rparr>)) (\<lambda>_.
     ret (ctN c))))"

definition memPing :: "(memory, unit) op" where
  "memPing = outage"

definition memClose :: "(memory, unit) op" where
  "memClose = modify (\<lambda>m. m\<lparr>mmStreams := [], mmCounters := []\<rparr>)"

definition memLen :: "string \<Rightarrow> memory \<Rightarrow> nat" where
  "memLen key m = length (streamOf m key)"

section \<open>The rate limiter\<close>

text \<open>\<open>at.Unix()/60\<close> rounds towards zero.\<close>

definition minuteOf :: "time \<Rightarrow> int" where
  "minuteOf at = (let s = (at - unixEpoch) div 1000000000 in if s < 0 then - ((- s) div 60) else s div 60)"

definition RateKey :: "string \<Rightarrow> string \<Rightarrow> time \<Rightarrow> string" where
  "RateKey kind subject at = ''ticket:rl:'' @ kind @ '':'' @ subject @ '':'' @ Itoa (minuteOf at)"

text \<open>A failure of the counter counts as limited and is reported with it.\<close>

definition Limited :: "time \<Rightarrow> string \<Rightarrow> string \<Rightarrow> int \<Rightarrow> time \<Rightarrow> (memory, bool \<times> err option) op" where
  "Limited now kind subject limit at =
     (if limit \<le> 0 then ret (False, None)
      else
      bnd (attempt (Incr now (RateKey kind subject at) (2 * 60 * 1000000000))) (\<lambda>r.
      ret (case r of Inl e \<Rightarrow> (True, Some e) | Inr n \<Rightarrow> (n > limit, None))))"

end
