(* ===== verification/StreamHub.thy ===== *)
theory StreamHub
  imports StreamClient
begin

text \<open>
  The hub that fans tenant streams out to the open connections (\<open>internal/stream/hub.go\<close>) and the
  server-sent events written for one of them (\<open>sse.go\<close>). Goroutines interleave at the locks: what a goroutine does
  between two critical sections is one step, and what it still has to do (a read it has begun, too) is kept in the
  state, as the batch and the jobs of a tenant loop or as the replay of a subscription. A pointer to a
  \<open>tenantSub\<close> is its generation number, a subscription is a handle.
\<close>

section \<open>Data\<close>

definition MaxPayload :: nat where "MaxPayload = 16 * 1024"
definition MaxTargets :: nat where "MaxTargets = 1000"
definition DefaultMaxLen :: int where "DefaultMaxLen = 10000"
definition connBuffer :: nat where "connBuffer = 32"

definition Reserved :: "string \<Rightarrow> bool" where
  "Reserved t \<longleftrightarrow> t \<in> {''issued'', ''renewed'', ''revoked'', ''reset'', ''bye''}"

record hub_config =
  hcReplayWindow :: int
  hcStreamsPerUser :: int
  hcStreamsPerTenant :: int
  hcMaxLen :: int
  hcTrimInterval :: int
  hcReadBlock :: int
  hcRetryDelay :: int

record sevent =
  svID :: string
  svType :: string
  svData :: string

definition Key :: "string \<Rightarrow> string" where
  "Key tenantID = ''platform:events:'' @ tenantID"

text \<open>\<open>sbQueue\<close> is the buffered channel, \<open>sbOut\<close> what its reader has taken from it.\<close>

record subscription =
  sbTenant :: string
  sbUser :: string
  sbQueue :: "sevent list"
  sbOut :: "sevent list"
  sbLast :: string
  sbClosed :: bool

record tenant_sub =
  tsGen :: nat
  tsConns :: "nat list"
  tsByUser :: "int table"

datatype job = PushJob nat | CloseJob nat

record tenant_loop =
  lpTenant :: string
  lpGen :: nat
  lpLast :: string
  lpBatch :: "entry list"
  lpEvent :: sevent
  lpJobs :: "job list"
  lpReading :: bool
  lpDone :: bool

datatype replaying = ReplayFrom nat string | ReplayEvents nat "sevent list"

record hub =
  hbMem :: memory
  hbCfg :: hub_config
  hbDone :: bool
  hbTenants :: "tenant_sub table"
  hbSubs :: "(nat \<times> subscription) list"
  hbNext :: nat
  hbGen :: nat
  hbLoops :: "tenant_loop list"
  hbReplays :: "replaying list"

definition orDefault :: "int \<Rightarrow> int \<Rightarrow> int" where
  "orDefault v d = (if v \<le> 0 then d else v)"

definition NewHub :: "memory \<Rightarrow> hub_config \<Rightarrow> hub" where
  "NewHub c cfg =
     \<lparr>hbMem = c,
      hbCfg = \<lparr>hcReplayWindow = orDefault (hcReplayWindow cfg) (5 * 60 * 1000000000),
        hcStreamsPerUser = orDefault (hcStreamsPerUser cfg) 5, hcStreamsPerTenant = orDefault (hcStreamsPerTenant cfg) 2000,
        hcMaxLen = orDefault (hcMaxLen cfg) DefaultMaxLen, hcTrimInterval = orDefault (hcTrimInterval cfg) (60 * 1000000000),
        hcReadBlock = orDefault (hcReadBlock cfg) (5 * 1000000000), hcRetryDelay = orDefault (hcRetryDelay cfg) 1000000000\<rparr>,
      hbDone = False, hbTenants = [], hbSubs = [], hbNext = 0, hbGen = 0, hbLoops = [], hbReplays = []\<rparr>"

definition OpenStreams :: "hub \<Rightarrow> nat" where
  "OpenStreams h = sum_list (map (length \<circ> tsConns) (rows (hbTenants h)))"

section \<open>Publishing\<close>

text \<open>\<open>typeRE\<close>: a lower case letter, then at most 63 lower case letters, digits, dots, underscores and dashes.\<close>

definition lowerLetter :: "char \<Rightarrow> bool" where
  "lowerLetter c \<longleftrightarrow> 97 \<le> byte c \<and> byte c \<le> 122"

definition typeRE :: "string \<Rightarrow> bool" where
  "typeRE t \<longleftrightarrow> t \<noteq> [] \<and> lowerLetter (hd t) \<and> length t \<le> 64 \<and>
     (\<forall>c \<in> set (tl t). lowerLetter c \<or> isDigit c \<or> c \<in> {CHR ''.'', CHR ''_'', CHR ''-''})"

definition ValidateType :: "string \<Rightarrow> bool \<Rightarrow> unit res" where
  "ValidateType typ mdl =
     (if \<not> typeRE typ then Inl StType else if mdl \<and> Reserved typ then Inl StReserved else Inr ())"

text \<open>The payload: nothing, text or bytes, or another value with what marshalling it gives.\<close>

datatype payload = NoData | RawData string | OtherData "string option"

definition rawOf :: "payload \<Rightarrow> string res" where
  "rawOf d = (case d of
     NoData \<Rightarrow> Inr ''{}'' | RawData s \<Rightarrow> Inr s | OtherData None \<Rightarrow> Inl StPayload | OtherData (Some b) \<Rightarrow> Inr b)"

definition badTarget :: "string \<Rightarrow> bool" where
  "badTarget u \<longleftrightarrow> u = [] \<or> (\<exists>c \<in> set u. c \<in> {CHR '','', CHR '' '', CHR 0x0A})"

fun commaJoin :: "string list \<Rightarrow> string" where
  "commaJoin [] = []"
| "commaJoin [u] = u"
| "commaJoin (u # us) = u @ '','' @ commaJoin us"

definition eventFields :: "string \<Rightarrow> string \<Rightarrow> string \<Rightarrow> time \<Rightarrow> (string \<times> string) list" where
  "eventFields target typ raw now =
     [(''to'', target), (''type'', typ), (''data'', raw), (''at'', Itoa (sint (UnixMilli now)))]"

definition onMem :: "(memory, 'a) op \<Rightarrow> (hub, 'a) op" where
  "onMem f h = (case f (hbMem h) of (r, m) \<Rightarrow> (r, h\<lparr>hbMem := m\<rparr>))"

text \<open>\<open>json.Valid\<close> is the parameter \<open>jsonValid\<close>; the hub and its client each look at their clock.\<close>

definition PublishID ::
  "(string \<Rightarrow> bool) \<Rightarrow> time \<Rightarrow> time \<Rightarrow> string \<Rightarrow> string list \<Rightarrow> bool \<Rightarrow> string \<Rightarrow> payload \<Rightarrow> bool \<Rightarrow> (hub, string) op" where
  "PublishID jsonValid now cnow tenantID to everyone typ data mdl =
     bnd (of_res (ValidateType typ mdl)) (\<lambda>_.
     if everyone = (to \<noteq> []) \<or> length to > MaxTargets then throw StTargets
     else
     bnd (of_res (rawOf data)) (\<lambda>raw.
     if length raw > MaxPayload \<or> \<not> jsonValid raw \<or> (\<exists>c \<in> set raw. c \<in> {CHR 0x0A, CHR 0x0D}) then throw StPayload
     else if \<not> everyone \<and> (\<exists>u \<in> set to. badTarget u) then throw StTargets
     else
     bnd (fetch (hcMaxLen \<circ> hbCfg)) (\<lambda>maxLen.
     onMem (XAdd cnow (Key tenantID) (eventFields (if everyone then ''*'' else commaJoin to) typ raw now) maxLen))))"

definition hubPublish ::
  "(string \<Rightarrow> bool) \<Rightarrow> time \<Rightarrow> time \<Rightarrow> string \<Rightarrow> string list \<Rightarrow> bool \<Rightarrow> string \<Rightarrow> payload \<Rightarrow> (hub, unit) op" where
  "hubPublish jsonValid now cnow tenantID to everyone typ data =
     bnd (PublishID jsonValid now cnow tenantID to everyone typ data False) (\<lambda>_. ret ())"

section \<open>Subscriptions\<close>

text \<open>\<open>strings.Split(to, ",")\<close>.\<close>

fun splitComma :: "string \<Rightarrow> string list" where
  "splitComma [] = [[]]"
| "splitComma (c # s) = (if c = CHR '','' then [] # splitComma s else (case splitComma s of [] \<Rightarrow> [[c]] | p # ps \<Rightarrow> (c # p) # ps))"

text \<open>\<open>push\<close> on a subscription: whether the reader keeps up, and the subscription.\<close>

definition push :: "sevent \<Rightarrow> subscription \<Rightarrow> bool \<times> subscription" where
  "push ev s =
     (if sbClosed s \<or> (svID ev \<noteq> [] \<and> sbLast s \<noteq> [] \<and> \<not> Less (sbLast s) (svID ev)) then (True, s)
      else
      (let s' = (if svID ev \<noteq> [] then s\<lparr>sbLast := svID ev\<rparr> else s)
       in if length (sbQueue s') < connBuffer then (True, s'\<lparr>sbQueue := sbQueue s' @ [ev]\<rparr>) else (False, s')))"

definition pushTo :: "nat \<Rightarrow> sevent \<Rightarrow> hub \<Rightarrow> bool \<times> hub" where
  "pushTo i ev h =
     (case map_of (hbSubs h) i of
        None \<Rightarrow> (True, h)
      | Some s \<Rightarrow> (case push ev s of (ok, s') \<Rightarrow> (ok, h\<lparr>hbSubs := AList.update i s' (hbSubs h)\<rparr>)))"

definition targets :: "string \<Rightarrow> string \<Rightarrow> bool" where
  "targets to user \<longleftrightarrow> to = ''*'' \<or> user \<in> set (splitComma to)"

definition cancelLoop :: "string \<Rightarrow> nat \<Rightarrow> hub \<Rightarrow> hub" where
  "cancelLoop tn g h = h\<lparr>hbLoops := map (\<lambda>l. if lpTenant l = tn \<and> lpGen l = g then l\<lparr>lpDone := True\<rparr> else l) (hbLoops h)\<rparr>"

text \<open>One stream less of the user; the last one removes the user.\<close>

definition uncount :: "string \<Rightarrow> int table \<Rightarrow> int table" where
  "uncount user by' =
     (let n = (case map_of by' user of None \<Rightarrow> 0 | Some n \<Rightarrow> n) - 1
      in if n \<le> 0 then AList.delete user by' else AList.update user n by')"

definition closeSub :: "nat \<Rightarrow> hub \<Rightarrow> hub" where
  "closeSub i h =
     (case map_of (hbSubs h) i of
        None \<Rightarrow> h
      | Some s \<Rightarrow>
          if sbClosed s then h
          else
          (let h1 = h\<lparr>hbSubs := AList.update i (s\<lparr>sbClosed := True\<rparr>) (hbSubs h)\<rparr>
           in case map_of (hbTenants h1) (sbTenant s) of
                None \<Rightarrow> h1
              | Some t \<Rightarrow>
                  (let t' = t\<lparr>tsConns := remove1 i (tsConns t), tsByUser := uncount (sbUser s) (tsByUser t)\<rparr>
                   in if tsConns t' = []
                      then (cancelLoop (sbTenant s) (tsGen t) h1)\<lparr>hbTenants := AList.delete (sbTenant s) (hbTenants h1)\<rparr>
                      else h1\<lparr>hbTenants := AList.update (sbTenant s) t' (hbTenants h1)\<rparr>)))"

text \<open>The critical section of \<open>Subscribe\<close>: the first stream of a tenant starts its loop after the current tail.\<close>

definition startLoop :: "string \<Rightarrow> (hub, unit) op" where
  "startLoop tenantID =
     bnd (fetch (\<lambda>h. map_of (hbTenants h) tenantID)) (\<lambda>t.
     if t \<noteq> None then ret ()
     else
     bnd (onMem (XLast (Key tenantID))) (\<lambda>start.
     modify (\<lambda>h. h\<lparr>hbTenants := AList.update tenantID \<lparr>tsGen = hbGen h, tsConns = [], tsByUser = []\<rparr> (hbTenants h),
       hbGen := Suc (hbGen h),
       hbLoops := hbLoops h @ [\<lparr>lpTenant = tenantID, lpGen = hbGen h, lpLast = (if start = [] then ''0-0'' else start), lpBatch = [],
         lpEvent = \<lparr>svID = [], svType = [], svData = []\<rparr>, lpJobs = [], lpReading = False, lpDone = False\<rparr>]\<rparr>)))"

definition newSub :: "string \<Rightarrow> string \<Rightarrow> subscription" where
  "newSub tenantID userID =
     \<lparr>sbTenant = tenantID, sbUser = userID, sbQueue = [], sbOut = [], sbLast = [], sbClosed = False\<rparr>"

definition openStream :: "string \<Rightarrow> string \<Rightarrow> (hub, nat) op" where
  "openStream tenantID userID =
     bnd (fetch hbDone) (\<lambda>dn.
     if dn then throw StClosed
     else
     bnd (startLoop tenantID) (\<lambda>_.
     bnd (fetch (\<lambda>h. (the (map_of (hbTenants h) tenantID), hbCfg h, hbNext h))) (\<lambda>(t, cfg, i).
     let n = (case map_of (tsByUser t) userID of None \<Rightarrow> 0 | Some n \<Rightarrow> n)
     in if n \<ge> hcStreamsPerUser cfg \<or> int (length (tsConns t)) \<ge> hcStreamsPerTenant cfg then throw StTooMany
        else
        bnd (modify (\<lambda>h. h\<lparr>hbNext := Suc i, hbSubs := AList.update i (newSub tenantID userID) (hbSubs h),
          hbTenants := AList.update tenantID (t\<lparr>tsConns := tsConns t @ [i], tsByUser := AList.update userID (n + 1) (tsByUser t)\<rparr>)
            (hbTenants h)\<rparr>)) (\<lambda>_.
        ret i))))"

definition Subscribe :: "string \<Rightarrow> string \<Rightarrow> string \<Rightarrow> (hub, nat) op" where
  "Subscribe tenantID userID lastID =
     bnd (openStream tenantID userID) (\<lambda>i.
     bnd (modify (\<lambda>h. if lastID = [] then h else h\<lparr>hbReplays := hbReplays h @ [ReplayFrom i lastID]\<rparr>)) (\<lambda>_.
     ret i))"

section \<open>Replay\<close>

definition resetEvent :: "string \<Rightarrow> sevent" where
  "resetEvent reason = \<lparr>svID = [], svType = ''reset'',
     svData = ''{'' @ [dquote] @ ''reason'' @ [dquote] @ '':'' @ [dquote] @ reason @ [dquote] @ ''}''\<rparr>"

definition eventOf :: "entry \<Rightarrow> sevent" where
  "eventOf e = \<lparr>svID = enID e, svType = field e ''type'', svData = field e ''data''\<rparr>"

definition timeUnixMilli :: "int \<Rightarrow> time" where
  "timeUnixMilli ms = unixEpoch + ms * 1000000"

definition replayEvents :: "time \<Rightarrow> hub \<Rightarrow> subscription \<Rightarrow> string \<Rightarrow> sevent list" where
  "replayEvents now h s lastID =
     (let (ms, _, ok) = ParseID lastID
      in if \<not> ok \<or> timeUnixMilli ms < now - hcReplayWindow (hbCfg h) then [resetEvent ''replay_window'']
         else
         case XRange (Key (sbTenant s)) lastID (hcMaxLen (hbCfg h)) (hbMem h) of
           (Inl _, _) \<Rightarrow> [resetEvent ''replay_unavailable'']
         | (Inr es, _) \<Rightarrow> map eventOf (filter (\<lambda>e. targets (field e ''to'') (sbUser s)) es))"

section \<open>The loop of a tenant\<close>

text \<open>The subscriptions an entry goes to, as \<open>dispatch\<close> collects them under the lock.\<close>

definition recipients :: "hub \<Rightarrow> tenant_loop \<Rightarrow> entry \<Rightarrow> nat list" where
  "recipients h l e =
     (case map_of (hbTenants h) (lpTenant l) of
        None \<Rightarrow> []
      | Some t \<Rightarrow>
          if tsGen t \<noteq> lpGen l then []
          else filter (\<lambda>i. case map_of (hbSubs h) i of None \<Rightarrow> False | Some s \<Rightarrow> targets (field e ''to'') (sbUser s)) (tsConns t))"

definition loopRead :: "tenant_loop \<Rightarrow> memory \<Rightarrow> tenant_loop" where
  "loopRead l m =
     (case XRead (Key (lpTenant l)) (lpLast l) 100 m of
        (Inl _, _) \<Rightarrow> l\<lparr>lpReading := False\<rparr> | (Inr es, _) \<Rightarrow> l\<lparr>lpBatch := es, lpReading := False\<rparr>)"

definition loopTake :: "nat list \<Rightarrow> tenant_loop \<Rightarrow> tenant_loop" where
  "loopTake is l = l\<lparr>lpLast := enID (hd (lpBatch l)), lpEvent := eventOf (hd (lpBatch l)), lpBatch := tl (lpBatch l), lpJobs := map PushJob is\<rparr>"

definition loopTrim :: "time \<Rightarrow> tenant_loop \<Rightarrow> hub \<Rightarrow> hub" where
  "loopTrim now l h = snd (onMem (attempt (XTrimMinID (Key (lpTenant l)) (streamID (now - hcReplayWindow (hbCfg h)) 0))) h)"

definition setLoop :: "nat \<Rightarrow> tenant_loop \<Rightarrow> hub \<Rightarrow> hub" where
  "setLoop k l h = h\<lparr>hbLoops := (hbLoops h)[k := l]\<rparr>"

text \<open>The next push of a dispatch; a reader that does not keep up is closed next.\<close>

definition loopJob :: "nat \<Rightarrow> hub \<Rightarrow> hub" where
  "loopJob k h =
     (let l = hbLoops h ! k
      in case lpJobs l of
           [] \<Rightarrow> h
         | PushJob i # js \<Rightarrow>
             (case pushTo i (lpEvent l) h of (ok, h') \<Rightarrow> setLoop k (l\<lparr>lpJobs := if ok then js else CloseJob i # js\<rparr>) h')
         | CloseJob i # js \<Rightarrow> (let h' = setLoop k (l\<lparr>lpJobs := js\<rparr>) h in closeSub i h'))"

section \<open>Closing\<close>

definition hubCancel :: "hub \<Rightarrow> hub" where
  "hubCancel h = h\<lparr>hbDone := True, hbLoops := map (\<lambda>l. l\<lparr>lpDone := True\<rparr>) (hbLoops h)\<rparr>"

definition hubClose :: "hub \<Rightarrow> hub" where
  "hubClose h = (let h' = hubCancel h in fold closeSub (concat (map tsConns (rows (hbTenants h')))) h')"

section \<open>Steps\<close>

definition replayHandle :: "replaying \<Rightarrow> nat" where
  "replayHandle r = (case r of ReplayFrom i _ \<Rightarrow> i | ReplayEvents i _ \<Rightarrow> i)"

definition receive :: "nat \<Rightarrow> hub \<Rightarrow> hub" where
  "receive i h =
     (case map_of (hbSubs h) i of
        None \<Rightarrow> h
      | Some s \<Rightarrow> h\<lparr>hbSubs := AList.update i (s\<lparr>sbQueue := tl (sbQueue s), sbOut := sbOut s @ take 1 (sbQueue s)\<rparr>) (hbSubs h)\<rparr>)"

text \<open>The label of a step says which entry it added for whom, if any.\<close>

datatype label = Added string "string list" bool entry | Silent

inductive hub_step :: "(string \<Rightarrow> bool) \<Rightarrow> hub \<Rightarrow> label \<Rightarrow> hub \<Rightarrow> bool" for jsonValid where
  published: "PublishID jsonValid now cnow tn to everyone typ data mdl h = (Inr i, h') \<Longrightarrow> rawOf data = Inr raw \<Longrightarrow>
    hub_step jsonValid h (Added tn to everyone
      \<lparr>enID = i, enFields = eventFields (if everyone then ''*'' else commaJoin to) typ raw now\<rparr>) h'"
| unpublished: "PublishID jsonValid now cnow tn to everyone typ data mdl h = (Inl e, h') \<Longrightarrow> hub_step jsonValid h Silent h'"
| subscribed: "Subscribe tn user lastID h = (r, h') \<Longrightarrow> hub_step jsonValid h Silent h'"
| outage: "hub_step jsonValid h Silent (h\<lparr>hbMem := (hbMem h)\<lparr>mmErr := e\<rparr>\<rparr>)"
| replay_read: "hbReplays h = rs @ ReplayFrom i lastID # rs' \<Longrightarrow> map_of (hbSubs h) i = Some s \<Longrightarrow>
    hub_step jsonValid h Silent (h\<lparr>hbReplays := rs @ ReplayEvents i (replayEvents now h s lastID) # rs'\<rparr>)"
| replay_push: "hbReplays h = rs @ ReplayEvents i (ev # evs) # rs' \<Longrightarrow>
    hub_step jsonValid h Silent ((snd (pushTo i ev h))\<lparr>hbReplays := rs @ ReplayEvents i evs # rs'\<rparr>)"
| replay_end: "hbReplays h = rs @ ReplayEvents i [] # rs' \<Longrightarrow> hub_step jsonValid h Silent (h\<lparr>hbReplays := rs @ rs'\<rparr>)"
| loop_check: "k < length (hbLoops h) \<Longrightarrow> l = hbLoops h ! k \<Longrightarrow> \<not> lpDone l \<Longrightarrow> lpBatch l = [] \<Longrightarrow> lpJobs l = [] \<Longrightarrow>
    hub_step jsonValid h Silent (setLoop k (l\<lparr>lpReading := True\<rparr>) h)"
| trimmed: "k < length (hbLoops h) \<Longrightarrow> lpReading (hbLoops h ! k) \<Longrightarrow> hub_step jsonValid h Silent (loopTrim now (hbLoops h ! k) h)"
| loop_read: "k < length (hbLoops h) \<Longrightarrow> l = hbLoops h ! k \<Longrightarrow> lpReading l \<Longrightarrow>
    hub_step jsonValid h Silent (setLoop k (loopRead l (hbMem h)) h)"
| loop_take: "k < length (hbLoops h) \<Longrightarrow> l = hbLoops h ! k \<Longrightarrow> lpBatch l \<noteq> [] \<Longrightarrow> lpJobs l = [] \<Longrightarrow>
    distinct is \<Longrightarrow> set is = set (recipients h l (hd (lpBatch l))) \<Longrightarrow> hub_step jsonValid h Silent (setLoop k (loopTake is l) h)"
| loop_job: "k < length (hbLoops h) \<Longrightarrow> lpJobs (hbLoops h ! k) \<noteq> [] \<Longrightarrow> hub_step jsonValid h Silent (loopJob k h)"
| loop_exit: "hbLoops h = ls @ l # ls' \<Longrightarrow> lpDone l \<Longrightarrow> \<not> lpReading l \<Longrightarrow> lpBatch l = [] \<Longrightarrow> lpJobs l = [] \<Longrightarrow>
    hub_step jsonValid h Silent (h\<lparr>hbLoops := ls @ ls'\<rparr>)"
| received: "map_of (hbSubs h) i = Some s \<Longrightarrow> sbQueue s \<noteq> [] \<Longrightarrow> i \<notin> replayHandle ` set (hbReplays h) \<Longrightarrow>
    hub_step jsonValid h Silent (receive i h)"
| closed: "hub_step jsonValid h Silent (closeSub i h)"
| cancelled: "hub_step jsonValid h Silent (hubCancel h)"

inductive hub_runs :: "(string \<Rightarrow> bool) \<Rightarrow> hub \<Rightarrow> label list \<Rightarrow> hub \<Rightarrow> bool" for jsonValid h0 where
  start: "hub_runs jsonValid h0 [] h0"
| step: "hub_runs jsonValid h0 tr h \<Longrightarrow> hub_step jsonValid h l h' \<Longrightarrow> hub_runs jsonValid h0 (tr @ [l]) h'"

section \<open>Server-sent events\<close>

definition Heartbeat :: int where "Heartbeat = 15 * 1000000000"
definition MaxAge :: int where "MaxAge = 290 * 1000000000"
definition RetryMillis :: int where "RetryMillis = 3000"

definition Frame :: "sevent \<Rightarrow> string" where
  "Frame ev =
     (if svID ev \<noteq> [] then ''id: '' @ svID ev @ nl else []) @ ''event: '' @ svType ev @ nl @
     ''data: '' @ filter (\<lambda>c. c \<noteq> CHR 0x0D \<and> c \<noteq> CHR 0x0A) (svData ev) @ nl @ nl"

text \<open>
  What a turn of the select in \<open>ServeSSE\<close> finds: the client gone, the deadline, the heartbeat, an event or the
  closed channel. The result is what is written; every way out of the loop closes the subscription.
\<close>

datatype turn = Gone | Deadline | Ping | Next sevent | Ended

fun sseTurns :: "turn list \<Rightarrow> string" where
  "sseTurns [] = []"
| "sseTurns (Gone # _) = []"
| "sseTurns (Deadline # _) = ''event: bye'' @ nl @ ''data: {}'' @ nl @ nl"
| "sseTurns (Ping # ts) = '': ping'' @ nl @ nl @ sseTurns ts"
| "sseTurns (Next ev # ts) = Frame ev @ sseTurns ts"
| "sseTurns (Ended # _) = []"

record sse_response =
  srStatus :: int
  srHeader :: "(string \<times> string) list"
  srBody :: string

definition sseTimes :: "int \<Rightarrow> int \<Rightarrow> int \<times> int" where
  "sseTimes heartbeat maxAge = (orDefault heartbeat Heartbeat, orDefault maxAge MaxAge)"

definition ServeSSE :: "bool \<Rightarrow> nat \<Rightarrow> string \<Rightarrow> turn list \<Rightarrow> hub \<Rightarrow> sse_response \<times> hub" where
  "ServeSSE flusher sub instance' ts h =
     (if \<not> flusher
      then (\<lparr>srStatus = 500, srHeader = [(''Content-Type'', ''text/plain; charset=utf-8''), (''X-Content-Type-Options'', ''nosniff'')],
             srBody = ''streaming unsupported'' @ nl\<rparr>, h)
      else (\<lparr>srStatus = 200,
             srHeader = [(''Content-Type'', ''text/event-stream''), (''Cache-Control'', ''no-store''), (''X-Accel-Buffering'', ''no'')],
             srBody = ''retry: '' @ Itoa RetryMillis @ nl @ '': connected '' @ instance' @ nl @ nl @ sseTurns ts\<rparr>, closeSub sub h))"

end
