(* ===== verification/StreamProps.thy ===== *)
theory StreamProps
  imports StreamHub
begin

text \<open>
  What the hub guarantees in every interleaving of its goroutines: bounded buffers and numbers of streams,
  events in order and at most once, and to a reader only what was published for it.
\<close>

section \<open>The order of identifiers\<close>

definition idKey :: "string \<Rightarrow> int \<times> int" where
  "idKey i = (fst (ParseID i), fst (snd (ParseID i)))"

lemma Less_key: "Less a b \<longleftrightarrow> fst (idKey a) < fst (idKey b) \<or> (fst (idKey a) = fst (idKey b) \<and> snd (idKey a) < snd (idKey b))"
  by (auto simp: Less_def idKey_def Let_def split: prod.splits)

lemma Less_trans: "Less a b \<Longrightarrow> Less b c \<Longrightarrow> Less a c"
  unfolding Less_key by auto

lemma Less_irrefl [simp]: "\<not> Less a a"
  unfolding Less_key by auto

section \<open>One subscription\<close>

definition delivered :: "subscription \<Rightarrow> sevent list" where
  "delivered s = sbOut s @ sbQueue s"

definition idsOf :: "sevent list \<Rightarrow> string list" where
  "idsOf evs = filter (\<lambda>i. i \<noteq> []) (map svID evs)"

definition sub_ok :: "subscription \<Rightarrow> bool" where
  "sub_ok s \<longleftrightarrow> length (sbQueue s) \<le> connBuffer \<and> sorted_wrt Less (idsOf (delivered s)) \<and>
     (\<forall>i \<in> set (idsOf (delivered s)). sbLast s \<noteq> [] \<and> (i = sbLast s \<or> Less i (sbLast s)))"

lemma sub_ok_new: "sub_ok (newSub tn u)"
  by (simp add: sub_ok_def newSub_def delivered_def idsOf_def)

lemma idsOf_snoc: "idsOf (evs @ [ev]) = (if svID ev = [] then idsOf evs else idsOf evs @ [svID ev])"
  by (simp add: idsOf_def)

lemma push_ok:
  assumes "sub_ok s" "push ev s = (b, s')"
  shows "sub_ok s'"
proof (cases "sbClosed s \<or> (svID ev \<noteq> [] \<and> sbLast s \<noteq> [] \<and> \<not> Less (sbLast s) (svID ev))")
  case True
  with assms show ?thesis by (simp add: push_def split: if_splits)
next
  case False
  have d: "delivered s' = (if length (sbQueue s) < connBuffer then delivered s @ [ev] else delivered s)"
    and l: "sbLast s' = (if svID ev \<noteq> [] then svID ev else sbLast s)"
    and q: "length (sbQueue s') \<le> connBuffer"
    using False assms by (auto simp: push_def delivered_def Let_def sub_ok_def split: if_splits)
  have below: "Less i (svID ev)" if i: "i \<in> set (idsOf (delivered s))" and ev: "svID ev \<noteq> []" for i
  proof -
    have "sbLast s \<noteq> []" "i = sbLast s \<or> Less i (sbLast s)" using assms(1) i by (auto simp: sub_ok_def)
    moreover have "Less (sbLast s) (svID ev)" using False ev calculation(1) by simp
    ultimately show ?thesis using Less_trans [of i "sbLast s" "svID ev"] by auto
  qed
  show ?thesis
    using assms(1) q below unfolding sub_ok_def d l
    by (auto simp: idsOf_snoc sorted_wrt_append)
qed

text \<open>What is pushed is either queued or, being old or too much, left out.\<close>

lemma push_events: "push ev s = (b, s') \<Longrightarrow> set (delivered s') \<subseteq> insert ev (set (delivered s))"
  and push_same: "push ev s = (b, s') \<Longrightarrow> sbTenant s' = sbTenant s \<and> sbUser s' = sbUser s \<and> sbClosed s' = sbClosed s"
  by (auto simp: push_def delivered_def Let_def split: if_splits)

section \<open>Frames of the operations\<close>

definition sview :: "hub \<Rightarrow> nat \<Rightarrow> (string \<times> string) option" where
  "sview h i = map_option (\<lambda>s. (sbTenant s, sbUser s)) (map_of (hbSubs h) i)"

definition eventsAt :: "hub \<Rightarrow> nat \<Rightarrow> sevent set" where
  "eventsAt h i = (case map_of (hbSubs h) i of None \<Rightarrow> {} | Some s \<Rightarrow> set (delivered s))"

definition subs_ok :: "hub \<Rightarrow> bool" where
  "subs_ok h \<longleftrightarrow> (\<forall>i s. map_of (hbSubs h) i = Some s \<longrightarrow> sub_ok s)"

lemma pushTo_frame [simp]:
  "hbMem (snd (pushTo i ev h)) = hbMem h" "hbCfg (snd (pushTo i ev h)) = hbCfg h" "hbTenants (snd (pushTo i ev h)) = hbTenants h"
  "hbLoops (snd (pushTo i ev h)) = hbLoops h" "hbReplays (snd (pushTo i ev h)) = hbReplays h" "hbNext (snd (pushTo i ev h)) = hbNext h"
  "sview (snd (pushTo i ev h)) = sview h"
  by (auto simp: pushTo_def sview_def update_conv fun_eq_iff dest: push_same split: option.splits prod.splits)

lemma pushTo_events: "eventsAt (snd (pushTo i ev h)) j \<subseteq> (if j = i then insert ev (eventsAt h j) else eventsAt h j)"
  by (auto simp: pushTo_def eventsAt_def update_conv dest: push_events split: option.splits prod.splits)

lemma pushTo_ok: "subs_ok h \<Longrightarrow> subs_ok (snd (pushTo i ev h))"
  by (auto simp: pushTo_def subs_ok_def update_conv dest: push_ok split: option.splits prod.splits if_splits)

lemma closeSub_frame [simp]:
  "hbMem (closeSub i h) = hbMem h" "hbCfg (closeSub i h) = hbCfg h" "hbReplays (closeSub i h) = hbReplays h" "hbNext (closeSub i h) = hbNext h"
  "sview (closeSub i h) = sview h" "eventsAt (closeSub i h) = eventsAt h"
  by (auto simp: closeSub_def cancelLoop_def sview_def eventsAt_def delivered_def update_conv fun_eq_iff Let_def split: option.splits)

lemma closeSub_ok: "subs_ok h \<Longrightarrow> subs_ok (closeSub i h)"
  by (auto simp: closeSub_def cancelLoop_def subs_ok_def sub_ok_def delivered_def update_conv Let_def split: option.splits if_splits)

lemma closeSub_loops: "hbLoops (closeSub i h) = hbLoops h \<or> (\<exists>tn g. hbLoops (closeSub i h) = hbLoops (cancelLoop tn g h))"
  by (auto simp: closeSub_def cancelLoop_def Let_def split: option.splits)

text \<open>A loop that is cancelled keeps everything but that.\<close>

definition loopCore :: "tenant_loop \<Rightarrow> string \<times> nat \<times> string \<times> entry list \<times> sevent \<times> job list" where
  "loopCore l = (lpTenant l, lpGen l, lpLast l, lpBatch l, lpEvent l, lpJobs l)"

lemma closeSub_core: "map loopCore (hbLoops (closeSub i h)) = map loopCore (hbLoops h)"
  using closeSub_loops [of i h] by (auto simp: cancelLoop_def loopCore_def)

section \<open>Where events come from\<close>

definition wasAdded :: "label list \<Rightarrow> string \<Rightarrow> entry \<Rightarrow> bool" where
  "wasAdded tr tn e \<longleftrightarrow> (\<exists>to b. Added tn to b e \<in> set tr)"

definition origin :: "label list \<Rightarrow> string \<times> string \<Rightarrow> sevent \<Rightarrow> bool" where
  "origin tr v ev \<longleftrightarrow> (svID ev = [] \<and> svType ev = ''reset'') \<or>
     (\<exists>e. wasAdded tr (fst v) e \<and> ev = eventOf e \<and> targets (field e ''to'') (snd v))"

definition loop_traced :: "label list \<Rightarrow> (nat \<Rightarrow> (string \<times> string) option) \<Rightarrow> string \<times> nat \<times> string \<times> entry list \<times> sevent \<times> job list \<Rightarrow> bool" where
  "loop_traced tr vw l \<longleftrightarrow> (case l of (tn, _, _, batch, ev, jobs) \<Rightarrow>
     (\<forall>e \<in> set batch. wasAdded tr tn e) \<and> (\<forall>i. PushJob i \<in> set jobs \<longrightarrow> (\<exists>v. vw i = Some v \<and> origin tr v ev)))"

definition replay_traced :: "label list \<Rightarrow> (nat \<Rightarrow> (string \<times> string) option) \<Rightarrow> replaying \<Rightarrow> bool" where
  "replay_traced tr vw r \<longleftrightarrow> (case r of
     ReplayFrom _ _ \<Rightarrow> True | ReplayEvents i evs \<Rightarrow> (\<exists>v. vw i = Some v \<and> (\<forall>ev \<in> set evs. origin tr v ev)))"

definition traced :: "label list \<Rightarrow> hub \<Rightarrow> bool" where
  "traced tr h \<longleftrightarrow>
     (\<forall>tn. \<forall>e \<in> set (streamOf (hbMem h) (Key tn)). wasAdded tr tn e) \<and>
     (\<forall>l \<in> loopCore ` set (hbLoops h). loop_traced tr (sview h) l) \<and>
     (\<forall>r \<in> set (hbReplays h). replay_traced tr (sview h) r) \<and>
     (\<forall>i. \<forall>ev \<in> eventsAt h i. \<exists>v. sview h i = Some v \<and> origin tr v ev)"

lemma Key_inj [simp]: "Key a = Key b \<longleftrightarrow> a = b"
  by (simp add: Key_def)

lemma wasAdded_mono: "wasAdded tr tn e \<Longrightarrow> wasAdded (tr @ ls) tn e"
  by (auto simp: wasAdded_def)

lemma origin_mono: "origin tr v ev \<Longrightarrow> origin (tr @ ls) v ev"
  by (auto simp: origin_def intro: wasAdded_mono)

lemma loop_traced_mono: "loop_traced tr vw l \<Longrightarrow> (\<And>i v. vw i = Some v \<Longrightarrow> vw' i = Some v) \<Longrightarrow> loop_traced (tr @ ls) vw' l"
  unfolding loop_traced_def by (cases l) (fastforce intro: wasAdded_mono origin_mono)

lemma replay_traced_mono: "replay_traced tr vw r \<Longrightarrow> (\<And>i v. vw i = Some v \<Longrightarrow> vw' i = Some v) \<Longrightarrow> replay_traced (tr @ ls) vw' r"
  unfolding replay_traced_def by (cases r) (fastforce intro: origin_mono)+

text \<open>
  A step keeps \<open>traced\<close> when what it adds to each part is traced: entries of the streams, loops, replays and delivered
  events of the new state are those of the old one, or come from the log.
\<close>

lemma tracedI:
  assumes t: "traced tr h" and v: "\<And>i v. sview h i = Some v \<Longrightarrow> sview h' i = Some v"
    and mem: "\<And>tn e. e \<in> set (streamOf (hbMem h') (Key tn)) \<Longrightarrow> e \<in> set (streamOf (hbMem h) (Key tn)) \<or> wasAdded (tr @ ls) tn e"
    and loops: "\<And>l. l \<in> loopCore ` set (hbLoops h') \<Longrightarrow> l \<in> loopCore ` set (hbLoops h) \<or> loop_traced (tr @ ls) (sview h') l"
    and reps: "\<And>r. r \<in> set (hbReplays h') \<Longrightarrow> r \<in> set (hbReplays h) \<or> replay_traced (tr @ ls) (sview h') r"
    and evs: "\<And>i ev. ev \<in> eventsAt h' i \<Longrightarrow> ev \<in> eventsAt h i \<or> (\<exists>v. sview h' i = Some v \<and> origin (tr @ ls) v ev)"
  shows "traced (tr @ ls) h'"
  unfolding traced_def
proof (intro conjI allI ballI)
  show "wasAdded (tr @ ls) tn e" if "e \<in> set (streamOf (hbMem h') (Key tn))" for tn e
    using mem [OF that] t unfolding traced_def by (auto intro: wasAdded_mono)
  show "loop_traced (tr @ ls) (sview h') l" if "l \<in> loopCore ` set (hbLoops h')" for l
    using loops [OF that] t v unfolding traced_def by (blast intro: loop_traced_mono)
  show "replay_traced (tr @ ls) (sview h') r" if "r \<in> set (hbReplays h')" for r
    using reps [OF that] t v unfolding traced_def by (blast intro: replay_traced_mono)
  show "\<exists>v. sview h' i = Some v \<and> origin (tr @ ls) v ev" if "ev \<in> eventsAt h' i" for i ev
    using evs [OF that] t v unfolding traced_def by (blast intro: origin_mono)
qed

end
