(* ===== verification/StreamInv.thy ===== *)
theory StreamInv
  imports StreamProps
begin

text \<open>
  The invariant of the hub: the connections of a tenant are its open subscriptions, the counts per user are exact,
  and both stay within their limits.
\<close>

section \<open>The invariant\<close>

definition sstate :: "hub \<Rightarrow> nat \<Rightarrow> (string \<times> string \<times> bool) option" where
  "sstate h i = map_option (\<lambda>s. (sbTenant s, sbUser s, sbClosed s)) (map_of (hbSubs h) i)"

definition userCount :: "int table \<Rightarrow> string \<Rightarrow> int" where
  "userCount by' u = (case map_of by' u of None \<Rightarrow> 0 | Some n \<Rightarrow> n)"

definition streamsOf :: "(nat \<Rightarrow> (string \<times> string \<times> bool) option) \<Rightarrow> string \<Rightarrow> string \<Rightarrow> nat list \<Rightarrow> nat list" where
  "streamsOf st tn u is = filter (\<lambda>i. st i = Some (tn, u, False)) is"

definition tenant_ok :: "hub_config \<Rightarrow> (nat \<Rightarrow> (string \<times> string \<times> bool) option) \<Rightarrow> string \<Rightarrow> tenant_sub \<Rightarrow> bool" where
  "tenant_ok cfg st tn t \<longleftrightarrow> distinct (tsConns t) \<and> (\<forall>i \<in> set (tsConns t). \<exists>u. st i = Some (tn, u, False)) \<and>
     (\<forall>u. userCount (tsByUser t) u = int (length (streamsOf st tn u (tsConns t)))) \<and>
     int (length (tsConns t)) \<le> hcStreamsPerTenant cfg \<and> (\<forall>u. userCount (tsByUser t) u \<le> hcStreamsPerUser cfg)"

definition hub_ok :: "hub \<Rightarrow> bool" where
  "hub_ok h \<longleftrightarrow> subs_ok h \<and> 0 < hcStreamsPerTenant (hbCfg h) \<and> 0 < hcStreamsPerUser (hbCfg h) \<and>
     (\<forall>tn t. map_of (hbTenants h) tn = Some t \<longrightarrow> tenant_ok (hbCfg h) (sstate h) tn t) \<and>
     (\<forall>i tn u. sstate h i = Some (tn, u, False) \<longrightarrow> (\<exists>t. map_of (hbTenants h) tn = Some t \<and> i \<in> set (tsConns t))) \<and>
     (\<forall>i. sstate h i \<noteq> None \<longrightarrow> i < hbNext h)"

lemma hub_okI:
  assumes "hub_ok h" "subs_ok h'" "hbCfg h' = hbCfg h" "hbTenants h' = hbTenants h" "hbNext h' = hbNext h" "sstate h' = sstate h"
  shows "hub_ok h'"
  using assms by (simp add: hub_ok_def)

lemma hub_okD:
  assumes "hub_ok h"
  shows "map_of (hbTenants h) tn = Some t \<Longrightarrow> tenant_ok (hbCfg h) (sstate h) tn t"
    and "sstate h i = Some (tn, u, False) \<Longrightarrow> \<exists>t. map_of (hbTenants h) tn = Some t \<and> i \<in> set (tsConns t)"
    and "sstate h i \<noteq> None \<Longrightarrow> i < hbNext h" and "subs_ok h"
  using assms by (simp_all add: hub_ok_def)

lemma sstate_sview: "sview h i = map_option (\<lambda>(tn, u, c). (tn, u)) (sstate h i)"
  by (simp add: sview_def sstate_def option.map_comp comp_def)

lemma pushTo_sstate [simp]: "sstate (snd (pushTo i ev h)) = sstate h"
  by (auto simp: pushTo_def sstate_def update_conv fun_eq_iff dest: push_same split: option.splits prod.splits)

lemma hub_ok_push: "hub_ok h \<Longrightarrow> hub_ok (snd (pushTo i ev h))"
  by (rule hub_okI) (auto simp: hub_ok_def pushTo_ok)

lemma hub_ok_receive: "hub_ok h \<Longrightarrow> hub_ok (receive i h)"
proof -
  assume h: "hub_ok h"
  have d: "delivered (s\<lparr>sbQueue := tl (sbQueue s), sbOut := sbOut s @ take 1 (sbQueue s)\<rparr>) = delivered s" for s
    by (cases "sbQueue s") (simp_all add: delivered_def)
  then have "sub_ok s \<Longrightarrow> sub_ok (s\<lparr>sbQueue := tl (sbQueue s), sbOut := sbOut s @ take 1 (sbQueue s)\<rparr>)" for s
    by (auto simp: sub_ok_def)
  then have "subs_ok (receive i h)" using h
    by (auto simp: hub_ok_def subs_ok_def receive_def update_conv split: option.splits if_splits)
  with h show ?thesis
    by (rule hub_okI) (auto simp: receive_def sstate_def update_conv fun_eq_iff split: option.splits)
qed

section \<open>Closing and opening\<close>

lemma streamsOf_upd: "i \<notin> set is \<Longrightarrow> streamsOf (st(i := x)) tn u is = streamsOf st tn u is"
  unfolding streamsOf_def by (rule filter_cong) auto

lemma length_streamsOf_remove:
  assumes "distinct is" "i \<in> set is" "st i = Some (tn, u, False)"
  shows "int (length (streamsOf (st(i := x)) tn v (remove1 i is))) = int (length (streamsOf st tn v is)) - (if v = u then 1 else 0)"
proof -
  have "streamsOf (st(i := x)) tn v (remove1 i is) = streamsOf st tn v (remove1 i is)"
    using assms(1) by (intro streamsOf_upd) simp
  moreover have "streamsOf st tn v (remove1 i is) = (if v = u then remove1 i (streamsOf st tn v is) else streamsOf st tn v is)"
    using assms by (auto simp: streamsOf_def filter_remove1 remove1_idem)
  moreover have "v = u \<Longrightarrow> i \<in> set (streamsOf st tn v is)" using assms by (simp add: streamsOf_def)
  ultimately show ?thesis by (cases "streamsOf st tn v is") (auto simp: length_remove1)
qed

lemma userCount_uncount: "userCount (uncount u by') v = (if v = u then (if userCount by' u \<le> 1 then 0 else userCount by' u - 1) else userCount by' v)"
  by (auto simp: userCount_def uncount_def Let_def delete_conv update_conv)

lemma tenant_ok_close:
  assumes t: "tenant_ok cfg st tn t" and i: "i \<in> set (tsConns t)" "st i = Some (tn, u, False)"
  shows "tenant_ok cfg (st(i := x)) tn (t\<lparr>tsConns := remove1 i (tsConns t), tsByUser := uncount u (tsByUser t)\<rparr>)"
proof -
  let ?n = "\<lambda>v. int (length (streamsOf st tn v (tsConns t)))"
  have d: "distinct (tsConns t)" and n: "userCount (tsByUser t) v = ?n v" "userCount (tsByUser t) v \<le> hcStreamsPerUser cfg" for v
    using t by (auto simp: tenant_ok_def)
  have "i \<in> set (streamsOf st tn u (tsConns t))" using i by (simp add: streamsOf_def)
  then have "1 \<le> ?n u" by (cases "streamsOf st tn u (tsConns t)") auto
  then have c: "userCount (uncount u (tsByUser t)) v = ?n v - (if v = u then 1 else 0)" for v
    by (auto simp: userCount_uncount n)
  then have le: "userCount (uncount u (tsByUser t)) v \<le> hcStreamsPerUser cfg" for v using n [of v] by (auto split: if_splits)
  have m: "\<exists>v. (st(i := x)) j = Some (tn, v, False)" if "j \<in> set (remove1 i (tsConns t))" for j
    using that d t by (auto simp: tenant_ok_def)
  have "length (remove1 i (tsConns t)) \<le> length (tsConns t)" by (simp add: length_remove1)
  moreover have "int (length (tsConns t)) \<le> hcStreamsPerTenant cfg" using t by (simp add: tenant_ok_def)
  ultimately have "int (length (remove1 i (tsConns t))) \<le> hcStreamsPerTenant cfg" by linarith
  with d m c le show ?thesis
    by (auto simp: tenant_ok_def length_streamsOf_remove [where st = st and tn = tn and u = u, OF d i])
qed

lemma tenant_ok_other:
  assumes "tenant_ok cfg st tn' t" "i \<notin> set (tsConns t)"
  shows "tenant_ok cfg (st(i := x)) tn' t"
  using assms by (auto simp: tenant_ok_def streamsOf_upd)

lemma closeSub_cases:
  "closeSub i h = h \<or> (\<exists>s. map_of (hbSubs h) i = Some s \<and> \<not> sbClosed s \<and>
     (let h1 = h\<lparr>hbSubs := AList.update i (s\<lparr>sbClosed := True\<rparr>) (hbSubs h)\<rparr>
      in closeSub i h = (case map_of (hbTenants h) (sbTenant s) of
           None \<Rightarrow> h1
         | Some t \<Rightarrow> (let t' = t\<lparr>tsConns := remove1 i (tsConns t), tsByUser := uncount (sbUser s) (tsByUser t)\<rparr>
             in if tsConns t' = []
                then (cancelLoop (sbTenant s) (tsGen t) h1)\<lparr>hbTenants := AList.delete (sbTenant s) (hbTenants h)\<rparr>
                else h1\<lparr>hbTenants := AList.update (sbTenant s) t' (hbTenants h)\<rparr>))))"
  by (auto simp: closeSub_def Let_def split: option.splits)

lemma hub_ok_close:
  assumes h: "hub_ok h"
  shows "hub_ok (closeSub i h)"
proof (cases "closeSub i h = h")
  case False
  then obtain s where s: "map_of (hbSubs h) i = Some s" "\<not> sbClosed s" and c: "closeSub i h =
      (let h1 = h\<lparr>hbSubs := AList.update i (s\<lparr>sbClosed := True\<rparr>) (hbSubs h)\<rparr> in case map_of (hbTenants h) (sbTenant s) of
           None \<Rightarrow> h1
         | Some t \<Rightarrow> (let t' = t\<lparr>tsConns := remove1 i (tsConns t), tsByUser := uncount (sbUser s) (tsByUser t)\<rparr>
             in if tsConns t' = []
                then (cancelLoop (sbTenant s) (tsGen t) h1)\<lparr>hbTenants := AList.delete (sbTenant s) (hbTenants h)\<rparr>
                else h1\<lparr>hbTenants := AList.update (sbTenant s) t' (hbTenants h)\<rparr>))"
    using closeSub_cases [of i h] by (auto simp: Let_def)
  let ?tn = "sbTenant s" let ?u = "sbUser s"
  let ?st = "(sstate h)(i := Some (?tn, ?u, True))"
  have st: "sstate h i = Some (?tn, ?u, False)" using s by (simp add: sstate_def)
  then obtain t where t: "map_of (hbTenants h) ?tn = Some t" "i \<in> set (tsConns t)" using hub_okD(2) [OF h] by blast
  let ?t = "t\<lparr>tsConns := remove1 i (tsConns t), tsByUser := uncount ?u (tsByUser t)\<rparr>"
  have st': "sstate (closeSub i h) = ?st"
    unfolding c using t by (auto simp: sstate_def update_conv fun_eq_iff cancelLoop_def Let_def)
  have cfg: "hbCfg (closeSub i h) = hbCfg h" "hbNext (closeSub i h) = hbNext h" by simp_all
  have tens: "map_of (hbTenants (closeSub i h)) = (map_of (hbTenants h))(?tn := if tsConns ?t = [] then None else Some ?t)"
    unfolding c using t by (auto simp: update_conv delete_conv cancelLoop_def Let_def fun_eq_iff)
  have tok: "tenant_ok (hbCfg h) ?st tn' t'" if "map_of (hbTenants (closeSub i h)) tn' = Some t'" for tn' t'
  proof (cases "tn' = ?tn")
    case True
    then have "t' = ?t" using that unfolding tens by (auto split: if_splits)
    then show ?thesis using True tenant_ok_close [of "hbCfg h" "sstate h" ?tn t i ?u] t st hub_okD(1) [OF h t(1)] by simp
  next
    case False
    then have t': "tenant_ok (hbCfg h) (sstate h) tn' t'" using that hub_okD(1) [OF h, of tn' t'] unfolding tens by simp
    then have "i \<notin> set (tsConns t')" using False st by (auto simp: tenant_ok_def)
    with t' show ?thesis by (rule tenant_ok_other)
  qed
  have reach: "\<exists>t'. map_of (hbTenants (closeSub i h)) tn' = Some t' \<and> j \<in> set (tsConns t')" if "?st j = Some (tn', u', False)" for j tn' u'
  proof -
    have j: "j \<noteq> i" "sstate h j = Some (tn', u', False)" using that by (auto split: if_splits)
    then obtain t' where "map_of (hbTenants h) tn' = Some t'" "j \<in> set (tsConns t')" using hub_okD(2) [OF h] by blast
    with j(1) t have "tn' = ?tn \<Longrightarrow> j \<in> set (remove1 i (tsConns t))" by (simp add: in_set_remove1)
    then have "tn' = ?tn \<Longrightarrow> remove1 i (tsConns t) \<noteq> []" "tn' = ?tn \<Longrightarrow> j \<in> set (remove1 i (tsConns t))" by auto
    with \<open>map_of (hbTenants h) tn' = Some t'\<close> \<open>j \<in> set (tsConns t')\<close> show ?thesis
      unfolding tens by (cases "tn' = ?tn") simp_all
  qed
  show ?thesis
    unfolding hub_ok_def cfg st'
  proof (intro conjI allI impI)
    show "subs_ok (closeSub i h)" by (rule closeSub_ok [OF hub_okD(4) [OF h]])
    show "0 < hcStreamsPerTenant (hbCfg h)" "0 < hcStreamsPerUser (hbCfg h)" using h by (simp_all add: hub_ok_def)
    show "j < hbNext h" if "?st j \<noteq> None" for j using that st hub_okD(3) [OF h, of j] by (cases "j = i") auto
  qed (simp_all only: tok reach)
qed (simp add: h)

text \<open>The two parts of the critical section of \<open>Subscribe\<close>.\<close>

lemma startLoop_cases:
  assumes "startLoop tn h = (r, h')"
  shows "(\<exists>e. r = Inl e \<and> h' = h) \<or> (r = Inr () \<and> h' = h \<and> map_of (hbTenants h) tn \<noteq> None) \<or>
    (r = Inr () \<and> map_of (hbTenants h) tn = None \<and> (\<exists>l. h' = h\<lparr>hbTenants := AList.update tn \<lparr>tsGen = hbGen h, tsConns = [], tsByUser = []\<rparr> (hbTenants h),
       hbGen := Suc (hbGen h), hbLoops := hbLoops h @ [l]\<rparr> \<and> lpTenant l = tn \<and> lpBatch l = [] \<and> lpJobs l = []))"
proof -
  have "onMem (XLast (Key tn)) h = (fst (onMem (XLast (Key tn)) h), h)"
    by (simp add: onMem_def XLast_def outage_def op_defs split: option.splits prod.splits)
  then show ?thesis using assms
    by (cases "fst (onMem (XLast (Key tn)) h)")
      (auto simp: startLoop_def fetch_def bnd_def [of "\<lambda>w. _ w"] bnd_def [of "onMem _"] ret_def modify_def split: if_splits)
qed

lemma hub_ok_startLoop:
  assumes h: "hub_ok h" and r: "startLoop tn h = (r, h')"
  shows "hub_ok h'" "r = Inr () \<Longrightarrow> map_of (hbTenants h') tn \<noteq> None" "hbSubs h' = hbSubs h" "hbReplays h' = hbReplays h" "hbMem h' = hbMem h"
proof -
  let ?t = "\<lparr>tsGen = hbGen h, tsConns = [], tsByUser = []\<rparr>"
  have new: "tenant_ok (hbCfg h) st tn ?t" for st
    using h by (simp add: tenant_ok_def hub_ok_def userCount_def streamsOf_def)
  have "hub_ok (h\<lparr>hbTenants := AList.update tn ?t (hbTenants h), hbGen := g, hbLoops := ls\<rparr>)" (is "hub_ok ?h")
    if none: "map_of (hbTenants h) tn = None" for g ls
  proof -
    have st: "sstate ?h = sstate h" by (simp add: sstate_def fun_eq_iff)
    have tok: "tenant_ok (hbCfg h) (sstate h) tn' t'" if "map_of (hbTenants ?h) tn' = Some t'" for tn' t'
      using that new hub_okD(1) [OF h, of tn' t'] by (auto simp: update_conv split: if_splits)
    have reach: "\<exists>t'. map_of (hbTenants ?h) tn' = Some t' \<and> j \<in> set (tsConns t')" if "sstate h j = Some (tn', u', False)" for j tn' u'
      using hub_okD(2) [OF h that] none by (auto simp: update_conv)
    show ?thesis
      using h tok reach unfolding hub_ok_def st by (simp add: subs_ok_def)
  qed
  with startLoop_cases [OF r] h show "hub_ok h'" by auto
  show "r = Inr () \<Longrightarrow> map_of (hbTenants h') tn \<noteq> None" "hbSubs h' = hbSubs h" "hbReplays h' = hbReplays h" "hbMem h' = hbMem h"
    using startLoop_cases [OF r] by (auto simp: update_conv)
qed

lemma hub_ok_addSub:
  assumes h: "hub_ok h" and t: "map_of (hbTenants h) tn = Some t" and n: "n = userCount (tsByUser t) u"
    and cap: "n < hcStreamsPerUser (hbCfg h)" "int (length (tsConns t)) < hcStreamsPerTenant (hbCfg h)" and i: "i = hbNext h"
  shows "hub_ok (h\<lparr>hbNext := Suc i, hbSubs := AList.update i (newSub tn u) (hbSubs h),
    hbTenants := AList.update tn (t\<lparr>tsConns := tsConns t @ [i], tsByUser := AList.update u (n + 1) (tsByUser t)\<rparr>) (hbTenants h)\<rparr>)" (is "hub_ok ?h")
proof -
  let ?st = "(sstate h)(i := Some (tn, u, False))" and ?t = "t\<lparr>tsConns := tsConns t @ [i], tsByUser := AList.update u (n + 1) (tsByUser t)\<rparr>"
  have st: "sstate ?h = ?st" by (auto simp: sstate_def update_conv fun_eq_iff newSub_def)
  have new: "sstate h i = None" using hub_okD(3) [OF h, of i] i by (cases "sstate h i") auto
  have tok0: "tenant_ok (hbCfg h) (sstate h) tn t" by (rule hub_okD(1) [OF h t])
  have fresh: "i \<notin> set (tsConns t')" if "map_of (hbTenants h) tn' = Some t'" for tn' t'
    using hub_okD(1) [OF h that] new by (auto simp: tenant_ok_def)
  have cnt: "userCount (AList.update u (n + 1) (tsByUser t)) v = int (length (streamsOf ?st tn v (tsConns t @ [i])))" for v
  proof -
    have "streamsOf ?st tn v (tsConns t @ [i]) = streamsOf (sstate h) tn v (tsConns t) @ (if v = u then [i] else [])"
      using streamsOf_upd [OF fresh [OF t], of "sstate h" "Some (tn, u, False)" tn v] by (simp add: streamsOf_def)
    moreover have "userCount (tsByUser t) v = int (length (streamsOf (sstate h) tn v (tsConns t)))" using tok0 by (simp add: tenant_ok_def)
    moreover have "userCount (AList.update u (n + 1) (tsByUser t)) v = userCount (tsByUser t) v + (if v = u then 1 else 0)"
      using n by (simp add: userCount_def update_conv)
    ultimately show ?thesis by simp
  qed
  have le: "userCount (AList.update u (n + 1) (tsByUser t)) v \<le> hcStreamsPerUser (hbCfg h)" for v
    using tok0 cap(1) by (auto simp: tenant_ok_def userCount_def update_conv)
  have "tenant_ok (hbCfg h) ?st tn ?t"
    using tok0 fresh [OF t] cnt le cap(2) by (auto simp: tenant_ok_def)
  then have tok: "tenant_ok (hbCfg h) ?st tn' t'" if "map_of (hbTenants ?h) tn' = Some t'" for tn' t'
    using that tenant_ok_other [OF hub_okD(1) [OF h] fresh, of tn' t'] by (auto simp: update_conv split: if_splits)
  have reach: "\<exists>t'. map_of (hbTenants ?h) tn' = Some t' \<and> j \<in> set (tsConns t')" if "?st j = Some (tn', u', False)" for j tn' u'
    using that hub_okD(2) [OF h, of j tn' u'] t by (auto simp: update_conv split: if_splits)
  have nxt: "j < Suc i" if "?st j \<noteq> None" for j using that hub_okD(3) [OF h, of j] i by (auto split: if_splits)
  have "subs_ok ?h" using hub_okD(4) [OF h] sub_ok_new by (auto simp: subs_ok_def update_conv split: if_splits)
  then show ?thesis using h tok reach nxt unfolding hub_ok_def st by (simp del: fun_upd_apply)
qed

lemma hub_ok_frame:
  assumes "hub_ok h" "hbSubs h' = hbSubs h" "hbCfg h' = hbCfg h" "hbTenants h' = hbTenants h" "hbNext h' = hbNext h"
  shows "hub_ok h'"
proof (rule hub_okI [OF assms(1)])
  show "subs_ok h'" using hub_okD(4) [OF assms(1)] assms(2) by (simp add: subs_ok_def)
  show "sstate h' = sstate h" using assms(2) by (simp add: sstate_def fun_eq_iff)
qed (simp_all add: assms)

definition addSub :: "string \<Rightarrow> string \<Rightarrow> tenant_sub \<Rightarrow> int \<Rightarrow> hub \<Rightarrow> hub" where
  "addSub tn u t n h = h\<lparr>hbNext := Suc (hbNext h), hbSubs := AList.update (hbNext h) (newSub tn u) (hbSubs h),
     hbTenants := AList.update tn (t\<lparr>tsConns := tsConns t @ [hbNext h], tsByUser := AList.update u (n + 1) (tsByUser t)\<rparr>) (hbTenants h)\<rparr>"

text \<open>\<open>Subscribe\<close> leaves the hub alone, starts a loop at most, or adds one stream, with a replay when asked.\<close>

lemma Subscribe_cases:
  assumes h: "hub_ok h" and s: "Subscribe tn u lastID h = (r, h')"
  obtains (none) "h' = h"
    | (started) "startLoop tn h = (Inr (), h')"
    | (added) h1 t n rs where "startLoop tn h = (Inr (), h1)" "map_of (hbTenants h1) tn = Some t" "n = userCount (tsByUser t) u"
        "n < hcStreamsPerUser (hbCfg h1)" "int (length (tsConns t)) < hcStreamsPerTenant (hbCfg h1)"
        "h' = (addSub tn u t n h1)\<lparr>hbReplays := hbReplays h1 @ rs\<rparr>" "\<forall>x \<in> set rs. \<exists>i. x = ReplayFrom i lastID"
proof -
  obtain r1 h1 where l: "startLoop tn h = (r1, h1)" by fastforce
  show thesis
  proof (cases "hbDone h \<or> (\<exists>e. r1 = Inl e)")
    case True
    then have "h' = h"
      using s l startLoop_cases [OF l] by (auto simp: Subscribe_def openStream_def bnd_def fetch_def throw_def split: if_splits)
    then show thesis by (rule none)
  next
    case False
    then have l': "startLoop tn h = (Inr (), h1)" "\<not> hbDone h" using l by (cases r1; auto)+
    obtain t where t: "map_of (hbTenants h1) tn = Some t" using hub_ok_startLoop(2) [OF h l'(1)] by blast
    let ?n = "userCount (tsByUser t) u"
    let ?full = "?n \<ge> hcStreamsPerUser (hbCfg h1) \<or> int (length (tsConns t)) \<ge> hcStreamsPerTenant (hbCfg h1)"
    have run: "h' = (if ?full then h1 else (addSub tn u t ?n h1)\<lparr>hbReplays := hbReplays h1 @ (if lastID = [] then [] else [ReplayFrom (hbNext h1) lastID])\<rparr>)"
      using s l' t by (auto simp: Subscribe_def openStream_def bnd_def fetch_def throw_def ret_def modify_def addSub_def userCount_def Let_def split: if_splits)
    show thesis
    proof (cases ?full)
      case True
      with run l'(1) show thesis by (auto intro: started)
    next
      case False
      with run show thesis
        by (intro added [OF l'(1) t refl, of "if lastID = [] then [] else [ReplayFrom (hbNext h1) lastID]"]) auto
    qed
  qed
qed

lemma hub_ok_Subscribe:
  assumes "hub_ok h" "Subscribe tn u lastID h = (r, h')"
  shows "hub_ok h'"
  using assms
proof (cases rule: Subscribe_cases)
  case (started)
  then show ?thesis using hub_ok_startLoop(1) [OF assms(1)] by blast
next
  case (added h1 t n rs)
  have "hub_ok (addSub tn u t n h1)"
    unfolding addSub_def by (rule hub_ok_addSub [OF hub_ok_startLoop(1) [OF assms(1) added(1)] added(2-5) refl])
  then show ?thesis by (rule hub_ok_frame) (simp_all add: added(6))
qed (simp add: assms(1))

section \<open>Every step\<close>

lemma onMem_frame [simp]:
  "hbSubs (snd (onMem f h)) = hbSubs h" "hbCfg (snd (onMem f h)) = hbCfg h" "hbTenants (snd (onMem f h)) = hbTenants h"
  "hbNext (snd (onMem f h)) = hbNext h" "hbLoops (snd (onMem f h)) = hbLoops h" "hbReplays (snd (onMem f h)) = hbReplays h"
  by (auto simp: onMem_def split: prod.splits)

lemma onMem_eqD: "onMem f h = (r, h') \<Longrightarrow> \<exists>m. h' = h\<lparr>hbMem := m\<rparr>"
  by (auto simp: onMem_def split: prod.splits)

definition addEntry :: "time \<Rightarrow> time \<Rightarrow> string \<Rightarrow> string list \<Rightarrow> bool \<Rightarrow> string \<Rightarrow> string \<Rightarrow> hub \<Rightarrow> string res \<times> hub" where
  "addEntry now cnow tn to b typ raw h =
     onMem (XAdd cnow (Key tn) (eventFields (if b then ''*'' else commaJoin to) typ raw now) (hcMaxLen (hbCfg h))) h"

lemma PublishID_cases:
  assumes "PublishID jv now cnow tn to b typ data mdl h = (r, h')"
  shows "(\<exists>e. r = Inl e \<and> h' = h) \<or>
    (\<exists>raw. rawOf data = Inr raw \<and> addEntry now cnow tn to b typ raw h = (r, h') \<and> b = (to = []) \<and> (b \<or> list_all (\<lambda>u. \<not> badTarget u) to))"
proof (cases "ValidateType typ mdl")
  case (Inl e)
  with assms show ?thesis by (auto simp: PublishID_def bnd_def of_res_def throw_def)
next
  case (Inr x)
  show ?thesis
  proof (cases "rawOf data")
    case (Inl e)
    with \<open>ValidateType typ mdl = Inr x\<close> assms show ?thesis
      by (cases r) (auto simp: PublishID_def bnd_def of_res_def throw_def split: if_splits)
  next
    case (Inr raw)
    show ?thesis
    proof (cases "(\<exists>e. r = Inl e \<and> h' = h)")
      case False
      have "addEntry now cnow tn to b typ raw h = (r, h') \<and> b = (to = []) \<and> (b \<or> list_all (\<lambda>u. \<not> badTarget u) to)"
        using \<open>ValidateType typ mdl = Inr x\<close> Inr assms False
        by (cases r) (auto simp: PublishID_def bnd_def of_res_def throw_def fetch_def addEntry_def list_all_iff split: if_splits)
      with Inr show ?thesis by blast
    qed blast
  qed
qed

lemma hub_ok_step: "hub_step jv h l h' \<Longrightarrow> hub_ok h \<Longrightarrow> hub_ok h'"
proof (induction rule: hub_step.induct)
  case (published now cnow tn to b ty data mdl h i h' raw)
  then show ?case using PublishID_cases [OF published(1)] hub_ok_frame [OF published(3), of h'] by (auto simp: addEntry_def dest!: onMem_eqD)
next
  case (unpublished now cnow tn to b ty data mdl h e h')
  then show ?case using PublishID_cases [OF unpublished(1)] hub_ok_frame [OF unpublished(2), of h'] by (auto simp: addEntry_def dest!: onMem_eqD)
next
  case (subscribed tn u lastID h r h')
  then show ?case by (blast intro: hub_ok_Subscribe)
next
  case (replay_push h rs i ev evs rs')
  show ?case by (rule hub_ok_frame [OF hub_ok_push [OF replay_push(2), of i ev]]) simp_all
next
  case (loop_job k h)
  obtain j js where j: "lpJobs (hbLoops h ! k) = j # js" using loop_job(2) by (cases "lpJobs (hbLoops h ! k)") auto
  show ?case
  proof (cases j)
    case (PushJob i)
    obtain ok h1 where p: "pushTo i (lpEvent (hbLoops h ! k)) h = (ok, h1)" by fastforce
    have "hub_ok h1" using hub_ok_push [OF loop_job(3), of i "lpEvent (hbLoops h ! k)"] p by simp
    then show ?thesis
      by (rule hub_ok_frame) (simp_all add: loopJob_def setLoop_def Let_def j PushJob p)
  next
    case (CloseJob i)
    have "hub_ok (setLoop k l h)" for l by (rule hub_ok_frame [OF loop_job(3)]) (simp_all add: setLoop_def)
    then show ?thesis by (simp add: loopJob_def Let_def j CloseJob hub_ok_close)
  qed
next
  case (received h i s)
  then show ?case by (blast intro: hub_ok_receive)
next
  case (closed h i)
  then show ?case by (blast intro: hub_ok_close)
qed (erule hub_ok_frame; simp add: loopTrim_def setLoop_def hubCancel_def)+

lemma hub_ok_NewHub: "hub_ok (NewHub m cfg)"
  by (auto simp: hub_ok_def NewHub_def subs_ok_def sstate_def orDefault_def)

lemma hub_ok_runs: "hub_runs jv (NewHub m cfg) tr h \<Longrightarrow> hub_ok h"
  by (induction rule: hub_runs.induct) (auto intro: hub_ok_NewHub hub_ok_step)

end
