(* ===== verification/StreamTrace.thy ===== *)
theory StreamTrace
  imports StreamInv
begin

text \<open>
  In every interleaving a reader gets only what was published in its tenant for it, in the order of the
  identifiers and at most once, within the bounds of buffers and numbers of streams; and what the hub has to do for the events read so far ends.
\<close>

section \<open>Entries of a stream\<close>

lemma capped_subset: "set (capped n es) \<subseteq> set es"
  by (auto simp: capped_def dest: in_set_dropD)

lemma streamOf_update: "streamOf (m\<lparr>mmStreams := AList.update k es (mmStreams m')\<rparr>) j = (if j = k then es else streamOf m' j)"
  by (simp add: streamOf_def update_conv)

lemma XAdd_entries:
  assumes "XAdd now key fs n m = (r, m')"
  shows "(\<exists>e. r = Inl e \<and> m' = m) \<or>
    (\<exists>i. r = Inr i \<and> (\<forall>j. set (streamOf m' j) \<subseteq> (if j = key then insert \<lparr>enID = i, enFields = fs\<rparr> (set (streamOf m j)) else set (streamOf m j))))"
proof (cases "mmErr m")
  case None
  have "m' = m\<lparr>mmSeq := mmSeq m + 1, mmStreams := AList.update key
      (capped n (streamOf (m\<lparr>mmSeq := mmSeq m + 1\<rparr>) key @ [\<lparr>enID = streamID now (mmSeq m + 1), enFields = fs\<rparr>])) (mmStreams m)\<rparr>"
    and r: "r = Inr (streamID now (mmSeq m + 1))"
    using assms None by (auto simp: XAdd_def outage_def op_defs)
  then have "streamOf m' j = (if j = key then capped n (streamOf m key @ [\<lparr>enID = streamID now (mmSeq m + 1), enFields = fs\<rparr>]) else streamOf m j)" for j
    by (simp add: streamOf_def update_conv)
  then have "set (streamOf m' j) \<subseteq> (if j = key then insert \<lparr>enID = streamID now (mmSeq m + 1), enFields = fs\<rparr> (set (streamOf m j)) else set (streamOf m j))" for j
    using capped_subset [of n "streamOf m key @ [\<lparr>enID = streamID now (mmSeq m + 1), enFields = fs\<rparr>]"] by auto
  with r show ?thesis by blast
next
  case (Some e)
  with assms show ?thesis by (auto simp: XAdd_def outage_def op_defs)
qed

lemma after_subset: "set (after m key i n) \<subseteq> set (streamOf m key)"
  by (auto simp: after_def Let_def dest: in_set_takeD)

lemma reads_subset:
  "XRead key i n m = (Inr es, m') \<Longrightarrow> set es \<subseteq> set (streamOf m key)" "XRange key i n m = (Inr es, m') \<Longrightarrow> set es \<subseteq> set (streamOf m key)"
  using after_subset by (auto simp: XRead_def XRange_def outage_def op_defs Let_def split: option.splits) blast+

lemma trim_subset: "set (streamOf (snd (XTrimMinID key i m)) j) \<subseteq> set (streamOf m j)"
  by (auto simp: XTrimMinID_def outage_def op_defs streamOf_update split: option.splits)

section \<open>Every step keeps the origin of events\<close>

lemma tracedD:
  assumes "traced tr h"
  shows "e \<in> set (streamOf (hbMem h) (Key tn)) \<Longrightarrow> wasAdded tr tn e"
    and "l \<in> set (hbLoops h) \<Longrightarrow> loop_traced tr (sview h) (loopCore l)"
    and "r \<in> set (hbReplays h) \<Longrightarrow> replay_traced tr (sview h) r"
    and "ev \<in> eventsAt h i \<Longrightarrow> \<exists>v. sview h i = Some v \<and> origin tr v ev"
  using assms by (auto simp: traced_def)

lemma traced_frame:
  assumes "traced tr h" "hbSubs h' = hbSubs h" "\<And>tn. set (streamOf (hbMem h') (Key tn)) \<subseteq> set (streamOf (hbMem h) (Key tn))"
    and "loopCore ` set (hbLoops h') \<subseteq> loopCore ` set (hbLoops h)" "set (hbReplays h') \<subseteq> set (hbReplays h)"
  shows "traced (tr @ ls) h'"
  by (rule tracedI [OF assms(1)]) (use assms(2-5) in \<open>auto simp: sview_def eventsAt_def\<close>)

lemma traced_push:
  assumes t: "traced tr h" and o: "\<And>v. sview h i = Some v \<Longrightarrow> origin tr v ev"
  shows "traced tr (snd (pushTo i ev h))"
proof -
  have "\<exists>v. sview h j = Some v \<and> origin tr v x" if x: "x \<in> eventsAt (snd (pushTo i ev h)) j" for j x
  proof (cases "x \<in> eventsAt h j")
    case True
    then show ?thesis by (rule tracedD(4) [OF t])
  next
    case False
    then have "j = i" "x = ev" using x pushTo_events [of i ev h j] by (auto split: if_splits)
    moreover have "sview h i \<noteq> None" using x calculation by (auto simp: eventsAt_def sview_def pushTo_def split: option.splits prod.splits)
    ultimately show ?thesis using o by auto
  qed
  with t show ?thesis by (simp add: traced_def)
qed

lemma traced_close: "traced tr h \<Longrightarrow> traced tr (closeSub i h)"
proof -
  assume "traced tr h"
  moreover have "loopCore ` set (hbLoops (closeSub i h)) = loopCore ` set (hbLoops h)"
    using arg_cong [OF closeSub_core [of i h], of set] by simp
  ultimately show ?thesis by (simp add: traced_def)
qed

lemma replayEvents_origin:
  assumes t: "traced tr h" and s: "map_of (hbSubs h) i = Some s" and ev: "ev \<in> set (replayEvents now h s lastID)"
  shows "origin tr (sbTenant s, sbUser s) ev"
proof -
  consider "ev = resetEvent ''replay_window''" | "ev = resetEvent ''replay_unavailable''"
    | es m e where "XRange (Key (sbTenant s)) lastID (hcMaxLen (hbCfg h)) (hbMem h) = (Inr es, m)" "e \<in> set es"
        "targets (field e ''to'') (sbUser s)" "ev = eventOf e"
    using ev by (auto simp: replayEvents_def Let_def split: prod.splits sum.splits if_splits)
  then show ?thesis
  proof cases
    case 3
    then have "wasAdded tr (sbTenant s) e" using tracedD(1) [OF t] reads_subset(2) by blast
    with 3 show ?thesis by (auto simp: origin_def)
  qed (simp_all add: origin_def resetEvent_def)
qed

lemma setLoop_frame [simp]:
  "hbMem (setLoop k l h) = hbMem h" "hbReplays (setLoop k l h) = hbReplays h" "hbLoops (setLoop k l h) = (hbLoops h)[k := l]"
  "sview (setLoop k l h) = sview h" "eventsAt (setLoop k l h) = eventsAt h"
  by (simp_all add: setLoop_def sview_def eventsAt_def fun_eq_iff)

lemma traced_setLoop:
  assumes t: "traced tr h" and l: "loop_traced tr (sview h) (loopCore l)"
  shows "traced tr (setLoop k l h)"
proof -
  have "loop_traced tr (sview h) c" if "c \<in> loopCore ` set ((hbLoops h)[k := l])" for c
    using that t l by (auto simp: traced_def dest!: set_update_subset_insert [THEN subsetD])
  with t show ?thesis by (simp add: traced_def)
qed

lemma traced_loopJob:
  assumes t: "traced tr h" and k: "k < length (hbLoops h)" and j: "lpJobs (hbLoops h ! k) = j # js"
  shows "traced tr (loopJob k h)"
proof -
  have lt: "loop_traced tr (sview h) (loopCore (hbLoops h ! k))" using tracedD(2) [OF t] k by simp
  show ?thesis
  proof (cases j)
    case (PushJob i)
    obtain ok h1 where p: "pushTo i (lpEvent (hbLoops h ! k)) h = (ok, h1)" by fastforce
    have h1: "h1 = snd (pushTo i (lpEvent (hbLoops h ! k)) h)" using p by simp
    have "traced tr h1" unfolding h1
      by (rule traced_push [OF t]) (use lt j PushJob in \<open>auto simp: loop_traced_def loopCore_def\<close>)
    moreover have "loop_traced tr (sview h1) (loopCore ((hbLoops h ! k)\<lparr>lpJobs := if ok then js else CloseJob i # js\<rparr>))"
      using lt j PushJob by (auto simp: loop_traced_def loopCore_def h1)
    ultimately show ?thesis by (simp add: loopJob_def Let_def j PushJob p traced_setLoop)
  next
    case (CloseJob i)
    have "loop_traced tr (sview h) (loopCore ((hbLoops h ! k)\<lparr>lpJobs := js\<rparr>))"
      using lt j CloseJob by (auto simp: loop_traced_def loopCore_def)
    then show ?thesis by (simp add: loopJob_def Let_def j CloseJob traced_setLoop traced_close t)
  qed
qed

lemma traced_loopTake:
  assumes h: "hub_ok h" and t: "traced tr h" and k: "k < length (hbLoops h)" and l: "l = hbLoops h ! k" "lpBatch l = e # es"
    and r: "set is = set (recipients h l e)"
  shows "traced tr (setLoop k (loopTake is l) h)"
proof (rule traced_setLoop [OF t])
  have lt: "loop_traced tr (sview h) (loopCore l)" using tracedD(2) [OF t] k l by simp
  then have e: "wasAdded tr (lpTenant l) e" using l(2) by (simp add: loop_traced_def loopCore_def)
  have "\<exists>v. sview h i = Some v \<and> origin tr v (eventOf e)" if i: "i \<in> set is" for i
  proof -
    obtain ts s where ts: "map_of (hbTenants h) (lpTenant l) = Some ts" "i \<in> set (tsConns ts)"
      and s: "map_of (hbSubs h) i = Some s" "targets (field e ''to'') (sbUser s)"
      using i r unfolding recipients_def
      by (cases "map_of (hbTenants h) (lpTenant l)"; cases "map_of (hbSubs h) i") (auto split: if_splits)
    have "sbTenant s = lpTenant l" using hub_okD(1) [OF h ts(1)] ts(2) s(1) by (auto simp: tenant_ok_def sstate_def)
    with s e show ?thesis by (auto simp: sview_def origin_def)
  qed
  then show "loop_traced tr (sview h) (loopCore (loopTake is l))"
    using lt l(2) by (auto simp: loop_traced_def loopCore_def loopTake_def)
qed

lemma traced_startLoop:
  assumes t: "traced tr h" and s: "startLoop tn h = (Inr (), h')"
  shows "traced tr h'"
proof -
  have "h' = h \<or> (\<exists>l ts g. h' = h\<lparr>hbTenants := ts, hbGen := g, hbLoops := hbLoops h @ [l]\<rparr> \<and> lpBatch l = [] \<and> lpJobs l = [])"
    using startLoop_cases [OF s] by auto
  moreover have "sview h' = sview h" "eventsAt h' = eventsAt h"
    using calculation by (auto simp: sview_def eventsAt_def fun_eq_iff)
  ultimately show ?thesis using t by (auto simp: traced_def loop_traced_def loopCore_def)
qed

lemma traced_Subscribe:
  assumes h: "hub_ok h" and t: "traced tr h" and s: "Subscribe tn u lastID h = (r, h')"
  shows "traced (tr @ ls) h'"
  using h s
proof (cases rule: Subscribe_cases)
  case none
  then show ?thesis using traced_frame [OF t] by simp
next
  case started
  then show ?thesis using traced_startLoop [OF t] traced_frame [of tr h' h'] by simp
next
  case (added h1 ts n rs)
  have t1: "traced tr h1" by (rule traced_startLoop [OF t added(1)])
  have new: "sstate h1 (hbNext h1) = None"
    using hub_okD(3) [OF hub_ok_startLoop(1) [OF h added(1)], of "hbNext h1"] by (cases "sstate h1 (hbNext h1)") auto
  then have new': "map_of (hbSubs h1) (hbNext h1) = None" by (simp add: sstate_def)
  show ?thesis
    by (rule tracedI [OF t1]) (use added(6,7) new' in
      \<open>auto simp: addSub_def sview_def eventsAt_def update_conv newSub_def delivered_def replay_traced_def split: if_splits option.splits\<close>)
qed

lemma wasAdded_last: "wasAdded (tr @ [Added tn to b e]) tn e"
  by (auto simp: wasAdded_def)

lemma traced_published:
  assumes t: "traced tr h" and p: "addEntry now cnow tn to b ty raw h = (Inr i, h')"
  shows "traced (tr @ [Added tn to b \<lparr>enID = i, enFields = eventFields (if b then ''*'' else commaJoin to) ty raw now\<rparr>]) h'"
    (is "traced (tr @ [Added tn to b ?e]) h'")
proof -
  obtain m where m: "XAdd cnow (Key tn) (eventFields (if b then ''*'' else commaJoin to) ty raw now) (hcMaxLen (hbCfg h)) (hbMem h) = (Inr i, m)"
    and h': "h' = h\<lparr>hbMem := m\<rparr>"
    using p by (auto simp: addEntry_def onMem_def split: prod.splits)
  have sub: "set (streamOf m j) \<subseteq> (if j = Key tn then insert ?e (set (streamOf (hbMem h) j)) else set (streamOf (hbMem h) j))" for j
    using XAdd_entries [OF m] by auto
  have v: "sview h' = sview h" "eventsAt h' = eventsAt h" using h' by (auto simp: sview_def eventsAt_def fun_eq_iff)
  show ?thesis
  proof (rule tracedI [OF t])
    fix tn' e assume "e \<in> set (streamOf (hbMem h') (Key tn'))"
    with sub [of "Key tn'"] h' have "e \<in> set (streamOf (hbMem h) (Key tn')) \<or> (tn' = tn \<and> e = ?e)" by (auto split: if_splits)
    then show "e \<in> set (streamOf (hbMem h) (Key tn')) \<or> wasAdded (tr @ [Added tn to b ?e]) tn' e"
      using wasAdded_last by blast
  qed (use h' v in auto)
qed

lemma traced_later: "traced tr h \<Longrightarrow> traced (tr @ ls) h"
  by (erule traced_frame) (rule refl subset_refl)+

lemma traced_replay:
  assumes t: "traced tr h" and s: "map_of (hbSubs h) i = Some s" and rs: "hbReplays h = rs @ ReplayFrom i lastID # rs'"
  shows "traced tr (h\<lparr>hbReplays := rs @ ReplayEvents i (replayEvents now h s lastID) # rs'\<rparr>)" (is "traced tr ?h")
proof -
  have v: "sview ?h = sview h" "eventsAt ?h = eventsAt h" by (simp_all add: sview_def eventsAt_def fun_eq_iff)
  have "replay_traced tr (sview h) (ReplayEvents i (replayEvents now h s lastID))"
    using s replayEvents_origin [OF t s] by (auto simp: replay_traced_def sview_def)
  with t v rs show ?thesis by (simp add: traced_def)
qed

lemma traced_replay_push:
  assumes t: "traced tr h" and rs: "hbReplays h = rs @ ReplayEvents i (ev # evs) # rs'"
  shows "traced tr ((snd (pushTo i ev h))\<lparr>hbReplays := rs @ ReplayEvents i evs # rs'\<rparr>)" (is "traced tr ?h")
proof -
  have r: "replay_traced tr (sview h) (ReplayEvents i (ev # evs))" using tracedD(3) [OF t] rs by simp
  then have "traced tr (snd (pushTo i ev h))" by (intro traced_push [OF t]) (auto simp: replay_traced_def)
  moreover have "sview ?h = sview (snd (pushTo i ev h))" "eventsAt ?h = eventsAt (snd (pushTo i ev h))"
    by (simp_all add: sview_def eventsAt_def fun_eq_iff del: pushTo_frame)
  moreover have "replay_traced tr (sview h) (ReplayEvents i evs)" using r by (auto simp: replay_traced_def)
  ultimately show ?thesis using rs by (simp add: traced_def)
qed

lemma traced_receive: "traced tr h \<Longrightarrow> traced tr (receive i h)"
proof -
  assume t: "traced tr h"
  have d: "delivered (s\<lparr>sbQueue := tl (sbQueue s), sbOut := sbOut s @ take 1 (sbQueue s)\<rparr>) = delivered s" for s
    by (cases "sbQueue s") (simp_all add: delivered_def)
  have "sview (receive i h) = sview h" "eventsAt (receive i h) = eventsAt h"
    by (auto simp: receive_def sview_def eventsAt_def fun_eq_iff update_conv d [simplified] split: option.splits)
  moreover have "hbMem (receive i h) = hbMem h" "hbLoops (receive i h) = hbLoops h" "hbReplays (receive i h) = hbReplays h"
    by (simp_all add: receive_def split: option.splits)
  ultimately show ?thesis using t by (simp add: traced_def)
qed

lemma traced_loopRead:
  assumes t: "traced tr h" and k: "k < length (hbLoops h)" and l: "l = hbLoops h ! k"
  shows "traced tr (setLoop k (loopRead l (hbMem h)) h)"
proof (rule traced_setLoop [OF t])
  have lt: "loop_traced tr (sview h) (loopCore l)" using tracedD(2) [OF t] k l by simp
  show "loop_traced tr (sview h) (loopCore (loopRead l (hbMem h)))"
  proof (cases "XRead (Key (lpTenant l)) (lpLast l) 100 (hbMem h)")
    case (Pair r m)
    with lt show ?thesis
      using tracedD(1) [OF t, of _ "lpTenant l"] reads_subset(1) [of "Key (lpTenant l)" "lpLast l" 100 "hbMem h" _ m]
      by (cases r) (auto simp: loopRead_def loop_traced_def loopCore_def)
  qed
qed

lemma traced_step: "hub_step jv h l h' \<Longrightarrow> hub_ok h \<Longrightarrow> traced tr h \<Longrightarrow> traced (tr @ [l]) h'"
proof (induction rule: hub_step.induct)
  case (published now cnow tn to b ty data mdl h i h' raw)
  have "addEntry now cnow tn to b ty raw h = (Inr i, h')" using PublishID_cases [OF published(1)] published(2) by auto
  then show ?case by (rule traced_published [OF published(4)])
next
  case (unpublished now cnow tn to b ty data mdl h e h')
  have "h' = h"
    using PublishID_cases [OF unpublished(1)] XAdd_entries by (fastforce simp: addEntry_def onMem_def split: prod.splits)
  then show ?case using unpublished(3) by (simp add: traced_later)
next
  case (subscribed tn u lastID h r h')
  then show ?case by (blast intro: traced_Subscribe)
next
  case (outage h e)
  show ?case by (rule traced_frame [OF outage(2)]) (simp_all add: streamOf_def)
next
  case (replay_read h rs i lastID rs' s now)
  then show ?case by (blast intro: traced_later traced_replay)
next
  case (replay_push h rs i ev evs rs')
  then show ?case by (blast intro: traced_later traced_replay_push)
next
  case (replay_end h rs i rs')
  show ?case by (rule traced_frame [OF replay_end(3)]) (use replay_end(1) in auto)
next
  case (trimmed k h now)
  show ?case
    by (rule traced_frame [OF trimmed(4)]) (use trim_subset in \<open>fastforce simp: loopTrim_def onMem_def attempt_def split: prod.splits\<close>)+
next
  case (loop_check k h l)
  have "traced tr (setLoop k (l\<lparr>lpReading := True\<rparr>) h)"
    by (rule traced_setLoop [OF loop_check(7)]) (use tracedD(2) [OF loop_check(7)] loop_check(1,2) in \<open>simp add: loopCore_def\<close>)
  then show ?case by (rule traced_later)
next
  case (loop_read k h l)
  then show ?case by (blast intro: traced_later traced_loopRead)
next
  case (loop_take k h l js)
  then show ?case by (cases "lpBatch l") (auto intro!: traced_later traced_loopTake)
next
  case (loop_job k h)
  then show ?case by (cases "lpJobs (hbLoops h ! k)") (auto intro!: traced_later traced_loopJob)
next
  case (loop_exit h ls l ls')
  show ?case by (rule traced_frame [OF loop_exit(7)]) (use loop_exit(1) in auto)
next
  case (received h i s)
  then show ?case by (blast intro: traced_later traced_receive)
next
  case (closed h i)
  then show ?case by (blast intro: traced_later traced_close)
next
  case (cancelled h)
  show ?case by (rule traced_frame [OF cancelled(2)]) (auto simp: hubCancel_def loopCore_def image_image)
qed

end
