(* ===== verification/StreamSafe.thy ===== *)
theory StreamSafe
  imports StreamTrace
begin

text \<open>
  What the hub promises its readers, whatever the interleaving of publishers, loops, replays and closing connections:
  events of their tenant and for them only, in order, within the bounds; that dispatching ends and
  reaches every reader that keeps up; and that a client reading the server-sent events gets these events back.
\<close>

section \<open>Who an event is for\<close>

lemma splitComma_plain: "CHR '','' \<notin> set u \<Longrightarrow> splitComma (u @ CHR '','' # s) = u # splitComma s"
  by (induction u) auto

lemma splitComma_last: "CHR '','' \<notin> set u \<Longrightarrow> splitComma u = [u]"
  by (induction u) auto

lemma splitComma_commaJoin: "us \<noteq> [] \<Longrightarrow> \<forall>u \<in> set us. CHR '','' \<notin> set u \<Longrightarrow> splitComma (commaJoin us) = us"
  by (induction us rule: commaJoin.induct) (auto simp: splitComma_plain splitComma_last)

lemma commaJoin_star: "us \<noteq> [] \<Longrightarrow> \<forall>u \<in> set us. CHR '','' \<notin> set u \<Longrightarrow> commaJoin us = ''*'' \<Longrightarrow> us = [''*'']"
  using splitComma_commaJoin [of us] by (simp add: splitComma_last)

definition label_ok :: "label \<Rightarrow> bool" where
  "label_ok l \<longleftrightarrow> (case l of Silent \<Rightarrow> True
     | Added tn to b e \<Rightarrow> field e ''to'' = (if b then ''*'' else commaJoin to) \<and> b = (to = []) \<and> (\<forall>u \<in> set to. \<not> badTarget u))"

lemma label_ok_step: "hub_step jv h l h' \<Longrightarrow> label_ok l"
proof (induction rule: hub_step.induct)
  case (published now cnow tn to b ty data mdl h i h' raw)
  then show ?case using PublishID_cases [OF published(1)] by (auto simp: label_ok_def field_def eventFields_def list_all_iff)
qed (simp_all add: label_ok_def)

lemma runs_labels: "hub_runs jv h0 tr h \<Longrightarrow> l \<in> set tr \<Longrightarrow> label_ok l"
  by (induction rule: hub_runs.induct) (auto dest: label_ok_step)

lemma label_targets:
  assumes "label_ok (Added tn to b e)" "targets (field e ''to'') u"
  shows "b \<or> u \<in> set to \<or> to = [''*'']"
proof (cases b)
  case False
  with assms have j: "to \<noteq> []" "\<forall>u \<in> set to. CHR '','' \<notin> set u" "field e ''to'' = commaJoin to"
    by (auto simp: label_ok_def badTarget_def)
  with assms(2) have "commaJoin to = ''*'' \<or> u \<in> set to" by (auto simp: targets_def splitComma_commaJoin)
  with j commaJoin_star show ?thesis by blast
qed simp

lemma traced_runs: "hub_runs jv (NewHub NewMemory cfg) tr h \<Longrightarrow> traced tr h"
proof (induction rule: hub_runs.induct)
  case start
  show ?case by (simp add: traced_def NewHub_def NewMemory_def streamOf_def eventsAt_def)
next
  case (step tr h l h')
  then show ?case by (blast intro: traced_step hub_ok_runs)
qed

text \<open>
  C8: a subscription gets, besides the resets of a replay, only events that were published in its own
  tenant, and for everyone, for its user or for the single target \<open>*\<close>.
\<close>

theorem stream_confined:
  assumes "hub_runs jv (NewHub NewMemory cfg) tr h" "map_of (hbSubs h) i = Some s" "ev \<in> set (sbOut s @ sbQueue s)"
  shows "(svID ev = [] \<and> svType ev = ''reset'') \<or>
    (\<exists>to everyone e. Added (sbTenant s) to everyone e \<in> set tr \<and> ev = eventOf e \<and>
       (everyone \<or> sbUser s \<in> set to \<or> to = [''*'']))"
proof -
  have "origin tr (sbTenant s, sbUser s) ev"
    using tracedD(4) [OF traced_runs [OF assms(1)], of ev i] assms(2,3) by (auto simp: eventsAt_def delivered_def sview_def)
  then show ?thesis
    unfolding origin_def wasAdded_def using label_targets runs_labels [OF assms(1)] by (metis fst_conv snd_conv)
qed

text \<open>A small run: one stream, one event for its user, read, taken and pushed by the loop of the tenant.\<close>

definition demo_cfg :: hub_config where
  "demo_cfg = \<lparr>hcReplayWindow = 0, hcStreamsPerUser = 0, hcStreamsPerTenant = 0, hcMaxLen = 0, hcTrimInterval = 0, hcReadBlock = 0, hcRetryDelay = 0\<rparr>"

definition demo_at :: time where
  "demo_at = unixEpoch + 7000000"

definition demo_open :: hub where
  "demo_open = snd (Subscribe ''t'' ''ann'' [] (NewHub NewMemory demo_cfg))"

definition demo_entry :: entry where
  "demo_entry = \<lparr>enID = ''7-1'', enFields = eventFields ''ann,bob'' ''ticket.new'' ''{}'' demo_at\<rparr>"

definition demo_published :: hub where
  "demo_published = demo_open\<lparr>hbMem := NewMemory\<lparr>mmSeq := 1, mmStreams := [(Key ''t'', [demo_entry])]\<rparr>\<rparr>"

definition demo_checked :: hub where
  "demo_checked = setLoop 0 ((hbLoops demo_published ! 0)\<lparr>lpReading := True\<rparr>) demo_published"

definition demo_read :: hub where
  "demo_read = setLoop 0 ((hbLoops demo_checked ! 0)\<lparr>lpBatch := [demo_entry], lpReading := False\<rparr>) demo_checked"

definition demo_taken :: hub where
  "demo_taken = setLoop 0 (loopTake [0] (hbLoops demo_read ! 0)) demo_read"

definition demo_pushed :: hub where
  "demo_pushed = loopJob 0 demo_taken"

lemma demo_id: "streamID demo_at 1 = ''7-1''"
  by code_simp

lemma demo_open_mem: "hbMem demo_open = NewMemory" "hcMaxLen (hbCfg demo_open) = 10000"
  by code_simp+

lemma demo_publish: "PublishID (\<lambda>_. True) demo_at demo_at ''t'' [''ann'', ''bob''] False ''ticket.new'' NoData False demo_open = (Inr ''7-1'', demo_published)"
  by (simp add: PublishID_def ValidateType_def typeRE_def lowerLetter_def isDigit_def byte_def Reserved_def rawOf_def badTarget_def MaxPayload_def MaxTargets_def
      op_defs onMem_def XAdd_def outage_def demo_open_mem NewMemory_def demo_id streamOf_def capped_def demo_published_def demo_entry_def)

lemma demo_loop:
  "length (hbLoops demo_published) = 1" "lpBatch (hbLoops demo_published ! 0) = []" "lpJobs (hbLoops demo_published ! 0) = []"
  "\<not> lpDone (hbLoops demo_published ! 0)" "length (hbLoops demo_checked) = 1" "lpReading (hbLoops demo_checked ! 0)"
  by code_simp+

lemma demo_less: "Less ''0-0'' ''7-1''"
  by (simp add: Less_def ParseID_def ParseInt_def isDigit_def byte_def before_first_def Let_def)

lemma demo_reads:
  "loopRead (hbLoops demo_checked ! 0) (hbMem demo_checked) = (hbLoops demo_checked ! 0)\<lparr>lpBatch := [demo_entry], lpReading := False\<rparr>"
proof -
  have "lpTenant (hbLoops demo_checked ! 0) = ''t''" "lpLast (hbLoops demo_checked ! 0) = ''0-0''" by code_simp+
  moreover have "hbMem demo_checked = hbMem demo_published" by (simp add: demo_checked_def)
  ultimately show ?thesis
    by (simp add: loopRead_def XRead_def outage_def op_defs after_def demo_published_def NewMemory_def streamOf_def demo_entry_def demo_less)
qed

lemma demo_batch:
  "length (hbLoops demo_read) = 1" "lpBatch (hbLoops demo_read ! 0) = [demo_entry]" "lpJobs (hbLoops demo_read ! 0) = []"
  "recipients demo_read (hbLoops demo_read ! 0) demo_entry = [0]"
  by code_simp+

lemma demo_jobs: "length (hbLoops demo_taken) = 1" "lpJobs (hbLoops demo_taken ! 0) = [PushJob 0]"
  by code_simp+

lemma demo_read_runs: "hub_runs (\<lambda>_. True) (NewHub NewMemory demo_cfg)
  ([] @ [Silent] @ [Added ''t'' [''ann'', ''bob''] False demo_entry] @ [Silent] @ [Silent]) demo_read"
proof -
  have a: "hub_step (\<lambda>_. True) (NewHub NewMemory demo_cfg) Silent demo_open"
    by (rule hub_step.subscribed [of "''t''" "''ann''" "[]"]) (simp add: demo_open_def prod_eq_iff)
  from hub_step.published [OF demo_publish] have b: "hub_step (\<lambda>_. True) demo_open (Added ''t'' [''ann'', ''bob''] False demo_entry) demo_published"
    by (simp add: rawOf_def demo_entry_def)
  have c: "hub_step (\<lambda>_. True) demo_published Silent demo_checked"
    unfolding demo_checked_def by (rule hub_step.loop_check [OF _ refl]) (simp_all add: demo_loop)
  have d: "hub_step (\<lambda>_. True) demo_checked Silent demo_read"
    unfolding demo_read_def by (subst demo_reads [symmetric], rule hub_step.loop_read [OF _ refl]) (simp_all add: demo_loop)
  from hub_runs.step [OF hub_runs.step [OF hub_runs.step [OF hub_runs.step [OF hub_runs.start a] b] c] d] show ?thesis by simp
qed

lemma demo_runs: "hub_runs (\<lambda>_. True) (NewHub NewMemory demo_cfg)
  ([] @ [Silent] @ [Added ''t'' [''ann'', ''bob''] False demo_entry] @ [Silent] @ [Silent] @ [Silent] @ [Silent]) demo_pushed"
proof -
  have d: "hub_step (\<lambda>_. True) demo_read Silent demo_taken"
    unfolding demo_taken_def by (rule hub_step.loop_take [OF _ refl]) (simp_all add: demo_batch)
  have e: "hub_step (\<lambda>_. True) demo_taken Silent demo_pushed"
    unfolding demo_pushed_def by (rule hub_step.loop_job) (simp_all add: demo_jobs)
  from hub_runs.step [OF hub_runs.step [OF demo_read_runs d] e] show ?thesis by simp
qed

lemma demo_stream: "map_of (hbSubs demo_pushed) 0 = Some \<lparr>sbTenant = ''t'', sbUser = ''ann'', sbQueue = [eventOf demo_entry], sbOut = [],
    sbLast = ''7-1'', sbClosed = False\<rparr>"
  by code_simp

theorem stream_confined_witness:
  "\<exists>to everyone e. Added ''t'' to everyone e \<in> {Silent, Added ''t'' [''ann'', ''bob''] False demo_entry} \<and> eventOf demo_entry = eventOf e \<and>
     (everyone \<or> ''ann'' \<in> set to \<or> to = [''*''])"
proof -
  have "svID (eventOf demo_entry) \<noteq> []" by (simp add: eventOf_def demo_entry_def)
  then show ?thesis using stream_confined [OF demo_runs demo_stream, of "eventOf demo_entry"] by simp
qed

section \<open>Bounds\<close>

definition openOf :: "hub \<Rightarrow> string \<Rightarrow> nat set" where
  "openOf h tn = {i. \<exists>u. sstate h i = Some (tn, u, False)}"

definition openFor :: "hub \<Rightarrow> string \<Rightarrow> string \<Rightarrow> nat set" where
  "openFor h tn u = {i. sstate h i = Some (tn, u, False)}"

lemma hub_ok_open:
  assumes h: "hub_ok h"
  shows "int (card (openOf h tn)) \<le> hcStreamsPerTenant (hbCfg h)" "int (card (openFor h tn u)) \<le> hcStreamsPerUser (hbCfg h)"
    "finite (openOf h tn)" "finite (openFor h tn u)"
proof -
  have *: "int (card (openOf h tn)) \<le> hcStreamsPerTenant (hbCfg h) \<and> int (card (openFor h tn u)) \<le> hcStreamsPerUser (hbCfg h) \<and>
      finite (openOf h tn) \<and> finite (openFor h tn u)"
  proof (cases "map_of (hbTenants h) tn")
    case None
    then have "openOf h tn = {}" "openFor h tn u = {}" using hub_okD(2) [OF h] by (fastforce simp: openOf_def openFor_def)+
    then show ?thesis using h by (simp add: hub_ok_def)
  next
    case (Some t)
    have ok: "tenant_ok (hbCfg h) (sstate h) tn t" by (rule hub_okD(1) [OF h Some])
    then have "openOf h tn = set (tsConns t)" "openFor h tn u = set (streamsOf (sstate h) tn u (tsConns t))" "distinct (tsConns t)"
      using hub_okD(2) [OF h, of _ tn] Some by (fastforce simp: openOf_def openFor_def tenant_ok_def streamsOf_def)+
    moreover have "int (length (streamsOf (sstate h) tn u (tsConns t))) \<le> hcStreamsPerUser (hbCfg h)"
      using ok unfolding tenant_ok_def by metis
    moreover have "int (card (openFor h tn u)) \<le> int (length (streamsOf (sstate h) tn u (tsConns t)))"
      using card_length calculation(2) by (metis of_nat_le_iff)
    ultimately show ?thesis using ok by (simp add: tenant_ok_def distinct_card)
  qed
  then show "int (card (openOf h tn)) \<le> hcStreamsPerTenant (hbCfg h)" "int (card (openFor h tn u)) \<le> hcStreamsPerUser (hbCfg h)"
    "finite (openOf h tn)" "finite (openFor h tn u)" by simp_all
qed

text \<open>
  C9: at any moment a user has no more open streams and a tenant no more open connections than the
  configuration allows; no buffer holds more than \<open>connBuffer\<close> events; and the
  identifiers of the events a connection got are strictly increasing, so none is delivered twice.
\<close>

theorem streams_bounded:
  assumes "hub_runs jv (NewHub m cfg) tr h"
  shows "int (card (openFor h tn u)) \<le> hcStreamsPerUser (hbCfg h) \<and> int (card (openOf h tn)) \<le> hcStreamsPerTenant (hbCfg h) \<and>
    (case map_of (hbSubs h) i of None \<Rightarrow> True
     | Some s \<Rightarrow> length (sbQueue s) \<le> connBuffer \<and> sorted_wrt Less (idsOf (sbOut s @ sbQueue s)))"
proof -
  have ok: "hub_ok h" by (rule hub_ok_runs [OF assms])
  then show ?thesis
    using hub_okD(4) [OF ok] hub_ok_open [OF ok] by (auto simp: subs_ok_def sub_ok_def delivered_def split: option.splits)
qed

theorem streams_bounded_witness:
  "int (card (openFor demo_pushed ''t'' ''ann'')) \<le> 5 \<and> int (card (openOf demo_pushed ''t'')) \<le> 2000 \<and>
   sorted_wrt Less (idsOf [eventOf demo_entry])"
proof -
  have "hcStreamsPerUser (hbCfg demo_pushed) = 5" "hcStreamsPerTenant (hbCfg demo_pushed) = 2000" by code_simp+
  then show ?thesis using streams_bounded [OF demo_runs, of "''t''" "''ann''" 0] by (simp add: demo_stream)
qed

end
