(* ===== verification/StreamLive.thy ===== *)
theory StreamLive
  imports StreamSafe
begin

text \<open>
  Dispatching ends: what the loops and replays have to do for the entries read so far is finite, whatever the interleaving,
  and the dispatch of one entry gives it to every recipient with room and closes those that do not keep up.
\<close>

section \<open>The work left\<close>

definition jobWork :: "job \<Rightarrow> nat" where
  "jobWork j = (case j of PushJob _ \<Rightarrow> 2 | CloseJob _ \<Rightarrow> 1)"

definition batchWork :: "hub \<Rightarrow> nat" where
  "batchWork h = sum_list (map (\<lambda>l. length (lpBatch l)) (hbLoops h))"

definition jobsWork :: "hub \<Rightarrow> nat" where
  "jobsWork h = sum_list (map (\<lambda>l. sum_list (map jobWork (lpJobs l))) (hbLoops h))"

definition replayWork :: "hub \<Rightarrow> nat" where
  "replayWork h = sum_list (map (\<lambda>r. case r of ReplayFrom _ _ \<Rightarrow> 0 | ReplayEvents _ evs \<Rightarrow> length evs) (hbReplays h))"

text \<open>The steps the hub takes by itself, without anything new read or published.\<close>

inductive internal :: "hub \<Rightarrow> hub \<Rightarrow> bool" where
  take_entry: "k < length (hbLoops h) \<Longrightarrow> l = hbLoops h ! k \<Longrightarrow> lpBatch l \<noteq> [] \<Longrightarrow> lpJobs l = [] \<Longrightarrow>
    distinct js \<Longrightarrow> set js = set (recipients h l (hd (lpBatch l))) \<Longrightarrow> internal h (setLoop k (loopTake js l) h)"
| next_job: "k < length (hbLoops h) \<Longrightarrow> lpJobs (hbLoops h ! k) \<noteq> [] \<Longrightarrow> internal h (loopJob k h)"
| exit: "hbLoops h = ls @ l # ls' \<Longrightarrow> lpDone l \<Longrightarrow> \<not> lpReading l \<Longrightarrow> lpBatch l = [] \<Longrightarrow> lpJobs l = [] \<Longrightarrow> internal h (h\<lparr>hbLoops := ls @ ls'\<rparr>)"
| push_replayed: "hbReplays h = rs @ ReplayEvents i (ev # evs) # rs' \<Longrightarrow>
    internal h ((snd (pushTo i ev h))\<lparr>hbReplays := rs @ ReplayEvents i evs # rs'\<rparr>)"
| replayed: "hbReplays h = rs @ ReplayEvents i [] # rs' \<Longrightarrow> internal h (h\<lparr>hbReplays := rs @ rs'\<rparr>)"

lemma internal_step: "internal h h' \<Longrightarrow> hub_step jv h Silent h'"
proof (induction rule: internal.induct)
  case (take_entry k h l js)
  then show ?case by (rule hub_step.loop_take)
next
  case (next_job k h)
  then show ?case by (rule hub_step.loop_job)
next
  case (exit h ls l ls')
  then show ?case by (rule hub_step.loop_exit)
qed (rule hub_step.replay_push hub_step.replay_end, assumption)+

lemma sum_list_update_less:
  assumes "k < length xs" "(f :: 'a \<Rightarrow> nat) y < f (xs ! k)"
  shows "sum_list (map f (xs[k := y])) < sum_list (map f xs)"
proof -
  have "xs = take k xs @ xs ! k # drop (Suc k) xs" by (rule id_take_nth_drop [OF assms(1)])
  then have "sum_list (map f xs) = sum_list (map f (take k xs)) + (f (xs ! k) + sum_list (map f (drop (Suc k) xs)))"
    by (metis map_append list.simps(9) sum_list.append sum_list.Cons)
  then show ?thesis using assms by (simp add: upd_conv_take_nth_drop)
qed

lemma sum_list_update_same:
  assumes "k < length xs" "(f :: 'a \<Rightarrow> nat) y = f (xs ! k)"
  shows "sum_list (map f (xs[k := y])) = sum_list (map f xs)"
proof -
  have "map f (xs[k := y]) = map f xs" using assms by (simp add: map_update) (metis list_update_id map_update nth_map)
  then show ?thesis by simp
qed

lemma works_core:
  "batchWork h = sum_list (map (\<lambda>(_, _, _, b, _, _). length b) (map loopCore (hbLoops h)))"
  "jobsWork h = sum_list (map (\<lambda>(_, _, _, _, _, js). sum_list (map jobWork js)) (map loopCore (hbLoops h)))"
  by (simp_all add: batchWork_def jobsWork_def loopCore_def comp_def)

lemma closeSub_works [simp]: "batchWork (closeSub i h) = batchWork h" "jobsWork (closeSub i h) = jobsWork h"
  by (simp_all only: works_core closeSub_core)

text \<open>What the next job of a loop leaves of it.\<close>

lemma loopJob_cases:
  assumes "lpJobs (hbLoops h ! k) = j # js"
  obtains (pushed) i h1 where "j = PushJob i" "pushTo i (lpEvent (hbLoops h ! k)) h = (True, h1)"
      "loopJob k h = setLoop k ((hbLoops h ! k)\<lparr>lpJobs := js\<rparr>) h1"
    | (stalled) i h1 where "j = PushJob i" "pushTo i (lpEvent (hbLoops h ! k)) h = (False, h1)"
      "loopJob k h = setLoop k ((hbLoops h ! k)\<lparr>lpJobs := CloseJob i # js\<rparr>) h1"
    | (shut) i where "j = CloseJob i" "loopJob k h = closeSub i (setLoop k ((hbLoops h ! k)\<lparr>lpJobs := js\<rparr>) h)"
proof (cases j)
  case (PushJob i)
  obtain b h1 where "pushTo i (lpEvent (hbLoops h ! k)) h = (b, h1)" by fastforce
  with PushJob assms show thesis by (cases b) (auto intro: pushed stalled simp: loopJob_def Let_def)
next
  case (CloseJob i)
  with assms show thesis by (auto intro: shut simp: loopJob_def Let_def)
qed

lemma pushTo_loops: "pushTo i ev h = (b, h1) \<Longrightarrow> hbLoops h1 = hbLoops h"
  using pushTo_frame(4) [of i ev h] by simp

lemma loopJob_works:
  assumes k: "k < length (hbLoops h)" and j: "lpJobs (hbLoops h ! k) \<noteq> []"
  shows "batchWork (loopJob k h) = batchWork h" "jobsWork (loopJob k h) < jobsWork h"
proof -
  obtain j' js where j': "lpJobs (hbLoops h ! k) = j' # js" using j by (cases "lpJobs (hbLoops h ! k)") auto
  have b: "batchWork (setLoop k ((hbLoops h ! k)\<lparr>lpJobs := x\<rparr>) h1) = batchWork h"
    and w: "sum_list (map jobWork x) < sum_list (map jobWork (j' # js)) \<Longrightarrow> jobsWork (setLoop k ((hbLoops h ! k)\<lparr>lpJobs := x\<rparr>) h1) < jobsWork h"
    if "hbLoops h1 = hbLoops h" for x h1
    using k j' that by (simp_all add: batchWork_def jobsWork_def sum_list_update_same sum_list_update_less)
  from j' show "batchWork (loopJob k h) = batchWork h"
    by (cases rule: loopJob_cases) (simp_all add: b pushTo_loops)
  from j' show "jobsWork (loopJob k h) < jobsWork h"
    by (cases rule: loopJob_cases) (simp_all add: w pushTo_loops jobWork_def)
qed

text \<open>
  C11: the hub cannot be busy for ever with what it has read: there is no infinite sequence of
  taking entries, pushing, closing, replaying and leaving loops.
\<close>

theorem hub_drains: "wf {(h', h). internal h h'}"
proof -
  let ?m = "measures [batchWork, jobsWork, length \<circ> hbLoops, replayWork, length \<circ> hbReplays]"
  have "(h', h) \<in> ?m" if "internal h h'" for h h'
    using that
  proof cases
    case (take_entry k l js)
    then have "batchWork h' < batchWork h" by (simp add: batchWork_def loopTake_def sum_list_update_less)
    then show ?thesis by simp
  next
    case (next_job k)
    then show ?thesis using loopJob_works [of k h] by simp
  next
    case (exit ls l ls')
    then show ?thesis by (simp add: batchWork_def jobsWork_def)
  next
    case (push_replayed rs i ev evs rs')
    then show ?thesis using pushTo_frame(4) [of i ev h] by (simp add: batchWork_def jobsWork_def replayWork_def)
  next
    case (replayed rs i rs')
    then show ?thesis by (simp add: batchWork_def jobsWork_def replayWork_def)
  qed
  then show ?thesis by (intro wf_subset [OF wf_measures]) (auto simp del: in_measures)
qed

section \<open>The dispatch of one entry\<close>

text \<open>The jobs of a loop one after the other, as \<open>dispatch\<close> runs them when nothing else interferes.\<close>

function runJobs :: "nat \<Rightarrow> hub \<Rightarrow> hub" where
  "runJobs k h = (if k < length (hbLoops h) \<and> lpJobs (hbLoops h ! k) \<noteq> [] then runJobs k (loopJob k h) else h)"
  by auto

termination
  by (relation "measure (\<lambda>(k, h). jobsWork h)") (use loopJob_works in auto)

declare runJobs.simps [simp del]

definition dispatch :: "nat \<Rightarrow> hub \<Rightarrow> hub" where
  "dispatch k h = (let l = hbLoops h ! k in runJobs k (setLoop k (loopTake (recipients h l (hd (lpBatch l))) l) h))"

definition deliver :: "sevent \<Rightarrow> subscription \<Rightarrow> subscription" where
  "deliver ev s = (case push ev s of (ok, s') \<Rightarrow> if ok then s' else s'\<lparr>sbClosed := True\<rparr>)"

lemma push_open: "push ev s = (False, s') \<Longrightarrow> \<not> sbClosed s'"
  by (auto simp: push_def Let_def split: if_splits)

lemma closeSub_subs:
  "map_of (hbSubs (closeSub i h)) j = (if j = i then map_option (\<lambda>s. s\<lparr>sbClosed := True\<rparr>) (map_of (hbSubs h) i) else map_of (hbSubs h) j)"
proof (cases "map_of (hbSubs h) i")
  case (Some s)
  then show ?thesis
    by (cases "sbClosed s"; cases "map_of (hbTenants h) (sbTenant s)")
      (auto simp: closeSub_def cancelLoop_def update_conv Let_def)
qed (simp add: closeSub_def)

lemma pushTo_subs:
  assumes "pushTo i ev h = (b, h1)" "map_of (hbSubs h) i = Some s"
  shows "push ev s = (b, s') \<Longrightarrow> map_of (hbSubs h1) j = (if j = i then Some s' else map_of (hbSubs h) j)" "fst (push ev s) = b"
  using assms by (auto simp: pushTo_def update_conv split: prod.splits)

lemma closeSub_loop_at:
  assumes "k < length (hbLoops h)"
  shows "loopCore (hbLoops (closeSub i h) ! k) = loopCore (hbLoops h ! k)" "length (hbLoops (closeSub i h)) = length (hbLoops h)"
proof -
  show len: "length (hbLoops (closeSub i h)) = length (hbLoops h)" using closeSub_core [of i h] by (metis length_map)
  show "loopCore (hbLoops (closeSub i h) ! k) = loopCore (hbLoops h ! k)"
    using closeSub_core [of i h] assms len by (metis nth_map)
qed

text \<open>One push with the closing it may need.\<close>

lemma runJobs_push:
  assumes k: "k < length (hbLoops h)" and j: "lpJobs (hbLoops h ! k) = PushJob i # js" and s: "map_of (hbSubs h) i = Some s"
  obtains h1 where "runJobs k h = runJobs k h1" "k < length (hbLoops h1)" "lpJobs (hbLoops h1 ! k) = js" "lpEvent (hbLoops h1 ! k) = lpEvent (hbLoops h ! k)"
    "lpBatch (hbLoops h1 ! k) = lpBatch (hbLoops h ! k)"
    "\<And>x. map_of (hbSubs h1) x = (if x = i then Some (deliver (lpEvent (hbLoops h ! k)) s) else map_of (hbSubs h) x)"
proof -
  let ?ev = "lpEvent (hbLoops h ! k)"
  obtain b s' where p: "push ?ev s = (b, s')" by fastforce
  have run: "runJobs k h = runJobs k (loopJob k h)" using k j by (simp add: runJobs.simps [of k h])
  from j show thesis
  proof (cases rule: loopJob_cases)
    case (pushed i' h1)
    then have l: "hbLoops h1 = hbLoops h" "b" using pushTo_loops pushTo_subs(2) [of i ?ev h True h1 s] s p by auto
    show thesis
      by (rule that [OF run]) (use pushed k l p pushTo_subs(1) [OF pushed(2), of s s'] s in \<open>auto simp: deliver_def setLoop_def\<close>)
  next
    case (stalled i' h1)
    then have i: "i' = i" and l: "hbLoops h1 = hbLoops h" "\<not> b"
      using pushTo_loops pushTo_subs(2) [of i ?ev h False h1 s] s p by auto
    let ?h2 = "loopJob k h"
    have k2: "k < length (hbLoops ?h2)" "lpJobs (hbLoops ?h2 ! k) = CloseJob i # js" "lpEvent (hbLoops ?h2 ! k) = ?ev"
      "lpBatch (hbLoops ?h2 ! k) = lpBatch (hbLoops h ! k)"
      using stalled(3) k l i by simp_all
    let ?h3 = "setLoop k ((hbLoops ?h2 ! k)\<lparr>lpJobs := js\<rparr>) ?h2"
    have h3: "loopJob k ?h2 = closeSub i ?h3" using k2(2) by (simp add: loopJob_def Let_def)
    have run2: "runJobs k h = runJobs k (closeSub i ?h3)" using run h3 k2 by (simp add: runJobs.simps [of k ?h2])
    have k3: "k < length (hbLoops ?h3)" using k2(1) by simp
    have core: "loopCore (hbLoops (closeSub i ?h3) ! k) = loopCore (hbLoops ?h3 ! k)" by (rule closeSub_loop_at(1) [OF k3])
    have subs: "hbSubs ?h3 = hbSubs h1" using stalled(3) by (simp add: setLoop_def)
    show thesis
    proof (rule that [OF run2])
      show "k < length (hbLoops (closeSub i ?h3))" using closeSub_loop_at(2) [OF k3] k3 by simp
      show "lpJobs (hbLoops (closeSub i ?h3) ! k) = js" "lpEvent (hbLoops (closeSub i ?h3) ! k) = ?ev"
        "lpBatch (hbLoops (closeSub i ?h3) ! k) = lpBatch (hbLoops h ! k)"
        using core k2 by (simp_all add: loopCore_def)
      show "map_of (hbSubs (closeSub i ?h3)) x = (if x = i then Some (deliver ?ev s) else map_of (hbSubs h) x)" for x
        using pushTo_subs(1) [OF stalled(2), of s s'] s p l i by (simp add: closeSub_subs subs deliver_def)
    qed
  qed simp
qed

lemma runJobs_subs:
  assumes "k < length (hbLoops h)" "lpJobs (hbLoops h ! k) = map PushJob js" "distinct js" "\<forall>i \<in> set js. map_of (hbSubs h) i \<noteq> None"
  shows "lpJobs (hbLoops (runJobs k h) ! k) = [] \<and> lpBatch (hbLoops (runJobs k h) ! k) = lpBatch (hbLoops h ! k) \<and>
    map_of (hbSubs (runJobs k h)) x =
      (if x \<in> set js then map_option (deliver (lpEvent (hbLoops h ! k))) (map_of (hbSubs h) x) else map_of (hbSubs h) x)"
  using assms
proof (induction js arbitrary: h)
  case Nil
  then show ?case by (simp add: runJobs.simps [of k h])
next
  case (Cons i js)
  obtain s where s: "map_of (hbSubs h) i = Some s" using Cons.prems(4) by auto
  obtain h1 where h1: "runJobs k h = runJobs k h1" "k < length (hbLoops h1)" "lpJobs (hbLoops h1 ! k) = map PushJob js"
    "lpEvent (hbLoops h1 ! k) = lpEvent (hbLoops h ! k)" "lpBatch (hbLoops h1 ! k) = lpBatch (hbLoops h ! k)"
    and m: "\<And>x. map_of (hbSubs h1) x = (if x = i then Some (deliver (lpEvent (hbLoops h ! k)) s) else map_of (hbSubs h) x)"
    using runJobs_push [OF Cons.prems(1) _ s, of "map PushJob js"] Cons.prems(2) by auto
  have "\<forall>i \<in> set js. map_of (hbSubs h1) i \<noteq> None" using Cons.prems(4) m by simp
  from Cons.IH [OF h1(2,3) _ this] show ?case using Cons.prems(3) h1 m s by auto
qed

text \<open>The run to the end of a dispatch is a run of the hub.\<close>

lemma runJobs_internal: "internal\<^sup>*\<^sup>* h (runJobs k h)"
proof (induction k h rule: runJobs.induct)
  case (1 k h)
  show ?case
  proof (cases "k < length (hbLoops h) \<and> lpJobs (hbLoops h ! k) \<noteq> []")
    case True
    then have "internal h (loopJob k h)" by (simp add: internal.next_job)
    then show ?thesis using 1 [OF True] True by (simp add: runJobs.simps [of k h] converse_rtranclp_into_rtranclp)
  qed (auto simp: runJobs.simps [of k h])
qed

lemma recipients_ok:
  assumes "hub_ok h"
  shows "distinct (recipients h l e)" "\<forall>i \<in> set (recipients h l e). map_of (hbSubs h) i \<noteq> None"
  using hub_okD(1) [OF assms] by (auto simp: recipients_def tenant_ok_def split: option.splits if_splits)



end
