(* ===== verification/StreamSse.thy ===== *)
theory StreamSse
  imports StreamLive
begin

text \<open>
  Reading back what the hub writes: a client of the event stream gets the events the connection took from its
  buffer, an identifier of an entry gives back its time and number, and the order of identifiers is the order of publication.
\<close>

section \<open>A reader of the event stream\<close>

text \<open>
  Lines end with a line feed; a blank line ends an event that has data; comments and other fields are left out, as in the
  event stream format of the HTML standard.
\<close>

fun sseLines :: "string \<Rightarrow> string list" where
  "sseLines [] = []"
| "sseLines (c # s) = (if c = CHR 0x0A then [] # sseLines s else (case sseLines s of [] \<Rightarrow> [] | l # ls \<Rightarrow> (c # l) # ls))"

definition noEvent :: sevent where
  "noEvent = \<lparr>svID = [], svType = [], svData = []\<rparr>"

fun sseRead :: "sevent \<Rightarrow> bool \<Rightarrow> string list \<Rightarrow> sevent list" where
  "sseRead cur has [] = []"
| "sseRead cur has (l # ls) =
     (if l = [] then (if has then cur # sseRead noEvent False ls else sseRead noEvent False ls)
      else if take 4 l = ''id: '' then sseRead (cur\<lparr>svID := drop 4 l\<rparr>) has ls
      else if take 7 l = ''event: '' then sseRead (cur\<lparr>svType := drop 7 l\<rparr>) has ls
      else if take 6 l = ''data: '' then sseRead (cur\<lparr>svData := (if has then svData cur @ nl else []) @ drop 6 l\<rparr>) True ls
      else sseRead cur has ls)"

definition sseEvents :: "string \<Rightarrow> sevent list" where
  "sseEvents s = sseRead noEvent False (sseLines s)"

definition oneLine :: "string \<Rightarrow> bool" where
  "oneLine s \<longleftrightarrow> CHR 0x0A \<notin> set s \<and> CHR 0x0D \<notin> set s"

text \<open>What the turns of the connection send: the data of an event on one line, and a farewell at the deadline.\<close>

fun sent :: "turn list \<Rightarrow> sevent list" where
  "sent [] = []"
| "sent (Gone # _) = []"
| "sent (Deadline # _) = [\<lparr>svID = [], svType = ''bye'', svData = ''{}''\<rparr>]"
| "sent (Ping # ts) = sent ts"
| "sent (Next ev # ts) = ev\<lparr>svData := filter (\<lambda>c. c \<noteq> CHR 0x0D \<and> c \<noteq> CHR 0x0A) (svData ev)\<rparr> # sent ts"
| "sent (Ended # _) = []"

fun plainTurn :: "turn \<Rightarrow> bool" where
  "plainTurn (Next ev) \<longleftrightarrow> oneLine (svID ev) \<and> oneLine (svType ev)"
| "plainTurn _ \<longleftrightarrow> True"

lemma sseLines_line: "CHR 0x0A \<notin> set u \<Longrightarrow> sseLines (u @ CHR 0x0A # s) = u # sseLines s"
  by (induction u) auto

lemma sseRead_frame:
  assumes "oneLine (svID ev)" "oneLine (svType ev)"
  shows "sseRead noEvent False (sseLines (Frame ev @ s)) =
    ev\<lparr>svData := filter (\<lambda>c. c \<noteq> CHR 0x0D \<and> c \<noteq> CHR 0x0A) (svData ev)\<rparr> # sseRead noEvent False (sseLines s)"
proof -
  let ?d = "filter (\<lambda>c. c \<noteq> CHR 0x0D \<and> c \<noteq> CHR 0x0A) (svData ev)"
  have l: "sseLines (Frame ev @ s) = (if svID ev \<noteq> [] then [''id: '' @ svID ev] else []) @ [''event: '' @ svType ev, ''data: '' @ ?d, []] @ sseLines s"
    using assms sseLines_line [of "''id: '' @ svID ev"] sseLines_line [of "''event: '' @ svType ev"] sseLines_line [of "''data: '' @ ?d"]
    by (simp add: Frame_def oneLine_def nl_def)
  show ?thesis unfolding l by (cases ev) (simp add: noEvent_def)
qed

lemma sseRead_turns:
  "list_all plainTurn ts \<Longrightarrow> sseRead noEvent False (sseLines (sseTurns ts)) = sent ts"
proof (induction ts rule: sseTurns.induct)
  case (3 ts)
  show ?case by (simp add: nl_def noEvent_def)
next
  case (4 ts)
  then show ?case by (simp add: nl_def)
next
  case (5 ev ts)
  then show ?case by (simp add: sseRead_frame)
qed simp_all

lemma retry_text: "Itoa RetryMillis = ''3000''"
  by (simp add: Itoa_def RetryMillis_def natText.simps) code_simp



section \<open>Identifiers\<close>

lemma byte_digit: "n < 10 \<Longrightarrow> byte (char_of (48 + n :: nat)) = 48 + n"
  by (simp add: byte_def)

lemma isDigit_digit: "n < 10 \<Longrightarrow> isDigit (char_of (48 + n :: nat))"
  by (simp add: isDigit_def byte_digit)

lemma parseUint_snoc: "parseUint n (s @ [c]) = (case parseUint n s of UintVal v \<Rightarrow> parseUint v [c] | e \<Rightarrow> e)"
  by (induction s arbitrary: n) auto

lemma parseUint_natText: "n < 2 ^ 64 \<Longrightarrow> parseUint 0 (natText n) = UintVal n"
proof (induction n rule: natText.induct)
  case (1 n)
  have m: "10 * (n div 10) + n mod 10 = n" by simp
  show ?case
  proof (cases "n < 10")
    case True
    then show ?thesis by (simp add: natText.simps [of n] isDigit_digit byte_digit)
  next
    case False
    have "n div 10 < 2 ^ 64" using 1(2) by simp
    then have "parseUint 0 (natText (n div 10)) = UintVal (n div 10)" using 1(1) False by simp
    then show ?thesis using False 1(2) m
      by (simp add: natText.simps [of n] parseUint_snoc isDigit_digit byte_digit)
  qed
qed

lemma natText_digits: "list_all isDigit (natText n)"
  by (induction n rule: natText.induct) (subst natText.simps, simp add: isDigit_digit)

lemma natText_nonempty [simp]: "natText n \<noteq> []"
  by (subst natText.simps) simp

lemma isDigit_sign: "\<not> isDigit CHR ''-''" "\<not> isDigit CHR ''+''"
  by (simp_all add: isDigit_def byte_def)

lemma natText_sign: "CHR ''-'' \<notin> set (natText n)" "hd (natText n) \<notin> {CHR ''-'', CHR ''+''}"
proof -
  have d: "\<forall>c \<in> set (natText n). isDigit c" using natText_digits [of n] by (simp add: list_all_iff)
  then show "CHR ''-'' \<notin> set (natText n)" using isDigit_sign by blast
  have "isDigit (hd (natText n))" using d by simp
  then show "hd (natText n) \<notin> {CHR ''-'', CHR ''+''}" using isDigit_sign by auto
qed

lemma ParseInt_Itoa: "0 \<le> i \<Longrightarrow> i < 2 ^ 63 \<Longrightarrow> ParseInt (Itoa i) = (i, True)"
  using natText_sign(2) [of "nat i"] by (simp add: ParseInt_def Itoa_def parseUint_natText Let_def nat_less_iff)

lemma before_first_append: "c \<notin> set u \<Longrightarrow> before_first c (u @ c # s) = u"
  by (induction u) (auto simp: before_first_def)

lemma ParseID_text:
  assumes "0 \<le> a" "a < 2 ^ 63" "0 \<le> b" "b < 2 ^ 63"
  shows "ParseID (Itoa a @ ''-'' @ Itoa b) = (a, b, True)"
proof -
  have "before_first CHR ''-'' (Itoa a @ ''-'' @ Itoa b) = Itoa a"
    using before_first_append [of "CHR ''-''" "Itoa a"] natText_sign(1) assms(1) by (simp add: Itoa_def)
  then show ?thesis using ParseInt_Itoa assms by (simp add: ParseID_def)
qed

lemma sint_word_less: "sint (w :: 64 word) < 2 ^ 63"
  using sint_lt [of w] by simp

text \<open>
  The identifier of an entry gives back the millisecond and the number it was made from, and
  identifiers are ordered by time and then by number, so entries published later come later.
\<close>

theorem streamID_roundtrip:
  assumes "0 \<le> sint (UnixMilli at)" "0 \<le> sint (UnixMilli at')" "0 \<le> sint q" "0 \<le> sint q'"
  shows "ParseID (streamID at q) = (sint (UnixMilli at), sint q, True) \<and>
    (Less (streamID at q) (streamID at' q') \<longleftrightarrow>
       sint (UnixMilli at) < sint (UnixMilli at') \<or> (sint (UnixMilli at) = sint (UnixMilli at') \<and> q <s q'))"
proof -
  have "ParseID (streamID at q) = (sint (UnixMilli at), sint q, True)" "ParseID (streamID at' q') = (sint (UnixMilli at'), sint q', True)"
    unfolding streamID_def using assms by (simp_all only: ParseID_text sint_word_less)
  then show ?thesis by (auto simp: Less_def word_sless_alt)
qed

theorem streamID_roundtrip_witness:
  "ParseID (streamID demo_at 1) = (7, 1, True) \<and> Less (streamID demo_at 1) (streamID demo_at 2)"
proof -
  have "sint (UnixMilli demo_at) = 7" "sint (1 :: 64 word) = 1" "sint (2 :: 64 word) = 2" "(1 :: 64 word) <s 2" by code_simp+
  then show ?thesis using streamID_roundtrip [of demo_at demo_at 1 2] by simp
qed

section \<open>A replay that does not fit\<close>

text \<open>
  A replay goes on when the buffer is full: the connection stays open, the event is left out and, being
  recorded as the last one, cannot be delivered later.
\<close>

theorem replay_overflow:
  assumes "map_of (hbSubs h) i = Some s" "\<not> sbClosed s" "length (sbQueue s) = connBuffer" "svID ev \<noteq> []" "sbLast s = [] \<or> Less (sbLast s) (svID ev)"
    and "hbReplays h = rs @ ReplayEvents i (ev # evs) # rs'"
  shows "\<exists>h'. hub_step jv h Silent h' \<and> map_of (hbSubs h') i = Some (s\<lparr>sbLast := svID ev\<rparr>) \<and> push ev (s\<lparr>sbLast := svID ev\<rparr>) = (True, s\<lparr>sbLast := svID ev\<rparr>)"
proof -
  have "map_of (hbSubs (snd (pushTo i ev h))) i = Some (s\<lparr>sbLast := svID ev\<rparr>)"
    using assms(1-5) by (auto simp: pushTo_def push_def update_conv Let_def)
  moreover have "push ev (s\<lparr>sbLast := svID ev\<rparr>) = (True, s\<lparr>sbLast := svID ev\<rparr>)" using assms(4) by (simp add: push_def Less_irrefl)
  ultimately show ?thesis using hub_step.replay_push [OF assms(6), of jv] by auto
qed

end
