(* ===== verification/Backup.thy ===== *)
theory Backup
  imports World MemIso
begin

text \<open>
  Export and import of a tenant's data (\<open>internal/backup\<close>). The document is a record of rows; an import applies
  it row by row to the store, counting what it wrote and what it left out. The counts returned beside an error are
  not modelled: no caller reads them.
\<close>

section \<open>The document\<close>

definition SchemaVersion :: int where "SchemaVersion = 1"
definition ModeSkip :: string where "ModeSkip = ''skip''"
definition ModeOverwrite :: string where "ModeOverwrite = ''overwrite''"
definition MaxRows :: nat where "MaxRows = 200000"
definition CTags :: string where "CTags = ''tags''"
definition CMailboxes :: string where "CMailboxes = ''mailboxes''"
definition CRules :: string where "CRules = ''rules''"
definition CTickets :: string where "CTickets = ''tickets''"
definition CTagLinks :: string where "CTagLinks = ''tag_links''"
definition CComments :: string where "CComments = ''comments''"
definition CHistory :: string where "CHistory = ''history''"
definition CAttachments :: string where "CAttachments = ''attachments''"

record ticket_row =
  trTicket :: ticket
  trBodyHTML :: string

record attachment_row =
  arAttachment :: attachment
  arStorageKey :: string

record backup =
  bkSchemaVersion :: int
  bkExportedAt :: time
  bkTenantID :: string
  bkTags :: "tag list"
  bkMailboxes :: "mailbox list"
  bkRules :: "rule list"
  bkTickets :: "ticket_row list"
  bkTagLinks :: "taglink list"
  bkComments :: "comment list"
  bkHistory :: "history list"
  bkAttachments :: "attachment_row list"

record bk_options =
  boMode :: string
  boTenantID :: string
  boFull :: bool

record bk_result =
  brTenantID :: string
  brMode :: string
  brImported :: "string \<Rightarrow> nat"
  brSkipped :: "string \<Rightarrow> nat"
  brDeleted :: nat

section \<open>Authorisation and export\<close>

definition hexChar :: "char \<Rightarrow> bool" where
  "hexChar c \<longleftrightarrow> (48 \<le> byte c \<and> byte c \<le> 57) \<or> (97 \<le> byte c \<and> byte c \<le> 102) \<or> (65 \<le> byte c \<and> byte c \<le> 70)"

definition isUUID :: "string \<Rightarrow> bool" where
  "isUUID s \<longleftrightarrow> length s = 36 \<and>
     list_all (\<lambda>(i, c). if i \<in> {8, 13, 18, 23} then c = CHR ''-'' else hexChar c) (zip [0..<36] s)"

definition bkTarget :: "subjects \<Rightarrow> string \<Rightarrow> string res" where
  "bkTarget subj tenantID =
     (case RequireTenant subj (suTenantID subj) of
        Inl e \<Rightarrow> Inl e
      | Inr _ \<Rightarrow>
          if tenantID = [] \<or> tenantID = suTenantID subj then Inr (suTenantID subj)
          else
          (case RequirePlatformAdmin subj of
             Inl e \<Rightarrow> Inl e
           | Inr _ \<Rightarrow> if \<not> isUUID tenantID then Inl (BkBadSchema ''tenant_id'') else Inr tenantID))"

fun isForbidden :: "err \<Rightarrow> bool" where
  "isForbidden (Forbidden _) \<longleftrightarrow> True"
| "isForbidden _ \<longleftrightarrow> False"

definition bkRefused :: "subjects \<Rightarrow> string \<Rightarrow> string \<Rightarrow> ('a world_scheme, unit) op" where
  "bkRefused subj t reason =
     Emit \<lparr>evTenantID = (if suTenantID subj = [] then NilTenant else suTenantID subj), evEventType = t,
       evActorKind = ActorOf (suActorKind subj), evActorID = ActorID subj, evSubjectKind = SubjectBackup,
       evSubjectID = t, evOutcome = OutcomeRefused, evReason = reason, evDetails = []\<rparr>"

text \<open>A refused target is audited when the caller lacks the right.\<close>

definition authorised :: "subjects \<Rightarrow> string \<Rightarrow> string res \<Rightarrow> ('a world_scheme, string) op" where
  "authorised subj t r =
     (case r of
        Inl e \<Rightarrow> bnd (if isForbidden e then bkRefused subj t ''platform-admin required'' else ret ()) (\<lambda>_. throw e)
      | Inr tgt \<Rightarrow> ret tgt)"

definition bkAudit :: "subjects \<Rightarrow> string \<Rightarrow> string \<Rightarrow> string \<Rightarrow> (string \<times> any) list \<Rightarrow> ('a world_scheme, unit) op" where
  "bkAudit subj tgt t ident details =
     Emit \<lparr>evTenantID = tgt, evEventType = t, evActorKind = ActorOf (suActorKind subj), evActorID = ActorID subj,
       evSubjectKind = SubjectBackup, evSubjectID = ident, evOutcome = OutcomeOK, evReason = [], evDetails = details\<rparr>"

definition bkExport :: "subjects \<Rightarrow> string \<Rightarrow> ('a world_scheme, backup) op" where
  "bkExport subj tenantID =
     bnd (authorised subj BackupExport (bkTarget subj tenantID)) (\<lambda>t.
     bnd Now (\<lambda>now.
     bnd (ListTags t []) (\<lambda>tgs.
     bnd (ListMailboxes t) (\<lambda>mbs.
     bnd (ListRules t) (\<lambda>rls.
     bnd (AllTickets t) (\<lambda>tks.
     bnd (AllTagLinks t) (\<lambda>lks.
     bnd (AllComments t) (\<lambda>cms.
     bnd (AllHistory t) (\<lambda>his.
     bnd (AllAttachments t) (\<lambda>ats.
     let b = \<lparr>bkSchemaVersion = SchemaVersion, bkExportedAt = now, bkTenantID = t, bkTags = tgs, bkMailboxes = mbs,
           bkRules = rls, bkTickets = map (\<lambda>tk. \<lparr>trTicket = tk, trBodyHTML = tkBodyHTML tk\<rparr>) tks,
           bkTagLinks = lks, bkComments = cms, bkHistory = his,
           bkAttachments = map (\<lambda>a. \<lparr>arAttachment = a, arStorageKey = atStorageKey a\<rparr>) ats\<rparr>
     in bnd (bkAudit subj t BackupExport ''export''
              [(''tickets'', VInt (int (length (bkTickets b)))), (''comments'', VInt (int (length (bkComments b)))),
               (''cross_tenant'', VBool (t \<noteq> suTenantID subj))]) (\<lambda>_.
        ret b)))))))))))"

section \<open>Validation\<close>

text \<open>The counts that messages mention are left out of them.\<close>

definition ids :: "string \<Rightarrow> string list \<Rightarrow> string list \<Rightarrow> unit res" where
  "ids what required optional =
     (if \<exists>v \<in> set required. \<not> isUUID v then Inl (BkBadSchema (what @ '' id''))
      else if \<exists>v \<in> set optional. v \<noteq> [] \<and> \<not> isUUID v then Inl (BkBadSchema (what @ '' reference''))
      else Inr ())"

text \<open>The first row that is refused decides.\<close>

fun allRows :: "('x \<Rightarrow> unit res) \<Rightarrow> 'x list \<Rightarrow> unit res" where
  "allRows f [] = Inr ()"
| "allRows f (x # xs) = (case f x of Inl e \<Rightarrow> Inl e | Inr _ \<Rightarrow> allRows f xs)"

definition andThen :: "unit res \<Rightarrow> unit res \<Rightarrow> unit res" where
  "andThen a b = (case a of Inl e \<Rightarrow> Inl e | Inr _ \<Rightarrow> b)"

definition require :: "bool \<Rightarrow> string \<Rightarrow> unit res" where
  "require ok what = (if ok then Inr () else Inl (BkBadSchema what))"

definition bkSizes :: "backup \<Rightarrow> (string \<times> nat) list" where
  "bkSizes b = [(CTags, length (bkTags b)), (CMailboxes, length (bkMailboxes b)), (CRules, length (bkRules b)),
     (CTickets, length (bkTickets b)), (CTagLinks, length (bkTagLinks b)), (CComments, length (bkComments b)),
     (CHistory, length (bkHistory b)), (CAttachments, length (bkAttachments b))]"

definition bkValidate :: "backup \<Rightarrow> unit res" where
  "bkValidate b =
     andThen (require (bkSchemaVersion b = SchemaVersion) ''schema version'') (
     andThen (allRows (\<lambda>(name, n). if n > MaxRows then Inl (BkTooLarge name) else Inr ()) (bkSizes b)) (
     andThen (require (bkTenantID b = [] \<or> isUUID (bkTenantID b)) ''tenant_id'') (
     andThen (allRows (\<lambda>t. andThen (ids ''tag'' [tgID t] [])
       (require (TrimSpace (tgName t) \<noteq> [] \<and> ValidKind (tgKind t)) ''tag name/kind'')) (bkTags b)) (
     andThen (allRows (\<lambda>m. andThen (ids ''mailbox'' [mbID m] [])
       (require (Contains (mbAddress m) ''@'') ''mailbox address'')) (bkMailboxes b)) (
     andThen (allRows (\<lambda>r. andThen (ids ''rule'' [ruID r] [])
       (require (TrimSpace (ruName r) \<noteq> []) ''rule name'')) (bkRules b)) (
     andThen (allRows (\<lambda>row. let t = trTicket row in andThen (ids ''ticket'' [tkID t] [tkMailboxID t])
       (require ((tkStatus t = [] \<or> ValidStatus (tkStatus t)) \<and> (tkPriority t = [] \<or> ValidPriority (tkPriority t)))
          ''ticket status/priority'')) (bkTickets b)) (
     andThen (allRows (\<lambda>l. ids ''tag link'' [tlTicketID l, tlTagID l] []) (bkTagLinks b)) (
     andThen (allRows (\<lambda>c. ids ''comment'' [cmID c, cmTicketID c] []) (bkComments b)) (
     andThen (allRows (\<lambda>h. ids ''history'' [hiID h, hiTicketID h] []) (bkHistory b)) (
     allRows (\<lambda>a. ids ''attachment'' [atID (arAttachment a), atTicketID (arAttachment a)] [atCommentID (arAttachment a)])
       (bkAttachments b)))))))))))"

section \<open>Import\<close>

text \<open>The state of one import: the counts, and the tickets it created.\<close>

record importer =
  imImported :: "string \<Rightarrow> nat"
  imSkipped :: "string \<Rightarrow> nat"
  imCreated :: "string list"

definition imported :: "string \<Rightarrow> nat \<Rightarrow> importer \<Rightarrow> importer" where
  "imported c n im = im\<lparr>imImported := (imImported im)(c := imImported im c + n)\<rparr>"

definition skipped :: "string \<Rightarrow> nat \<Rightarrow> importer \<Rightarrow> importer" where
  "skipped c n im = im\<lparr>imSkipped := (imSkipped im)(c := imSkipped im c + n)\<rparr>"

definition isHeld :: "err \<Rightarrow> bool" where
  "isHeld e \<longleftrightarrow> err_is e RepoConflict \<or> err_is e RepoNotFound"

text \<open>A write that counts as done, or as left out when the row is held by another or gone.\<close>

definition settle :: "string \<Rightarrow> nat \<Rightarrow> 'x res \<Rightarrow> importer \<Rightarrow> ('w, importer) op" where
  "settle c n r im =
     (case r of
        Inr _ \<Rightarrow> ret (imported c n im)
      | Inl e \<Rightarrow> if isHeld e then ret (skipped c n im) else throw e)"

definition upsert ::
  "string \<Rightarrow> string \<Rightarrow> ('w, 'x) op \<Rightarrow> ('w, unit) op \<Rightarrow> ('w, 'y) op \<Rightarrow> importer \<Rightarrow> ('w, bool \<times> importer) op" where
  "upsert mode c exists create update im =
     bnd (attempt exists) (\<lambda>r.
     case r of
       Inr _ \<Rightarrow>
         if mode \<noteq> ModeOverwrite then ret (False, skipped c 1 im)
         else bnd (attempt update) (\<lambda>r. bnd (settle c 1 r im) (\<lambda>im'. ret (False, im')))
     | Inl e \<Rightarrow>
         if err_is e RepoNotFound
         then bnd (attempt create) (\<lambda>r. bnd (settle c 1 r im) (\<lambda>im'. ret (r = Inr (), im')))
         else throw e)"

definition child :: "string \<Rightarrow> ('w, 'x) op \<Rightarrow> ('w, unit) op \<Rightarrow> importer \<Rightarrow> ('w, importer) op" where
  "child c exists create im =
     bnd (attempt exists) (\<lambda>r.
     case r of
       Inr _ \<Rightarrow> ret (skipped c 1 im)
     | Inl e \<Rightarrow> if \<not> err_is e RepoNotFound then throw e else bnd (attempt create) (\<lambda>r. settle c 1 r im))"

definition importTag :: "string \<Rightarrow> string \<Rightarrow> tag \<Rightarrow> importer \<Rightarrow> ('a mem_scheme, importer) op" where
  "importTag mode tgt t im =
     (let t' = t\<lparr>tgTenantID := tgt\<rparr>
      in bnd (upsert mode CTags (GetTag tgt (tgID t)) (CreateTag t') (UpdateTag t') im) (\<lambda>(_, im'). ret im'))"

definition importMailbox :: "string \<Rightarrow> string \<Rightarrow> mailbox \<Rightarrow> importer \<Rightarrow> ('a mem_scheme, importer) op" where
  "importMailbox mode tgt m im =
     bnd (fetch ucd) (\<lambda>u.
     let m' = m\<lparr>mbTenantID := tgt, mbAddress := ToLower u (TrimSpace (mbAddress m))\<rparr>
     in bnd (upsert mode CMailboxes (GetMailbox tgt (mbID m)) (CreateMailbox m') (UpdateMailbox m') im) (\<lambda>(_, im'). ret im'))"

definition importRule :: "string \<Rightarrow> string \<Rightarrow> rule \<Rightarrow> importer \<Rightarrow> ('a mem_scheme, importer) op" where
  "importRule mode tgt r im =
     (let r' = r\<lparr>ruTenantID := tgt\<rparr>
      in bnd (upsert mode CRules (GetRule tgt (ruID r)) (CreateRule r') (UpdateRule r') im) (\<lambda>(_, im'). ret im'))"

definition overwriteTicket :: "string \<Rightarrow> ticket \<Rightarrow> ('a mem_scheme, ticket) op" where
  "overwriteTicket tgt t =
     bnd (if tkUpdatedAt t = 0 then Now else ret (tkUpdatedAt t)) (\<lambda>at.
     bnd (UpdateTicket tgt (tkID t) \<lparr>tpSubject = Some (tkSubject t), tpDescription = Some (tkDescription t),
            tpPriority = (if tkPriority t \<noteq> [] then Some (tkPriority t) else None)\<rparr> at) (\<lambda>_.
     bnd (if tkStatus t \<noteq> [] then bnd (SetStatus tgt (tkID t) (tkStatus t) at) (\<lambda>_. ret ()) else ret ()) (\<lambda>_.
     SetAssignee tgt (tkID t) (tkAssigneeID t) (tkAssigneeName t) at)))"

definition restoredTicket :: "string \<Rightarrow> string list \<Rightarrow> ticket_row \<Rightarrow> ticket" where
  "restoredTicket tgt known row =
     (let t = trTicket row
      in t\<lparr>tkTenantID := tgt, tkBodyHTML := trBodyHTML row,
           tkMailboxID := (if tkMailboxID t \<in> set known then tkMailboxID t else []),
           tkSubject := (if TrimSpace (tkSubject t) = [] then ''(no subject)'' else tkSubject t),
           tkCommentCount := 0, tkLastMessageID := []\<rparr>)"

definition importTicket :: "string \<Rightarrow> string \<Rightarrow> string list \<Rightarrow> ticket_row \<Rightarrow> importer \<Rightarrow> ('a mem_scheme, importer) op" where
  "importTicket mode tgt known row im =
     (let t = restoredTicket tgt known row
      in bnd (upsert mode CTickets (GetTicket tgt (tkID t)) (CreateTicket t) (overwriteTicket tgt t) im) (\<lambda>(created, im').
         ret (if created then im'\<lparr>imCreated := tkID t # imCreated im'\<rparr> else im')))"

definition importTickets :: "string \<Rightarrow> string \<Rightarrow> ticket_row list \<Rightarrow> importer \<Rightarrow> ('a mem_scheme, importer) op" where
  "importTickets mode tgt ticketRows im =
     bnd (ListMailboxes tgt) (\<lambda>mbs.
     fold_op (importTicket mode tgt (map mbID mbs)) ticketRows im)"

text \<open>The tags to add to a ticket that has \<open>linked\<close>, each once, and how many were left out.\<close>

fun newLinks :: "string list \<Rightarrow> string list \<Rightarrow> string list \<times> nat" where
  "newLinks linked [] = ([], 0)"
| "newLinks linked (g # gs) =
     (if g \<in> set linked then (case newLinks linked gs of (add, n) \<Rightarrow> (add, Suc n))
      else (case newLinks (g # linked) gs of (add, n) \<Rightarrow> (g # add, n)))"

definition linkTicket :: "string \<Rightarrow> tag list table \<Rightarrow> taglink list \<Rightarrow> string \<Rightarrow> importer \<Rightarrow> ('a mem_scheme, importer) op" where
  "linkTicket tgt have linkRows tid im =
     (case newLinks (case map_of have tid of None \<Rightarrow> [] | Some ts \<Rightarrow> map tgID ts)
         (map tlTagID (filter (\<lambda>l. tlTicketID l = tid) linkRows)) of
        (add, n) \<Rightarrow>
          if add = [] then ret (skipped CTagLinks n im)
          else bnd (attempt (AddTicketTags tgt tid add)) (\<lambda>r. settle CTagLinks (length add) r (skipped CTagLinks n im)))"

text \<open>The tickets in the order in which their first link appears.\<close>

definition linkOrder :: "taglink list \<Rightarrow> string list" where
  "linkOrder linkRows = rev (remdups (rev (map tlTicketID linkRows)))"

definition importLinks :: "string \<Rightarrow> taglink list \<Rightarrow> importer \<Rightarrow> ('a mem_scheme, importer) op" where
  "importLinks tgt linkRows im =
     (if linkOrder linkRows = [] then ret im
      else
      bnd (TagsForTickets tgt (linkOrder linkRows)) (\<lambda>have.
      fold_op (linkTicket tgt have linkRows) (linkOrder linkRows) im))"

definition importComment :: "string \<Rightarrow> comment \<Rightarrow> importer \<Rightarrow> ('a mem_scheme, importer) op" where
  "importComment tgt c im = child CComments (GetComment tgt (cmID c)) (CreateComment (c\<lparr>cmTenantID := tgt\<rparr>)) im"

definition importHistory :: "string \<Rightarrow> history \<Rightarrow> importer \<Rightarrow> ('a mem_scheme, importer) op" where
  "importHistory tgt h im =
     (if hiTicketID h \<notin> set (imCreated im) then ret (skipped CHistory 1 im)
      else bnd (attempt (AppendHistory (h\<lparr>hiTenantID := tgt\<rparr>))) (\<lambda>r. settle CHistory 1 r im))"

definition importAttachment :: "string \<Rightarrow> attachment_row \<Rightarrow> importer \<Rightarrow> ('a mem_scheme, importer) op" where
  "importAttachment tgt a im =
     (if \<not> HasPrefix (arStorageKey a) (''tenants/'' @ tgt @ ''/'') \<or> Contains (arStorageKey a) ''..''
      then ret (skipped CAttachments 1 im)
      else
      (let row = (arAttachment a)\<lparr>atTenantID := tgt, atStorageKey := arStorageKey a\<rparr>
       in child CAttachments (GetAttachment tgt (atTicketID row) (atID row)) (CreateAttachment row) im))"

definition importRun :: "string \<Rightarrow> string \<Rightarrow> backup \<Rightarrow> importer \<Rightarrow> ('a mem_scheme, importer) op" where
  "importRun mode tgt b im =
     bnd (fold_op (importTag mode tgt) (bkTags b) im) (\<lambda>im.
     bnd (fold_op (importMailbox mode tgt) (bkMailboxes b) im) (\<lambda>im.
     bnd (fold_op (importRule mode tgt) (bkRules b) im) (\<lambda>im.
     bnd (importTickets mode tgt (bkTickets b) im) (\<lambda>im.
     bnd (importLinks tgt (bkTagLinks b) im) (\<lambda>im.
     bnd (fold_op (importComment tgt) (bkComments b) im) (\<lambda>im.
     bnd (fold_op (importHistory tgt) (bkHistory b) im) (\<lambda>im.
     fold_op (importAttachment tgt) (bkAttachments b) im)))))))"

section \<open>A full restore\<close>

text \<open>A deletion of the wipe: a row that is gone already is as good as deleted.\<close>

definition orGone :: "'x \<Rightarrow> ('w, 'x) op \<Rightarrow> ('w, 'x) op" where
  "orGone none f = bnd (attempt f) (\<lambda>r. case r of Inr x \<Rightarrow> ret x | Inl e \<Rightarrow> if err_is e RepoNotFound then ret none else throw e)"

definition wipeObject :: "string list \<Rightarrow> string \<Rightarrow> ('a world_scheme, unit) op" where
  "wipeObject keep k =
     bnd (fetch blOn) (\<lambda>on. if k \<notin> set keep \<and> on then bnd (attempt (blobDelete k)) (\<lambda>_. ret ()) else ret ())"

definition wipeTicket :: "string \<Rightarrow> string list \<Rightarrow> ticket \<Rightarrow> ('a world_scheme, unit) op" where
  "wipeTicket tgt keep t = bnd (orGone [] (DeleteTicket tgt (tkID t))) (\<lambda>keys. each (wipeObject keep) keys)"

definition wipe :: "string \<Rightarrow> backup \<Rightarrow> ('a world_scheme, nat) op" where
  "wipe tgt b =
     (let keep = map arStorageKey (bkAttachments b)
      in bnd (AllTickets tgt) (\<lambda>tks.
         bnd (each (wipeTicket tgt keep) tks) (\<lambda>_.
         bnd (ListRules tgt) (\<lambda>rls.
         bnd (each (\<lambda>r. orGone () (DeleteRule tgt (ruID r))) rls) (\<lambda>_.
         bnd (ListTags tgt []) (\<lambda>tgs.
         bnd (each (\<lambda>t. orGone () (DeleteTag tgt (tgID t))) tgs) (\<lambda>_.
         bnd (ListMailboxes tgt) (\<lambda>mbs.
         bnd (each (\<lambda>m. orGone () (DeleteMailbox tgt (mbID m) True)) mbs) (\<lambda>_.
         ret (length tks + length rls + length tgs + length mbs))))))))))"

section \<open>Fresh ids\<close>

definition freshID :: "string \<Rightarrow> string table \<Rightarrow> ('a rt_scheme, string \<times> string table) op" where
  "freshID old fr =
     (if old = [] then ret ([], fr)
      else
      case map_of fr old of
        Some n \<Rightarrow> ret (n, fr)
      | None \<Rightarrow> bnd NewID (\<lambda>n. ret (n, AList.update old n fr)))"

fun remapRows :: "('x \<Rightarrow> string table \<Rightarrow> ('w, 'x \<times> string table) op) \<Rightarrow> 'x list \<Rightarrow> string table \<Rightarrow> ('w, 'x list \<times> string table) op" where
  "remapRows f [] fr = ret ([], fr)"
| "remapRows f (x # xs) fr = bnd (f x fr) (\<lambda>(y, fr). bnd (remapRows f xs fr) (\<lambda>(ys, fr). ret (y # ys, fr)))"

definition remapTag :: "tag \<Rightarrow> string table \<Rightarrow> ('a rt_scheme, tag \<times> string table) op" where
  "remapTag t fr = bnd (freshID (tgID t) fr) (\<lambda>(i, fr). ret (t\<lparr>tgID := i\<rparr>, fr))"

definition remapMailbox :: "mailbox \<Rightarrow> string table \<Rightarrow> ('a rt_scheme, mailbox \<times> string table) op" where
  "remapMailbox m fr = bnd (freshID (mbID m) fr) (\<lambda>(i, fr). ret (m\<lparr>mbID := i\<rparr>, fr))"

definition remapRule :: "rule \<Rightarrow> string table \<Rightarrow> ('a rt_scheme, rule \<times> string table) op" where
  "remapRule r fr = bnd (freshID (ruID r) fr) (\<lambda>(i, fr). ret (r\<lparr>ruID := i\<rparr>, fr))"

definition remapTicket :: "ticket_row \<Rightarrow> string table \<Rightarrow> ('a rt_scheme, ticket_row \<times> string table) op" where
  "remapTicket row fr =
     (let t = trTicket row
      in bnd (freshID (tkID t) fr) (\<lambda>(i, fr).
         bnd (freshID (tkMailboxID t) fr) (\<lambda>(j, fr).
         ret (row\<lparr>trTicket := t\<lparr>tkID := i, tkMailboxID := j\<rparr>\<rparr>, fr))))"

definition remapLink :: "taglink \<Rightarrow> string table \<Rightarrow> ('a rt_scheme, taglink \<times> string table) op" where
  "remapLink l fr =
     bnd (freshID (tlTicketID l) fr) (\<lambda>(i, fr).
     bnd (freshID (tlTagID l) fr) (\<lambda>(j, fr).
     ret (l\<lparr>tlTicketID := i, tlTagID := j\<rparr>, fr)))"

definition remapComment :: "comment \<Rightarrow> string table \<Rightarrow> ('a rt_scheme, comment \<times> string table) op" where
  "remapComment c fr =
     bnd (freshID (cmID c) fr) (\<lambda>(i, fr).
     bnd (freshID (cmTicketID c) fr) (\<lambda>(j, fr).
     ret (c\<lparr>cmID := i, cmTicketID := j\<rparr>, fr)))"

definition remapHistory :: "history \<Rightarrow> string table \<Rightarrow> ('a rt_scheme, history \<times> string table) op" where
  "remapHistory h fr =
     bnd (freshID (hiID h) fr) (\<lambda>(i, fr).
     bnd (freshID (hiTicketID h) fr) (\<lambda>(j, fr).
     ret (h\<lparr>hiID := i, hiTicketID := j\<rparr>, fr)))"

definition remapAttachment :: "attachment_row \<Rightarrow> string table \<Rightarrow> ('a rt_scheme, attachment_row \<times> string table) op" where
  "remapAttachment row fr =
     (let a = arAttachment row
      in bnd (freshID (atID a) fr) (\<lambda>(i, fr).
         bnd (freshID (atTicketID a) fr) (\<lambda>(j, fr).
         bnd (freshID (atCommentID a) fr) (\<lambda>(k, fr).
         ret (row\<lparr>arAttachment := a\<lparr>atID := i, atTicketID := j, atCommentID := k\<rparr>\<rparr>, fr)))))"

definition remap :: "backup \<Rightarrow> ('a rt_scheme, backup) op" where
  "remap b =
     bnd (remapRows remapTag (bkTags b) []) (\<lambda>(tgs, fr).
     bnd (remapRows remapMailbox (bkMailboxes b) fr) (\<lambda>(mbs, fr).
     bnd (remapRows remapRule (bkRules b) fr) (\<lambda>(rls, fr).
     bnd (remapRows remapTicket (bkTickets b) fr) (\<lambda>(tks, fr).
     bnd (remapRows remapLink (bkTagLinks b) fr) (\<lambda>(lks, fr).
     bnd (remapRows remapComment (bkComments b) fr) (\<lambda>(cms, fr).
     bnd (remapRows remapHistory (bkHistory b) fr) (\<lambda>(his, fr).
     bnd (remapRows remapAttachment (bkAttachments b) fr) (\<lambda>(ats, fr).
     ret (b\<lparr>bkTags := tgs, bkMailboxes := mbs, bkRules := rls, bkTickets := tks, bkTagLinks := lks, bkComments := cms,
            bkHistory := his, bkAttachments := ats\<rparr>)))))))))"

definition bkImport :: "subjects \<Rightarrow> backup \<Rightarrow> bk_options \<Rightarrow> ('a world_scheme, bk_result) op" where
  "bkImport subj b opts =
     bnd (authorised subj BackupImport
            (case bkTarget subj (boTenantID opts) of
               Inl e \<Rightarrow> Inl e
             | Inr tgt \<Rightarrow> if boFull opts then (case RequirePlatformAdmin subj of Inl e \<Rightarrow> Inl e | Inr _ \<Rightarrow> Inr tgt) else Inr tgt)) (\<lambda>tgt.
     bnd (of_res (bkValidate b)) (\<lambda>_.
     let mode = (if boMode opts = ModeOverwrite then ModeOverwrite else ModeSkip)
     in bnd (if bkTenantID b \<noteq> tgt then remap b else ret b) (\<lambda>b.
        bnd (if boFull opts then wipe tgt b else ret 0) (\<lambda>n.
        bnd (importRun mode tgt b \<lparr>imImported = \<lambda>_. 0, imSkipped = \<lambda>_. 0, imCreated = []\<rparr>) (\<lambda>im.
        bnd (bkAudit subj tgt BackupImport ''import''
               [(''mode'', VStr mode), (''full'', VBool (boFull opts)), (''cross_tenant'', VBool (tgt \<noteq> suTenantID subj)),
                (''tickets'', VInt (int (imImported im CTickets)))]) (\<lambda>_.
        ret \<lparr>brTenantID = tgt, brMode = mode, brImported = imImported im, brSkipped = imSkipped im, brDeleted = n\<rparr>))))))"

end
