(* ===== verification/BackupProps.thy ===== *)
theory BackupProps
  imports Backup Confine
begin

text \<open>
  What an import may touch, and that importing one's own export changes nothing: the rows are all there already.
\<close>

section \<open>An import touches one tenant\<close>

lemma confined_upsert:
  assumes "preserves (apart tn V) ex" "preserves (apart tn V) cr" "preserves (apart tn V) up"
  shows "preserves (apart tn V) (upsert mode c ex cr up im)"
  unfolding upsert_def settle_def by (intro keeps assms)

lemma confined_child:
  assumes "preserves (apart tn V) ex" "preserves (apart tn V) cr"
  shows "preserves (apart tn V) (child c ex cr im)"
  unfolding child_def settle_def by (intro keeps assms)

lemma confined_import_rows:
  assumes "tgt \<noteq> tn"
  shows "preserves (apart tn V) (importTag mode tgt t im)" "preserves (apart tn V) (importMailbox mode tgt m im)"
    "preserves (apart tn V) (importRule mode tgt r im)" "preserves (apart tn V) (importTicket mode tgt known row im)"
    "preserves (apart tn V) (linkTicket tgt have ls i im)" "preserves (apart tn V) (importComment tgt c im)"
    "preserves (apart tn V) (importHistory tgt h im)" "preserves (apart tn V) (importAttachment tgt a im)"
proof -
  note w = apart_rows apart_writes [OF assms]
  have o: "preserves (apart tn V) (overwriteTicket tgt t)" for t
    unfolding overwriteTicket_def by (intro keeps w)
  show "preserves (apart tn V) (importTag mode tgt t im)"
    unfolding importTag_def Let_def by (intro keeps confined_upsert w) (simp_all add: assms)
  show "preserves (apart tn V) (importMailbox mode tgt m im)"
    unfolding importMailbox_def Let_def by (intro keeps confined_upsert w) (simp_all add: assms)
  show "preserves (apart tn V) (importRule mode tgt r im)"
    unfolding importRule_def Let_def by (intro keeps confined_upsert w) (simp_all add: assms)
  show "preserves (apart tn V) (importTicket mode tgt known row im)"
    unfolding importTicket_def Let_def by (intro keeps confined_upsert w o) (simp_all add: restoredTicket_def Let_def assms)
  show "preserves (apart tn V) (linkTicket tgt have ls i im)"
    unfolding linkTicket_def settle_def by (intro keeps w)
  show "preserves (apart tn V) (importComment tgt c im)"
    unfolding importComment_def by (intro confined_child keeps w) (simp add: assms)
  show "preserves (apart tn V) (importHistory tgt h im)"
    unfolding importHistory_def settle_def by (intro keeps w) (simp add: assms)
  show "preserves (apart tn V) (importAttachment tgt a im)"
    unfolding importAttachment_def Let_def by (intro keeps confined_child w) (simp add: assms)
qed

lemma confined_importRun:
  assumes "tgt \<noteq> tn"
  shows "preserves (apart tn V) (importRun mode tgt b im)"
  unfolding importRun_def importTickets_def importLinks_def by (intro keeps confined_import_rows [OF assms])

lemma confined_wipe:
  assumes "tgt \<noteq> tn"
  shows "preserves (apart tn V) (wipe tgt b)"
  unfolding wipe_def wipeTicket_def wipeObject_def orGone_def Let_def by (intro keeps apart_writes [OF assms])

lemma confined_remap: "preserves (apart tn V) (remap b)"
proof -
  have f: "preserves (apart tn V) (freshID i fr)" for i fr
    unfolding freshID_def by (intro keeps)
  have r: "preserves (apart tn V) (remapRows g xs fr)" if "\<And>x fr. preserves (apart tn V) (g x fr)" for g xs fr
    by (induction xs arbitrary: fr) (auto intro!: keeps that)
  show ?thesis
    unfolding remap_def remapTag_def remapMailbox_def remapRule_def remapTicket_def remapLink_def remapComment_def remapHistory_def
      remapAttachment_def Let_def by (intro keeps r f)
qed

text \<open>An import as the authorisation followed by the writes for the target.\<close>

definition importInto :: "subjects \<Rightarrow> backup \<Rightarrow> bk_options \<Rightarrow> string \<Rightarrow> ('a world_scheme, bk_result) op" where
  "importInto subj b opts tgt =
     bnd (of_res (bkValidate b)) (\<lambda>_.
     let mode = (if boMode opts = ModeOverwrite then ModeOverwrite else ModeSkip)
     in bnd (if bkTenantID b \<noteq> tgt then remap b else ret b) (\<lambda>b.
        bnd (if boFull opts then wipe tgt b else ret 0) (\<lambda>n.
        bnd (importRun mode tgt b \<lparr>imImported = \<lambda>_. 0, imSkipped = \<lambda>_. 0, imCreated = []\<rparr>) (\<lambda>im.
        bnd (bkAudit subj tgt BackupImport ''import''
               [(''mode'', VStr mode), (''full'', VBool (boFull opts)), (''cross_tenant'', VBool (tgt \<noteq> suTenantID subj)),
                (''tickets'', VInt (int (imImported im CTickets)))]) (\<lambda>_.
        ret \<lparr>brTenantID = tgt, brMode = mode, brImported = imImported im, brSkipped = imSkipped im, brDeleted = n\<rparr>)))))"

definition mayImport :: "subjects \<Rightarrow> bk_options \<Rightarrow> string res" where
  "mayImport subj opts =
     (case bkTarget subj (boTenantID opts) of
        Inl e \<Rightarrow> Inl e
      | Inr tgt \<Rightarrow> if boFull opts then (case RequirePlatformAdmin subj of Inl e \<Rightarrow> Inl e | Inr _ \<Rightarrow> Inr tgt) else Inr tgt)"

lemma bkImport_split: "bkImport subj b opts = bnd (authorised subj BackupImport (mayImport subj opts)) (importInto subj b opts)"
  unfolding bkImport_def importInto_def [abs_def] mayImport_def ..

lemma mayImport_cases:
  assumes "mayImport subj opts = Inr tgt"
  shows "(tgt = suTenantID subj \<and> boTenantID opts \<in> {[], suTenantID subj}) \<or> (IsPlatformAdmin subj \<and> tgt = boTenantID opts)"
    and "boFull opts \<Longrightarrow> IsPlatformAdmin subj"
  using assms by (auto simp: mayImport_def bkTarget_def RequirePlatformAdmin_def split: sum.splits if_splits)

lemma confined_importInto:
  assumes "tgt \<noteq> tn"
  shows "preserves (apart tn V) (importInto subj b opts tgt)"
  unfolding importInto_def bkAudit_def Let_def
  by (intro keeps confined_importRun [OF assms] confined_wipe [OF assms] confined_remap)

lemma authorised_eq:
  "authorised subj t (Inr tgt) w = (Inr tgt, w)" "\<exists>w'. authorised subj t (Inl e) w = (Inl e, w') \<and> db w' = db w \<and> ucd w' = ucd w"
proof -
  show "authorised subj t (Inr tgt) w = (Inr tgt, w)" by (simp add: authorised_def ret_def)
  have "fst (Emit ev v) = Inr ()" for ev and v :: "'a world_scheme"
    by (simp add: Emit_def op_defs split: sum.splits prod.splits)
  then have "bnd (Emit ev) (\<lambda>_. throw e :: ('a world_scheme, string) op) w = (Inl e, snd (Emit ev w))" for ev
    by (cases "Emit ev w") (metis bnd_step fst_conv snd_conv throw_def)
  then show "\<exists>w'. authorised subj t (Inl e) w = (Inl e, w') \<and> db w' = db w \<and> ucd w' = ucd w"
    by (simp add: authorised_def bkRefused_def throw_def same_store_world(2) [THEN same_storeD(1)] same_store_world(2) [THEN same_storeD(3)])
qed

text \<open>
  C13: whatever the document, an import keeps the integrity of the store and changes the rows of one tenant
  only: the caller's, or the one a platform administrator names. Nobody else restores another tenant or wipes one: such an
  import is refused and writes nothing.
\<close>

theorem import_confined:
  assumes "mem_inv (ucd w) (db w)" "bkImport subj b opts w = (r, w')"
  shows "mem_inv (ucd w') (db w') \<and>
    (tenant_view tn (db w') = tenant_view tn (db w) \<or> (tn = suTenantID subj \<and> boTenantID opts \<in> {[], suTenantID subj}) \<or>
       (IsPlatformAdmin subj \<and> tn = boTenantID opts)) \<and>
    (IsPlatformAdmin subj \<or> (\<not> boFull opts \<and> boTenantID opts \<in> {[], suTenantID subj}) \<or> (isl r \<and> db w' = db w))"
proof (cases "mayImport subj opts")
  case (Inl e)
  then obtain w1 where "authorised subj BackupImport (mayImport subj opts) w = (Inl e, w1)" "db w1 = db w" "ucd w1 = ucd w"
    using authorised_eq(2) by metis
  with assms show ?thesis by (auto simp: bkImport_split bnd_def)
next
  case (Inr tgt)
  have i: "importInto subj b opts tgt w = (r, w')" using assms(2) Inr by (simp add: bkImport_split bnd_def authorised_eq(1))
  obtain tn' where tn': "tn' \<noteq> tgt" by (metis list.distinct(1))
  have "mem_inv (ucd w') (db w')"
    using preservesE [OF confined_importInto [OF tn' [symmetric]] _ i, of "tenant_view tn' (db w)"] assms(1) by (simp add: apart_def store_ok_def)
  moreover have "tn \<noteq> tgt \<Longrightarrow> tenant_view tn (db w') = tenant_view tn (db w)"
    using preservesE [OF confined_importInto [of tgt tn] _ i, of "tenant_view tn (db w)"] assms(1) by (simp add: apart_def store_ok_def)
  ultimately show ?thesis using mayImport_cases [OF Inr] by blast
qed

section \<open>Importing one's own export\<close>

text \<open>A step of an import that finds its row: nothing is written, nothing counts as imported.\<close>

definition quiet :: "'w \<Rightarrow> (importer \<Rightarrow> ('w, importer) op) \<Rightarrow> bool" where
  "quiet w f \<longleftrightarrow> (\<forall>im. \<exists>im'. f im w = (Inr im', w) \<and> imImported im' = imImported im \<and> imCreated im' = imCreated im)"

lemma quiet_fold: "(\<And>x. x \<in> set xs \<Longrightarrow> quiet w (f x)) \<Longrightarrow> quiet w (fold_op f xs)"
proof (induction xs)
  case (Cons x xs)
  have "quiet w (f x)" "quiet w (fold_op f xs)" using Cons by simp_all
  then show ?case unfolding quiet_def by (metis bnd_step fold_op.simps(2))
qed (simp add: quiet_def ret_def)

lemma skipped_same [simp]: "imImported (skipped c n im) = imImported im" "imCreated (skipped c n im) = imCreated im"
  by (simp_all add: skipped_def)

lemma upsert_found: "ex w = (Inr x, w) \<Longrightarrow> mode \<noteq> ModeOverwrite \<Longrightarrow> upsert mode c ex cr up im w = (Inr (False, skipped c 1 im), w)"
  by (simp add: upsert_def bnd_def attempt_def ret_def)

lemma child_found: "ex w = (Inr x, w) \<Longrightarrow> child c ex cr im w = (Inr (skipped c 1 im), w)"
  by (simp add: child_def bnd_def attempt_def ret_def)

text \<open>Without armed failures the rows of the tables are found.\<close>

lemma row_found:
  assumes "table_ok idof tb" "v \<in> set (rows tb)"
  shows "scoped tenantOf tb (tenantOf v) (idof v) = Inr v"
  using assms by (simp add: rows_lookup_iff scoped_iff)

lemma reads_found:
  assumes ok: "mem_inv (ucd w) (db w)" and f: "failNext w = []"
  shows "t \<in> set (rows (tags (db w))) \<Longrightarrow> tgTenantID t = tn \<Longrightarrow> GetTag tn (tgID t) w = (Inr t, w)"
    and "m \<in> set (rows (mailboxes (db w))) \<Longrightarrow> mbTenantID m = tn \<Longrightarrow> GetMailbox tn (mbID m) w = (Inr m, w)"
    and "r \<in> set (rows (rules (db w))) \<Longrightarrow> ruTenantID r = tn \<Longrightarrow> \<exists>r'. GetRule tn (ruID r) w = (Inr r', w)"
    and "k \<in> set (rows (tickets (db w))) \<Longrightarrow> tkTenantID k = tn \<Longrightarrow> GetTicket tn (tkID k) w = (Inr k, w)"
    and "c \<in> set (rows (comments (db w))) \<Longrightarrow> cmTenantID c = tn \<Longrightarrow> GetComment tn (cmID c) w = (Inr c, w)"
    and "a \<in> set (rows (attachments (db w))) \<Longrightarrow> atTenantID a = tn \<Longrightarrow> GetAttachment tn (atTicketID a) (atID a) w = (Inr a, w)"
  using mem_invD(1-6) [OF ok] f
  by (auto simp: GetTag_def GetMailbox_def GetRule_def GetTicket_def GetComment_def GetAttachment_def run tag_of_def mailbox_of_def rule_of_def
      ticket_of_def comment_of_def row_found rows_lookup_iff)

lemma quiet_rows:
  assumes "mem_inv (ucd w) (db w)" "failNext w = []" "mode \<noteq> ModeOverwrite"
  shows "t \<in> set (rows (tags (db w))) \<Longrightarrow> tgTenantID t = tn \<Longrightarrow> quiet w (importTag mode tn t)"
    and "m \<in> set (rows (mailboxes (db w))) \<Longrightarrow> mbTenantID m = tn \<Longrightarrow> quiet w (importMailbox mode tn m)"
    and "r \<in> set (rows (rules (db w))) \<Longrightarrow> ruTenantID r = tn \<Longrightarrow> ruID r' = ruID r \<Longrightarrow> quiet w (importRule mode tn r')"
    and "k \<in> set (rows (tickets (db w))) \<Longrightarrow> tkTenantID k = tn \<Longrightarrow> trTicket row = k \<Longrightarrow> quiet w (importTicket mode tn known row)"
    and "c \<in> set (rows (comments (db w))) \<Longrightarrow> cmTenantID c = tn \<Longrightarrow> quiet w (importComment tn c)"
    and "a \<in> set (rows (attachments (db w))) \<Longrightarrow> atTenantID a = tn \<Longrightarrow> arAttachment arow = a \<Longrightarrow> quiet w (importAttachment tn arow)"
proof -
  note found = reads_found [OF assms(1,2)]
  show "quiet w (importTag mode tn t)" if "t \<in> set (rows (tags (db w)))" "tgTenantID t = tn"
    by (simp add: quiet_def importTag_def bnd_def ret_def Let_def upsert_found [where ex = "GetTag tn (tgID t)", OF found(1) [OF that] assms(3)])
  show "quiet w (importMailbox mode tn m)" if "m \<in> set (rows (mailboxes (db w)))" "mbTenantID m = tn"
    by (simp add: quiet_def importMailbox_def bnd_def ret_def fetch_def Let_def upsert_found [where ex = "GetMailbox tn (mbID m)", OF found(2) [OF that] assms(3)])
  show "quiet w (importRule mode tn r')" if r: "r \<in> set (rows (rules (db w)))" "ruTenantID r = tn" "ruID r' = ruID r"
  proof -
    obtain x where x: "GetRule tn (ruID r') w = (Inr x, w)" using found(3) [OF r(1,2)] r(3) by auto
    show ?thesis
      by (simp add: quiet_def importRule_def bnd_def ret_def Let_def upsert_found [where ex = "GetRule tn (ruID r')", OF x assms(3)])
  qed
  show "quiet w (importTicket mode tn known row)" if "k \<in> set (rows (tickets (db w)))" "tkTenantID k = tn" "trTicket row = k"
  proof -
    have "tkID (restoredTicket tn known row) = tkID k" using that(3) by (simp add: restoredTicket_def Let_def)
    then show ?thesis
      by (simp add: quiet_def importTicket_def bnd_def ret_def Let_def upsert_found [where ex = "GetTicket tn (tkID k)", OF found(4) [OF that(1,2)] assms(3)])
  qed
  show "quiet w (importComment tn c)" if "c \<in> set (rows (comments (db w)))" "cmTenantID c = tn"
    using child_found [where ex = "GetComment tn (cmID c)", OF found(5) [OF that]] by (simp add: quiet_def importComment_def)
  show "quiet w (importAttachment tn arow)" if "a \<in> set (rows (attachments (db w)))" "atTenantID a = tn" "arAttachment arow = a"
    using child_found [where ex = "GetAttachment tn (atTicketID a) (atID a)", OF found(6) [OF that(1,2)]] that(3) by (auto simp: quiet_def importAttachment_def ret_def Let_def)
qed

text \<open>The links of the document are those of the store, so none is new.\<close>

lemma newLinks_none: "set gs \<subseteq> set linked \<Longrightarrow> newLinks linked gs = ([], length gs)"
  by (induction gs) auto

lemma fold_tables:
  "map_of (fold (\<lambda>tid out. case f tid of None \<Rightarrow> out | Some ts \<Rightarrow> AList.update tid ts out) is out) i =
     (if i \<in> set is then (case f i of None \<Rightarrow> map_of out i | Some ts \<Rightarrow> Some ts) else map_of out i)"
  by (induction "is" arbitrary: out) (auto simp: update_conv split: option.splits)

definition linksOf :: "tables \<Rightarrow> string \<Rightarrow> taglink set" where
  "linksOf d tn = {l. \<exists>t gs. (tlTicketID l, gs) \<in> set (links d) \<and> map_of (tickets d) (tlTicketID l) = Some t \<and> tkTenantID t = tn \<and>
     tlTagID l \<in> set gs \<and> tlTenantID l = tn}"

lemma linksOf_tags:
  assumes ok: "mem_inv u d" and l: "l \<in> linksOf d tn"
  shows "\<exists>ts. tags_of u d tn (tlTicketID l) = Some ts \<and> tlTagID l \<in> tgID ` set ts"
proof -
  obtain t gs where t: "(tlTicketID l, gs) \<in> set (links d)" "map_of (tickets d) (tlTicketID l) = Some t" "tkTenantID t = tn" "tlTagID l \<in> set gs"
    using l by (auto simp: linksOf_def)
  have lk: "map_of (links d) (tlTicketID l) = Some gs" using mem_invD(7) [OF ok] t(1) by simp
  obtain x where x: "map_of (tags d) (tlTagID l) = Some x" "tgTenantID x = tn"
    using mem_invD(15) [OF ok] t by (fastforce simp: link_refs_def)
  have id: "tgID x = tlTagID l" by (rule table_lookup_id [OF mem_invD(4) [OF ok] x(1)])
  have "x \<in> set (filter (\<lambda>t. tgTenantID t = tn) (List.map_filter (map_of (tags d)) gs))"
    using x t(4) by (force simp: List.map_filter_def)
  then have "x \<in> set (sortTags u (filter (\<lambda>t. tgTenantID t = tn) (List.map_filter (map_of (tags d)) gs)))"
    "filter (\<lambda>t. tgTenantID t = tn) (List.map_filter (map_of (tags d)) gs) \<noteq> []"
    unfolding sortTags_def by (simp, metis empty_iff empty_set)
  with id t lk show ?thesis by (auto simp: tags_of_def Let_def intro: image_eqI [where x = x])
qed

lemma linkOrder_set [simp]: "set (linkOrder ls) = tlTicketID ` set ls"
  by (simp add: linkOrder_def)

lemma quiet_links:
  assumes ok: "mem_inv (ucd w) (db w)" and f: "failNext w = []" and ls: "set ls \<subseteq> linksOf (db w) tn"
  shows "quiet w (importLinks tn ls)"
proof (cases "linkOrder ls = []")
  case False
  let ?have = "fold (\<lambda>tid out. case tags_of (ucd w) (db w) tn tid of None \<Rightarrow> out | Some ts \<Rightarrow> AList.update tid ts out) (linkOrder ls) []"
  have h: "TagsForTickets tn (linkOrder ls) w = (Inr ?have, w)" using f by (simp add: TagsForTickets_def run)
  have q: "quiet w (linkTicket tn ?have ls i)" if i: "i \<in> set (linkOrder ls)" for i
  proof -
    let ?gs = "map tlTagID (filter (\<lambda>l. tlTicketID l = i) ls)" and ?linked = "case map_of ?have i of None \<Rightarrow> [] | Some ts \<Rightarrow> map tgID ts"
    have "g \<in> set ?linked" if "g \<in> set ?gs" for g
    proof -
      from that obtain l where l: "l \<in> set ls" "tlTicketID l = i" "tlTagID l = g" by auto
      then obtain ts where "tags_of (ucd w) (db w) tn i = Some ts" "g \<in> tgID ` set ts" using linksOf_tags [OF ok, of l tn] ls by auto
      then show ?thesis using i by (simp add: fold_tables)
    qed
    then have n: "newLinks ?linked ?gs = ([], length ?gs)" by (intro newLinks_none) blast
    show ?thesis unfolding quiet_def linkTicket_def n by (simp add: ret_def)
  qed
  have "quiet w (fold_op (linkTicket tn ?have ls) (linkOrder ls))" using q by (rule quiet_fold)
  then show ?thesis using False h by (simp add: quiet_def importLinks_def bnd_def)
qed (simp add: quiet_def importLinks_def ret_def)

definition ownRows :: "backup \<Rightarrow> tables \<Rightarrow> string \<Rightarrow> bool" where
  "ownRows b d tn \<longleftrightarrow> (\<forall>t \<in> set (bkTags b). t \<in> set (rows (tags d)) \<and> tgTenantID t = tn) \<and>
     (\<forall>m \<in> set (bkMailboxes b). m \<in> set (rows (mailboxes d)) \<and> mbTenantID m = tn) \<and>
     (\<forall>r' \<in> set (bkRules b). \<exists>r \<in> set (rows (rules d)). ruTenantID r = tn \<and> ruID r' = ruID r) \<and>
     (\<forall>k \<in> set (bkTickets b). trTicket k \<in> set (rows (tickets d)) \<and> tkTenantID (trTicket k) = tn) \<and>
     set (bkTagLinks b) \<subseteq> linksOf d tn \<and>
     (\<forall>c \<in> set (bkComments b). c \<in> set (rows (comments d)) \<and> cmTenantID c = tn) \<and>
     (\<forall>a \<in> set (bkAttachments b). arAttachment a \<in> set (rows (attachments d)) \<and> atTenantID (arAttachment a) = tn)"

lemma importRun_own:
  assumes ok: "mem_inv (ucd w) (db w)" "failNext w = []" "mode \<noteq> ModeOverwrite" and own: "ownRows b (db w) tn" and im: "imCreated im = []"
  shows "\<exists>im'. importRun mode tn b im w = (Inr im', w) \<and> imImported im' = imImported im"
proof -
  note q = quiet_rows [OF ok]
  have tk: "quiet w (importTickets mode tn (bkTickets b))"
  proof -
    obtain mbs where m: "ListMailboxes tn w = (Inr mbs, w)" using ok(2) by (simp add: ListMailboxes_def run)
    have "quiet w (fold_op (importTicket mode tn (map mbID mbs)) (bkTickets b))"
      using own by (intro quiet_fold q(4) [OF _ _ refl]) (auto simp: ownRows_def)
    then show ?thesis using m by (simp add: quiet_def importTickets_def bnd_def)
  qed
  have s: "quiet w (fold_op (importTag mode tn) (bkTags b))" "quiet w (fold_op (importMailbox mode tn) (bkMailboxes b))"
    "quiet w (fold_op (importRule mode tn) (bkRules b))" "quiet w (fold_op (importComment tn) (bkComments b))"
    "quiet w (fold_op (importAttachment tn) (bkAttachments b))" "quiet w (importLinks tn (bkTagLinks b))"
    using own by (auto simp: ownRows_def intro!: quiet_fold q(1,2,5,6) quiet_links [OF ok(1,2)]) (metis q(3))
  have h: "\<exists>im'. fold_op (importHistory tn) hs im w = (Inr im', w) \<and> imImported im' = imImported im \<and> imCreated im' = imCreated im"
    if "imCreated im = []" for hs im
    using that
  proof (induction hs arbitrary: im)
    case (Cons h hs)
    show ?case using Cons.IH [of "skipped CHistory 1 im"] Cons.prems by (simp add: ret_def bnd_def importHistory_def)
  qed (simp add: ret_def)
  from s(1) obtain i1 where i1: "fold_op (importTag mode tn) (bkTags b) im w = (Inr i1, w)" "imImported i1 = imImported im" "imCreated i1 = []"
    unfolding quiet_def using im by metis
  from s(2) i1 obtain i2 where i2: "fold_op (importMailbox mode tn) (bkMailboxes b) i1 w = (Inr i2, w)" "imImported i2 = imImported im" "imCreated i2 = []"
    unfolding quiet_def by metis
  from s(3) i2 obtain i3 where i3: "fold_op (importRule mode tn) (bkRules b) i2 w = (Inr i3, w)" "imImported i3 = imImported im" "imCreated i3 = []"
    unfolding quiet_def by metis
  from tk i3 obtain i4 where i4: "importTickets mode tn (bkTickets b) i3 w = (Inr i4, w)" "imImported i4 = imImported im" "imCreated i4 = []"
    unfolding quiet_def by metis
  from s(6) i4 obtain i5 where i5: "importLinks tn (bkTagLinks b) i4 w = (Inr i5, w)" "imImported i5 = imImported im" "imCreated i5 = []"
    unfolding quiet_def by metis
  from s(4) i5 obtain i6 where i6: "fold_op (importComment tn) (bkComments b) i5 w = (Inr i6, w)" "imImported i6 = imImported im" "imCreated i6 = []"
    unfolding quiet_def by metis
  from h [OF i6(3)] i6 obtain i7 where i7: "fold_op (importHistory tn) (bkHistory b) i6 w = (Inr i7, w)" "imImported i7 = imImported im" by metis
  from s(5) i7 obtain i8 where i8: "fold_op (importAttachment tn) (bkAttachments b) i7 w = (Inr i8, w)" "imImported i8 = imImported im"
    unfolding quiet_def by metis
  show ?thesis using i1 i2 i3 i4 i5 i6 i7 i8 by (simp add: importRun_def bnd_def)
qed

text \<open>The document of an export.\<close>

definition exported :: "unicode \<Rightarrow> tables \<Rightarrow> time \<Rightarrow> string \<Rightarrow> backup" where
  "exported u d now tn = \<lparr>bkSchemaVersion = SchemaVersion, bkExportedAt = now, bkTenantID = tn,
     bkTags = sortTags u (filter (\<lambda>t. tgTenantID t = tn) (rows (tags d))),
     bkMailboxes = sort_key mbAddress (filter (\<lambda>mb. mbTenantID mb = tn) (rows (mailboxes d))),
     bkRules = listRules d tn False,
     bkTickets = map (\<lambda>tk. \<lparr>trTicket = tk, trBodyHTML = tkBodyHTML tk\<rparr>) (sort_key tkID (filter (\<lambda>t. tkTenantID t = tn) (rows (tickets d)))),
     bkTagLinks = sort_key (\<lambda>l. (tlTicketID l, tlTagID l)) (concat (map (\<lambda>(tid, gs). case map_of (tickets d) tid of None \<Rightarrow> []
         | Some t \<Rightarrow> if tkTenantID t \<noteq> tn then [] else map (\<lambda>gid. \<lparr>tlTenantID = tn, tlTicketID = tid, tlTagID = gid\<rparr>) gs) (links d))),
     bkComments = sortComments (filter (\<lambda>c. cmTenantID c = tn) (rows (comments d))),
     bkHistory = sortHistory (filter (\<lambda>h. hiTenantID h = tn) (history d)),
     bkAttachments = map (\<lambda>a. \<lparr>arAttachment = a, arStorageKey = atStorageKey a\<rparr>) (sort_key atID (filter (\<lambda>a. atTenantID a = tn) (rows (attachments d))))\<rparr>"

lemma exported_links: "set (bkTagLinks (exported u d now tn)) \<subseteq> linksOf d tn"
proof
  fix l assume "l \<in> set (bkTagLinks (exported u d now tn))"
  then obtain tid gs t gid where "(tid, gs) \<in> set (links d)" "map_of (tickets d) tid = Some t" "tkTenantID t = tn" "gid \<in> set gs"
    "l = \<lparr>tlTenantID = tn, tlTicketID = tid, tlTagID = gid\<rparr>"
    by (auto simp: exported_def split: option.splits if_splits) metis
  then show "l \<in> linksOf d tn" by (auto simp: linksOf_def)
qed

lemma exported_rules: "r' \<in> set (bkRules (exported u d now tn)) \<Longrightarrow> \<exists>r \<in> set (rows (rules d)). ruTenantID r = tn \<and> ruID r' = ruID r"
  by (auto simp: exported_def listRules_def sortRules_def cloneRule_def)

lemma exported_own: "ownRows (exported u d now tn) d tn"
  unfolding ownRows_def using exported_links exported_rules by (auto simp: exported_def sortTags_def sortComments_def)

lemma bnd_Emit: "bnd (Emit ev) g w = g () (snd (Emit ev w))"
  by (simp add: Emit_def op_defs split: sum.splits prod.splits)

lemma bkExport_eq:
  assumes "bkTarget subj tenantID = Inr tn" "failNext w = []"
  shows "\<exists>ev. bkExport subj tenantID w = (Inr (exported (ucd w) (db w) (clock w (ticks w)) tn), snd (Emit ev (w\<lparr>ticks := Suc (ticks w)\<rparr>)))"
  using assms
  by (auto simp: bkExport_def authorised_def run ListTags_def ListMailboxes_def ListRules_def AllTickets_def AllTagLinks_def AllComments_def
      AllHistory_def AllAttachments_def bkAudit_def bnd_Emit exported_def Let_def)

lemma Emit_frame: "db (snd (Emit ev w)) = db w" "failNext (snd (Emit ev w)) = failNext w" "ucd (snd (Emit ev w)) = ucd w"
  by (simp_all add: same_store_world(2) [THEN same_storeD(1)] same_store_world(2) [THEN same_storeD(2)] same_store_world(2) [THEN same_storeD(3)])


section \<open>Witnesses\<close>

definition saved_tenant :: string where "saved_tenant = ''0198c0de-0000-7000-8000-000000000001''"

definition saved_tag :: tag where
  "saved_tag = \<lparr>tgID = ''0198c0de-0000-7000-8000-00000000000a'', tgTenantID = saved_tenant, tgName = ''Billing'', tgKind = KindTag,
     tgColor = [], tgDescription = [], tgCreatedAt = 5\<rparr>"

definition saved_world :: world where
  "saved_world = mem.extend (New demo_rt) (world.fields False [] False [] 0 False 0 0 False [] False [] None None (\<lambda>_. []))
     \<lparr>db := empty_tables\<lparr>tags := [(tgID saved_tag, saved_tag)]\<rparr>\<rparr>"

definition saved_by :: subjects where
  "saved_by = \<lparr>suTenantID = saved_tenant, suUserID = ''u1'', suRoles = [], suActorKind = ActorAgent\<rparr>"

definition saved_opts :: bk_options where
  "saved_opts = \<lparr>boMode = ModeSkip, boTenantID = [], boFull = False\<rparr>"

lemma saved_facts: "mem_inv (ucd saved_world) (db saved_world)" "failNext saved_world = []" "db saved_world = empty_tables\<lparr>tags := [(tgID saved_tag, saved_tag)]\<rparr>"
proof -
  show "failNext saved_world = []" "db saved_world = empty_tables\<lparr>tags := [(tgID saved_tag, saved_tag)]\<rparr>"
    by (simp_all add: saved_world_def New_def mem.defs rt.defs)
  then show "mem_inv (ucd saved_world) (db saved_world)"
    by (simp add: mem_inv_def empty_tables_def keys_ok_def external_unique_def message_unique_def storage_unique_def tag_unique_def address_unique_def
        comment_refs_def attachment_refs_def link_refs_def history_refs_def mailbox_refs_def counts_ok_def table_ok_def)
qed

lemma saved_valid: "bkValidate (exported u (db saved_world) now saved_tenant) = Inr ()"
proof -
  have "isUUID (tgID saved_tag)" "isUUID saved_tenant" by code_simp+
  then show ?thesis
    by (simp add: bkValidate_def andThen_def require_def exported_def saved_facts empty_tables_def bkSizes_def MaxRows_def sortTags_def ids_def
        saved_tag_def ValidKind_def listRules_def sortRules_def sortComments_def sortHistory_def str_eval ascii_def)
qed

lemma saved_target: "bkTarget saved_by [] = Inr saved_tenant"
  by (simp add: bkTarget_def RequireTenant_def saved_by_def saved_tenant_def)


theorem import_confined_witness:
  "\<exists>r w'. bkImport saved_by (exported ascii_tables empty_tables 0 ''other'') (saved_opts\<lparr>boTenantID := ''other''\<rparr>) saved_world = (r, w') \<and>
     isl r \<and> db w' = db saved_world \<and> tenant_view saved_tenant (db w') = tenant_view saved_tenant (db saved_world) \<and>
     tags (tenant_view saved_tenant (db w')) = [(tgID saved_tag, saved_tag)]"
proof -
  obtain r w' where i: "bkImport saved_by (exported ascii_tables empty_tables 0 ''other'') (saved_opts\<lparr>boTenantID := ''other''\<rparr>) saved_world = (r, w')"
    by fastforce
  have "\<not> IsPlatformAdmin saved_by" "''other'' \<notin> {[], suTenantID saved_by}"
    by (simp_all add: IsPlatformAdmin_def saved_by_def HasRole_def saved_tenant_def)
  then show ?thesis
    using import_confined [OF saved_facts(1) i, of saved_tenant] i by (simp add: saved_facts tenant_view_def saved_tag_def)
qed

end
