(* ===== verification/Sealed.thy ===== *)
theory Sealed
  imports StoreModel
begin

text \<open>
  Settings with credentials (\<open>internal/sealed\<close>): the envelope that encrypts them at rest, the fields clients may
  see, updates and scrubbed messages. A byte slice is a string. AES-256-GCM is the parameter \<open>gcm\<close>: what \<open>Seal\<close> and
  \<open>Open\<close> of a key do to a nonce, a text and associated data. The random source gives the bytes of its \<open>k\<close>-th read.
\<close>

section \<open>Base64\<close>

definition b64Char :: "nat \<Rightarrow> char" where
  "b64Char n = char_of (if n < 26 then 65 + n else if n < 52 then 71 + n else if n < 62 then n - 4 else if n = 62 then 43 else 47)"

definition b64Val :: "char \<Rightarrow> nat option" where
  "b64Val c =
     (let n = byte c
      in if 65 \<le> n \<and> n \<le> 90 then Some (n - 65) else if 97 \<le> n \<and> n \<le> 122 then Some (n - 71)
         else if 48 \<le> n \<and> n \<le> 57 then Some (n + 4) else if n = 43 then Some 62 else if n = 47 then Some 63 else None)"

definition pad :: char where "pad = CHR ''=''"

fun b64Encode :: "string \<Rightarrow> string" where
  "b64Encode [] = []"
| "b64Encode [a] = [b64Char (byte a div 4), b64Char (byte a mod 4 * 16), pad, pad]"
| "b64Encode [a, b] = [b64Char (byte a div 4), b64Char (byte a mod 4 * 16 + byte b div 16), b64Char (byte b mod 16 * 4), pad]"
| "b64Encode (a # b # c # s) =
     b64Char (byte a div 4) # b64Char (byte a mod 4 * 16 + byte b div 16) # b64Char (byte b mod 16 * 4 + byte c div 64) #
     b64Char (byte c mod 64) # b64Encode s"

text \<open>The bytes of two, three and four digits.\<close>

definition quantum :: "char list \<Rightarrow> string option" where
  "quantum ds =
     (case map b64Val ds of
        [Some a, Some b] \<Rightarrow> Some [char_of (a * 4 + b div 16)]
      | [Some a, Some b, Some c] \<Rightarrow> Some [char_of (a * 4 + b div 16), char_of (b mod 16 * 16 + c div 4)]
      | [Some a, Some b, Some c, Some d] \<Rightarrow>
          Some [char_of (a * 4 + b div 16), char_of (b mod 16 * 16 + c div 4), char_of (c mod 4 * 64 + d)]
      | _ \<Rightarrow> None)"

fun b64Digits :: "bool \<Rightarrow> string \<Rightarrow> string option" where
  "b64Digits padded [] = Some []"
| "b64Digits padded [a] = None"
| "b64Digits padded [a, b] = (if padded then None else quantum [a, b])"
| "b64Digits padded [a, b, c] = (if padded then None else quantum [a, b, c])"
| "b64Digits padded (a # b # c # d # s) =
     (if padded \<and> s = [] \<and> c = pad \<and> d = pad then quantum [a, b]
      else if padded \<and> s = [] \<and> d = pad then quantum [a, b, c]
      else (case quantum [a, b, c, d] of
              None \<Rightarrow> None
            | Some u \<Rightarrow> (case b64Digits padded s of None \<Rightarrow> None | Some v \<Rightarrow> Some (u @ v))))"

text \<open>Line breaks are skipped wherever they are.\<close>

definition b64Decode :: "bool \<Rightarrow> string \<Rightarrow> string option" where
  "b64Decode padded s = b64Digits padded (filter (\<lambda>c. c \<noteq> CHR 0x0D \<and> c \<noteq> CHR 0x0A) s)"

section \<open>The envelope\<close>

definition Marker :: string where "Marker = ''__set__''"
definition MaxSettingsBytes :: nat where "MaxSettingsBytes = 8 * 1024"

record aead =
  aeSeal :: "string \<Rightarrow> string \<Rightarrow> string \<Rightarrow> string \<Rightarrow> string"
  aeOpen :: "string \<Rightarrow> string \<Rightarrow> string \<Rightarrow> string \<Rightarrow> string option"

definition nonceSize :: nat where "nonceSize = 12"
definition overhead :: nat where "overhead = 16"

record envelope =
  enKEK :: string

definition NewEnvelope :: "string \<Rightarrow> envelope res" where
  "NewEnvelope kek = (if length kek \<noteq> 32 then Inl SealKEK else Inr \<lparr>enKEK = kek\<rparr>)"

definition decodeKEK :: "string \<Rightarrow> string res" where
  "decodeKEK raw =
     (let trimmed = TrimSpace raw; is32 = (\<lambda>d. case d of None \<Rightarrow> False | Some b \<Rightarrow> length b = 32)
      in if is32 (b64Decode True trimmed) then Inr (the (b64Decode True trimmed))
         else if is32 (b64Decode False trimmed) then Inr (the (b64Decode False trimmed))
         else if length raw = 32 then Inr raw
         else Inl SealKEK)"

text \<open>Files and the environment are what the process sees of them.\<close>

definition LoadKEK :: "(string \<Rightarrow> string res) \<Rightarrow> (string \<Rightarrow> string) \<Rightarrow> string \<Rightarrow> string \<Rightarrow> string \<Rightarrow> string res" where
  "LoadKEK readFile getenv source path env =
     (if source = ''file'' then (case readFile path of Inl e \<Rightarrow> Inl (Wrapped ''sealed: kek'' e) | Inr b \<Rightarrow> decodeKEK b)
      else if source = ''env''
      then (if getenv env = [] then Inl (SealKEKSource env) else decodeKEK (getenv env))
      else Inl (SealKEKSource source))"

definition Seal :: "aead \<Rightarrow> (nat \<Rightarrow> nat \<Rightarrow> string res) \<Rightarrow> envelope \<Rightarrow> string \<Rightarrow> string \<Rightarrow> string res" where
  "Seal gcm readFull e plaintext ad =
     (if length plaintext > MaxSettingsBytes then Inl SealTooLarge
      else
      case readFull 0 32 of Inl x \<Rightarrow> Inl x
      | Inr dek \<Rightarrow>
      case readFull 1 nonceSize of Inl x \<Rightarrow> Inl x
      | Inr n1 \<Rightarrow>
      case readFull 2 nonceSize of Inl x \<Rightarrow> Inl x
      | Inr n2 \<Rightarrow> Inr (n1 @ aeSeal gcm (enKEK e) n1 dek ad @ n2 @ aeSeal gcm dek n2 plaintext ad))"

definition Open :: "aead \<Rightarrow> envelope \<Rightarrow> string \<Rightarrow> string \<Rightarrow> string res" where
  "Open gcm e blob ad =
     (let ns = nonceSize; wrapLen = 32 + overhead
      in if length blob < ns + wrapLen + ns + 16 then Inl SealTampered
         else
         case aeOpen gcm (enKEK e) (take ns blob) (take wrapLen (drop ns blob)) ad of
           None \<Rightarrow> Inl SealTampered
         | Some dek \<Rightarrow>
             (let rest = drop (ns + wrapLen) blob
              in case aeOpen gcm dek (take ns rest) (drop ns rest) ad of None \<Rightarrow> Inl SealTampered | Some pt \<Rightarrow> Inr pt))"

definition SealString :: "aead \<Rightarrow> (nat \<Rightarrow> nat \<Rightarrow> string res) \<Rightarrow> envelope \<Rightarrow> string \<Rightarrow> string \<Rightarrow> string res" where
  "SealString gcm readFull e s ad =
     (if s = [] then Inr [] else case Seal gcm readFull e s ad of Inl x \<Rightarrow> Inl x | Inr ct \<Rightarrow> Inr (b64Encode ct))"

definition OpenString :: "aead \<Rightarrow> envelope \<Rightarrow> string \<Rightarrow> string \<Rightarrow> string res" where
  "OpenString gcm e enc ad =
     (if enc = [] then Inr []
      else case b64Decode True enc of None \<Rightarrow> Inl SealTampered | Some ct \<Rightarrow> Open gcm e ct ad)"

text \<open>The associated data of the kinds of rows.\<close>

definition ADCA :: "string \<Rightarrow> string" where "ADCA i = ''ca:'' @ i"
definition ADIssuer :: "string \<Rightarrow> string" where "ADIssuer i = ''issuer:'' @ i"
definition ADSecret :: "string \<Rightarrow> string" where "ADSecret i = ''secret:'' @ i"
definition ADWebhook :: "string \<Rightarrow> string" where "ADWebhook i = ''webhook:'' @ i"
definition ADCertKey :: "string \<Rightarrow> string" where "ADCertKey i = ''certkey:'' @ i"
definition ADTarget :: "string \<Rightarrow> string" where "ADTarget i = ''target:'' @ i"
definition ADConfig :: "string \<Rightarrow> string" where "ADConfig i = ''config:'' @ i"
definition ADContact :: "string \<Rightarrow> string \<Rightarrow> string \<Rightarrow> string" where
  "ADContact kind i field = ''contact:'' @ kind @ '':'' @ i @ '':'' @ field"

section \<open>Settings\<close>

type_synonym settings = "any table"

fun strOf :: "any \<Rightarrow> string" where
  "strOf (VStr s) = s"
| "strOf _ = []"

definition redactField :: "string \<Rightarrow> settings \<Rightarrow> settings" where
  "redactField f out =
     (case map_of out f of
        None \<Rightarrow> out
      | Some v \<Rightarrow> if strOf v \<noteq> [] then AList.update f (VStr Marker) out else AList.delete f out)"

definition seRedact :: "settings \<Rightarrow> string list \<Rightarrow> settings" where
  "seRedact s secretFields = fold redactField secretFields s"

definition Public :: "settings \<Rightarrow> string list \<Rightarrow> settings" where
  "Public s secretFields = fold AList.delete secretFields s"

definition mergeField :: "settings \<Rightarrow> settings \<Rightarrow> string \<Rightarrow> settings \<Rightarrow> settings" where
  "mergeField stored incoming f out =
     (let str = (case map_of incoming f of None \<Rightarrow> [] | Some v \<Rightarrow> strOf v)
      in if map_of incoming f = None \<or> str = Marker
         then (case map_of stored f of Some old \<Rightarrow> AList.update f old out | None \<Rightarrow> AList.delete f out)
         else if str = [] then AList.delete f out
         else out)"

definition seMerge :: "settings \<Rightarrow> settings \<Rightarrow> string list \<Rightarrow> settings" where
  "seMerge stored incoming secretFields = fold (mergeField stored incoming) secretFields incoming"

definition Scrub :: "string \<Rightarrow> settings \<Rightarrow> string list \<Rightarrow> string" where
  "Scrub text0 stored secretFields =
     (let line = takeWhile (\<lambda>c. c \<noteq> CHR 0x0D \<and> c \<noteq> CHR 0x0A) text0;
          clean = fold (\<lambda>f t. case map_of stored f of
                    Some (VStr v) \<Rightarrow> if v = [] then t else ReplaceAll (ReplaceAll t v ''[REDACTED]'') (b64Encode v) ''[REDACTED]''
                  | _ \<Rightarrow> t) secretFields line
      in if length clean > 1024 then take 1024 clean else clean)"

section \<open>Encoding round trips\<close>

lemma byte_lt: "byte c < 256"
  by (simp add: byte_def)

lemma char_of_byte: "char_of (byte c) = c"
  by (simp add: byte_def)

lemma b64Val_b64Char: "n < 64 \<Longrightarrow> b64Val (b64Char n) = Some n"
  by (auto simp: b64Val_def b64Char_def byte_char_of Let_def)

lemma b64Val_pad: "b64Val pad = None"
  by (simp add: b64Val_def pad_def byte_def Let_def)

lemma b64Char_clean: "n < 64 \<Longrightarrow> b64Char n \<noteq> pad \<and> b64Char n \<noteq> CHR 0x0D \<and> b64Char n \<noteq> CHR 0x0A"
proof -
  assume n: "n < 64"
  have "b64Val CHR 0x0D = None" "b64Val CHR 0x0A = None" by (simp_all add: b64Val_def byte_def Let_def)
  then show ?thesis using b64Val_b64Char [OF n] b64Val_pad by auto
qed

lemma parts:
  "byte c div 4 < 64" "byte c div 16 < 16" "byte c div 64 < 4" "byte c mod 4 < 4" "byte c mod 16 < 16" "byte c mod 64 < 64"
  using byte_lt [of c] by (simp_all add: less_mult_imp_div_less)

lemma six_bits:
  "byte a div 4 < 64" "byte a mod 4 * 16 + byte b div 16 < 64" "byte b mod 16 * 4 + byte c div 64 < 64" "byte c mod 64 < 64"
  "byte a mod 4 * 16 < 64" "byte b mod 16 * 4 < 64"
  using parts(1) [of a] parts(2,3,4,5,6) [of b] parts(4) [of a] parts(3,6) [of c] by linarith+

lemma glue: "(x :: nat) < k \<Longrightarrow> (m * k + x) div k = m" "(x :: nat) < k \<Longrightarrow> (m * k + x) mod k = x"
  by simp_all

lemma eight_bits:
  "byte a div 4 * 4 + (byte a mod 4 * 16 + byte b div 16) div 16 = byte a" "byte a div 4 * 4 + (byte a mod 4 * 16) div 16 = byte a"
  "(byte a mod 4 * 16 + byte b div 16) mod 16 * 16 + (byte b mod 16 * 4 + byte c div 64) div 4 = byte b"
  "(byte a mod 4 * 16 + byte b div 16) mod 16 * 16 + (byte b mod 16 * 4) div 4 = byte b"
  "(byte b mod 16 * 4 + byte c div 64) mod 4 * 64 + byte c mod 64 = byte c"
  using glue [OF parts(2) [of b], of "byte a mod 4"] glue [OF parts(3) [of c], of "byte b mod 16"] by simp_all

lemma quantum_enc:
  "quantum [b64Char (byte a div 4), b64Char (byte a mod 4 * 16)] = Some [a]"
  "quantum [b64Char (byte a div 4), b64Char (byte a mod 4 * 16 + byte b div 16), b64Char (byte b mod 16 * 4)] = Some [a, b]"
  "quantum [b64Char (byte a div 4), b64Char (byte a mod 4 * 16 + byte b div 16), b64Char (byte b mod 16 * 4 + byte c div 64), b64Char (byte c mod 64)] = Some [a, b, c]"
  unfolding quantum_def list.map b64Val_b64Char [OF six_bits(1)] b64Val_b64Char [OF six_bits(2)] b64Val_b64Char [OF six_bits(3)]
    b64Val_b64Char [OF six_bits(4)] b64Val_b64Char [OF six_bits(5)] b64Val_b64Char [OF six_bits(6)]
  by (simp_all only: list.case option.case eight_bits char_of_byte)

lemma b64Encode_clean: "c \<in> set (b64Encode s) \<Longrightarrow> c \<noteq> CHR 0x0D \<and> c \<noteq> CHR 0x0A"
proof (induction s rule: b64Encode.induct)
  case (2 a)
  then show ?case using b64Char_clean [OF six_bits(1) [of a]] b64Char_clean [OF six_bits(5) [of a]] by (auto simp: pad_def)
next
  case (3 a b)
  then show ?case
    using b64Char_clean [OF six_bits(1) [of a]] b64Char_clean [OF six_bits(2) [of a b]] b64Char_clean [OF six_bits(6) [of b]] by (auto simp: pad_def)
next
  case (4 a b d s)
  then show ?case
    using b64Char_clean [OF six_bits(1) [of a]] b64Char_clean [OF six_bits(2) [of a b]] b64Char_clean [OF six_bits(3) [of b d]]
      b64Char_clean [OF six_bits(4) [of d]] by auto
qed simp

lemma b64Digits_encode: "b64Digits True (b64Encode s) = Some s"
proof (induction s rule: b64Encode.induct)
  case (2 a)
  then show ?case by (simp add: quantum_enc)
next
  case (3 a b)
  have "b64Char (byte b mod 16 * 4) \<noteq> pad" using b64Char_clean [OF six_bits(6)] by blast
  then show ?case by (simp add: quantum_enc)
next
  case (4 a b c s)
  have "b64Char (byte c mod 64) \<noteq> pad" using b64Char_clean [of "byte c mod 64"] by simp
  with 4 show ?case by (simp add: quantum_enc)
qed simp

lemma b64_roundtrip: "b64Decode True (b64Encode s) = Some s"
proof -
  have "filter (\<lambda>c. c \<noteq> CHR 0x0D \<and> c \<noteq> CHR 0x0A) (b64Encode s) = b64Encode s"
    using b64Encode_clean by (simp add: filter_id_conv)
  then show ?thesis by (simp add: b64Decode_def b64Digits_encode)
qed

text \<open>What the cipher promises: opening what was sealed gives it back, and the tag takes sixteen bytes.\<close>

definition aead_ok :: "aead \<Rightarrow> bool" where
  "aead_ok gcm \<longleftrightarrow> (\<forall>k n p ad. length k = 32 \<longrightarrow> length n = nonceSize \<longrightarrow> length (aeSeal gcm k n p ad) = length p + overhead \<and>
     aeOpen gcm k n (aeSeal gcm k n p ad) ad = Some p)"

definition random_ok :: "(nat \<Rightarrow> nat \<Rightarrow> string res) \<Rightarrow> bool" where
  "random_ok readFull \<longleftrightarrow> (\<forall>k n b. readFull k n = Inr b \<longrightarrow> length b = n)"

lemma Open_Seal:
  assumes g: "aead_ok gcm" "random_ok readFull" "length (enKEK e) = 32" and s: "Seal gcm readFull e pt ad = Inr blob"
  shows "Open gcm e blob ad = Inr pt" "blob \<noteq> []"
proof -
  obtain dek n1 n2 where r: "readFull 0 32 = Inr dek" "readFull 1 nonceSize = Inr n1" "readFull 2 nonceSize = Inr n2"
    and b: "blob = n1 @ aeSeal gcm (enKEK e) n1 dek ad @ n2 @ aeSeal gcm dek n2 pt ad"
    using s by (auto simp: Seal_def split: if_splits sum.splits)
  have l: "length dek = 32" "length n1 = nonceSize" "length n2 = nonceSize" using g(2) r by (auto simp: random_ok_def)
  have c: "length (aeSeal gcm (enKEK e) n1 dek ad) = 32 + overhead" "aeOpen gcm (enKEK e) n1 (aeSeal gcm (enKEK e) n1 dek ad) ad = Some dek"
    "length (aeSeal gcm dek n2 pt ad) = length pt + overhead" "aeOpen gcm dek n2 (aeSeal gcm dek n2 pt ad) ad = Some pt"
    using g(1,3) l by (simp_all add: aead_ok_def)
  show "Open gcm e blob ad = Inr pt" "blob \<noteq> []" unfolding Open_def b using l c by (auto simp: overhead_def nonceSize_def Let_def)
qed


text \<open>A cipher with these laws: the text in the clear, followed by the key, cut to the length of the tag.\<close>

definition demo_gcm :: aead where
  "demo_gcm = \<lparr>aeSeal = (\<lambda>k n p ad. p @ take overhead k),
     aeOpen = (\<lambda>k n c ad. if overhead \<le> length c \<and> drop (length c - overhead) c = take overhead k then Some (take (length c - overhead) c) else None)\<rparr>"

definition demo_random :: "nat \<Rightarrow> nat \<Rightarrow> string res" where
  "demo_random k n = Inr (replicate n (char_of (65 + k)))"

lemma demo_gcm_ok: "aead_ok demo_gcm" "random_ok demo_random"
  by (auto simp: aead_ok_def demo_gcm_def random_ok_def demo_random_def overhead_def)


section \<open>Settings\<close>

definition shown :: "any option \<Rightarrow> any option" where
  "shown x = (case x of None \<Rightarrow> None | Some v \<Rightarrow> if strOf v \<noteq> [] then Some (VStr Marker) else None)"

lemma redactField_lookup: "map_of (redactField f out) k = (if k = f then shown (map_of out f) else map_of out k)"
  by (cases "map_of out f") (simp_all add: redactField_def shown_def update_conv delete_conv)

lemma shown_shown [simp]: "shown (shown x) = shown x"
  by (simp add: shown_def Marker_def split: option.splits)

lemma seRedact_lookup: "map_of (seRedact s fs) k = (if k \<in> set fs then shown (map_of s k) else map_of s k)"
  unfolding seRedact_def by (induction fs arbitrary: s) (auto simp: redactField_lookup)

definition taken :: "any option \<Rightarrow> any option \<Rightarrow> any option" where
  "taken old new = (case new of None \<Rightarrow> old | Some v \<Rightarrow> if strOf v = Marker then old else if strOf v = [] then None else new)"

lemma mergeField_lookup:
  assumes "map_of out f = map_of incoming f \<or> map_of out f = taken (map_of stored f) (map_of incoming f)"
  shows "map_of (mergeField stored incoming f out) k = (if k = f then taken (map_of stored f) (map_of incoming f) else map_of out k)"
  using assms by (cases "map_of incoming f"; cases "map_of stored f")
    (auto simp: mergeField_def taken_def update_conv delete_conv Marker_def split: if_splits)

lemma seMerge_lookup: "map_of (seMerge stored incoming fs) k = (if k \<in> set fs then taken (map_of stored k) (map_of incoming k) else map_of incoming k)"
proof -
  have "map_of (fold (mergeField stored incoming) fs out) k = (if k \<in> set fs then taken (map_of stored k) (map_of incoming k) else map_of out k)"
    if "\<And>f. map_of out f = map_of incoming f \<or> map_of out f = taken (map_of stored f) (map_of incoming f)" for out
    using that
  proof (induction fs arbitrary: out)
    case (Cons f fs)
    note l = mergeField_lookup [OF Cons.prems, of f]
    show ?case using Cons.IH [of "mergeField stored incoming f out"] Cons.prems by (simp add: l)
  qed simp
  then show ?thesis unfolding seMerge_def by blast
qed

text \<open>
  C16: a client that sends back the settings it was shown changes nothing, and what it was shown has no
  credential: a secret field reads as the marker or not at all.
\<close>

theorem redacted_update_keeps:
  "map_of (seMerge s (seRedact s fs) fs) = map_of s \<and>
   (\<forall>f v. f \<in> set fs \<and> map_of (seRedact s fs) f = Some v \<longrightarrow> v = VStr Marker)"
proof -
  have "map_of (seMerge s (seRedact s fs) fs) k = map_of s k" for k
    by (cases "map_of s k") (simp_all add: seMerge_lookup seRedact_lookup shown_def taken_def Marker_def)
  then show ?thesis by (auto simp: seRedact_lookup shown_def split: option.splits if_splits)
qed

theorem redacted_update_keeps_witness:
  "seRedact [(''host'', VStr ''h''), (''key'', VStr ''k1'')] [''key''] = [(''host'', VStr ''h''), (''key'', VStr Marker)] \<and>
   map_of (seMerge [(''host'', VStr ''h''), (''key'', VStr ''k1'')] [(''host'', VStr ''h''), (''key'', VStr Marker)] [''key'']) ''key'' = Some (VStr ''k1'')"
proof -
  have r: "seRedact [(''host'', VStr ''h''), (''key'', VStr ''k1'')] [''key''] = [(''host'', VStr ''h''), (''key'', VStr Marker)]" by code_simp
  show ?thesis using redacted_update_keeps [of "[(''host'', VStr ''h''), (''key'', VStr ''k1'')]" "[''key'']"] unfolding r by simp
qed

text \<open>A credential sent as anything but text is cleared, not replaced.\<close>

lemma seMerge_nonstring:
  assumes "f \<in> set fs" "map_of incoming f = Some v" "strOf v = []"
  shows "map_of (seMerge stored incoming fs) f = None"
  using assms by (simp add: seMerge_lookup taken_def Marker_def)

text \<open>A credential that has another one at its start keeps its end in a scrubbed message.\<close>

lemma Scrub_overlap:
  "Scrub ''login hunter22 failed'' [(''old'', VStr ''hunter2''), (''new'', VStr ''hunter22'')] [''old'', ''new''] = ''login [REDACTED]2 failed''"
  by code_simp

end
