(* ===== verification/Stats.thy ===== *)
theory Stats
  imports StreamClient World
begin

text \<open>
  The dashboard: the aggregates the store computes over a tenant's tickets and history
  (\<open>TicketStats\<close> of \<open>internal/memstore\<close>, the day series of \<open>internal/store/models.go\<close>) and the window the
  service asks for (\<open>internal/stats\<close>). A day is its number; the text of a day is one to one with it.
\<close>

section \<open>Days\<close>

definition DayNanos :: int where "DayNanos = 24 * 60 * 60 * 1000000000"

definition dayOf :: "time \<Rightarrow> int" where
  "dayOf t = t div DayNanos"

record day_count =
  dyDay :: int
  dyCount :: int

record assignee_count =
  asID :: string
  asName :: string
  asCount :: int

record stats =
  ssTotal :: int
  ssByStatus :: "int table"
  ssByPriority :: "int table"
  ssByAssignee :: "assignee_count list"
  ssUnassignedOpen :: int
  ssCreatedPerDay :: "day_count list"
  ssResolvedPerDay :: "day_count list"

text \<open>The loop of \<open>DaySeries\<close>: a bucket per day, at most ten years of them.\<close>

function dayLoop :: "int \<Rightarrow> int \<Rightarrow> nat \<Rightarrow> day_count list" where
  "dayLoop d lst n = (if d \<le> lst \<and> n \<le> 3660 then \<lparr>dyDay = d, dyCount = 0\<rparr> # dayLoop (d + 1) lst (Suc n) else [])"
  by auto
termination
  by (relation "measure (\<lambda>(d, lst, n). 3661 - n)") auto

declare dayLoop.simps [simp del]

definition DaySeries :: "time \<Rightarrow> time \<Rightarrow> day_count list" where
  "DaySeries since now = dayLoop (dayOf since) (dayOf now) 0"

fun BumpDay :: "day_count list \<Rightarrow> time \<Rightarrow> day_count list" where
  "BumpDay [] at = []"
| "BumpDay (b # bs) at = (if dyDay b = dayOf at then b\<lparr>dyCount := dyCount b + 1\<rparr> # bs else b # BumpDay bs at)"

section \<open>The aggregates\<close>

definition bump :: "string \<Rightarrow> int table \<Rightarrow> int table" where
  "bump k tb = AList.update k ((case map_of tb k of None \<Rightarrow> 0 | Some n \<Rightarrow> n) + 1) tb"

definition bumpAssignee :: "ticket \<Rightarrow> assignee_count table \<Rightarrow> assignee_count table" where
  "bumpAssignee t tb =
     (let ac = (case map_of tb (tkAssigneeID t) of None \<Rightarrow> \<lparr>asID = tkAssigneeID t, asName = [], asCount = 0\<rparr> | Some ac \<Rightarrow> ac);
          ac' = (if asName ac = [] then ac\<lparr>asName := tkAssigneeName t\<rparr> else ac)
      in AList.update (tkAssigneeID t) (ac'\<lparr>asCount := asCount ac' + 1\<rparr>) tb)"

text \<open>One ticket, one history entry.\<close>

definition countTicket :: "string \<Rightarrow> time \<Rightarrow> ticket \<Rightarrow> stats \<times> assignee_count table \<Rightarrow> stats \<times> assignee_count table" where
  "countTicket tenantID since t p =
     (case p of (st, byAssignee) \<Rightarrow>
       if tkTenantID t \<noteq> tenantID then p
       else
       (let st1 = st\<lparr>ssTotal := ssTotal st + 1, ssByStatus := bump (tkStatus t) (ssByStatus st), ssByPriority := bump (tkPriority t) (ssByPriority st)\<rparr>;
            st2 = (if Active (tkStatus t) \<and> tkAssigneeID t = [] then st1\<lparr>ssUnassignedOpen := ssUnassignedOpen st1 + 1\<rparr> else st1);
            by' = (if Active (tkStatus t) \<and> tkAssigneeID t \<noteq> [] then bumpAssignee t byAssignee else byAssignee);
            st3 = (if \<not> tkCreatedAt t < since then st2\<lparr>ssCreatedPerDay := BumpDay (ssCreatedPerDay st2) (tkCreatedAt t)\<rparr> else st2)
        in (st3, by')))"

definition countHistory :: "string \<Rightarrow> time \<Rightarrow> history \<Rightarrow> stats \<Rightarrow> stats" where
  "countHistory tenantID since h st =
     (if hiTenantID h = tenantID \<and> hiField h = FieldStatus \<and> hiNewValue h = StatusResolved \<and> \<not> hiCreatedAt h < since
      then st\<lparr>ssResolvedPerDay := BumpDay (ssResolvedPerDay st) (hiCreatedAt h)\<rparr> else st)"

definition emptyStats :: "time \<Rightarrow> time \<Rightarrow> stats" where
  "emptyStats since now = \<lparr>ssTotal = 0, ssByStatus = map (\<lambda>s. (s, 0)) Statuses, ssByPriority = map (\<lambda>p. (p, 0)) Priorities,
     ssByAssignee = [], ssUnassignedOpen = 0, ssCreatedPerDay = DaySeries since now, ssResolvedPerDay = DaySeries since now\<rparr>"

definition TicketStats :: "string \<Rightarrow> time \<Rightarrow> ('a mem_scheme, stats) op" where
  "TicketStats tenantID since =
     bnd (fail ''TicketStats'') (\<lambda>_.
     bnd Now (\<lambda>now.
     bnd (look tickets) (\<lambda>tks.
     bnd (look history) (\<lambda>hs.
     case fold (countTicket tenantID since) (rows tks) (emptyStats since now, []) of
       (st, byAssignee) \<Rightarrow>
         ret ((fold (countHistory tenantID since) hs st)
           \<lparr>ssByAssignee := sort_key (\<lambda>ac. (- asCount ac, asID ac)) (rows byAssignee)\<rparr>)))))"

section \<open>The service\<close>

definition DefaultDays :: int where "DefaultDays = 30"
definition MaxDays :: int where "MaxDays = 365"

definition Days :: "string \<Rightarrow> int" where
  "Days v = (case ParseInt v of (n, ok) \<Rightarrow> if ok then n else DefaultDays)"

definition Clamp :: "int \<Rightarrow> int" where
  "Clamp days = (if days \<le> 0 then DefaultDays else if days > MaxDays then MaxDays else days)"

definition statsGet :: "subjects \<Rightarrow> int \<Rightarrow> ('a mem_scheme, stats) op" where
  "statsGet subj days =
     (if suTenantID subj = [] then throw (Forbidden ''tenant required'')
      else
      bnd Now (\<lambda>now.
      TicketStats (suTenantID subj) (dayOf now * DayNanos - (Clamp days - 1) * DayNanos)))"

section \<open>What is counted\<close>

definition ofTenant :: "string \<Rightarrow> tables \<Rightarrow> ticket list" where
  "ofTenant tn d = filter (\<lambda>t. tkTenantID t = tn) (rows (tickets d))"

definition resolutions :: "string \<Rightarrow> tables \<Rightarrow> history list" where
  "resolutions tn d = filter (\<lambda>h. hiTenantID h = tn \<and> hiField h = FieldStatus \<and> hiNewValue h = StatusResolved) (history d)"

definition perDay :: "time \<Rightarrow> time list \<Rightarrow> day_count list \<Rightarrow> day_count list" where
  "perDay since ts bs = map (\<lambda>b. b\<lparr>dyCount := dyCount b + int (length (filter (\<lambda>t. since \<le> t \<and> dayOf t = dyDay b) ts))\<rparr>) bs"

definition numOf :: "string \<Rightarrow> int table \<Rightarrow> int" where
  "numOf k tb = (case map_of tb k of None \<Rightarrow> 0 | Some n \<Rightarrow> n)"

definition howMany :: "('x \<Rightarrow> bool) \<Rightarrow> 'x list \<Rightarrow> int" where
  "howMany P xs = int (length (filter P xs))"

lemma howMany_simps [simp]: "howMany P [] = 0" "howMany P (x # xs) = (if P x then 1 else 0) + howMany P xs"
  by (simp_all add: howMany_def)

lemma numOf_bump: "numOf k (bump j tb) = numOf k tb + (if k = j then 1 else 0)"
  by (simp add: numOf_def bump_def update_conv)

text \<open>The days of a series are distinct, so a bucket counts every event of its day.\<close>

lemma dayLoop_from: "b \<in> set (dayLoop d lst n) \<Longrightarrow> d \<le> dyDay b \<and> dyCount b = 0"
proof (induction d lst n rule: dayLoop.induct)
  case (1 d lst n)
  from "1.prems" have c: "d \<le> lst \<and> n \<le> 3660" by (subst (asm) dayLoop.simps) (simp split: if_splits)
  from "1.prems" c have "b = \<lparr>dyDay = d, dyCount = 0\<rparr> \<or> b \<in> set (dayLoop (d + 1) lst (Suc n))" by (subst (asm) dayLoop.simps) simp
  with "1.IH" [OF c] show ?case by auto
qed

lemma dayLoop_distinct: "distinct (map dyDay (dayLoop d lst n))"
proof (induction d lst n rule: dayLoop.induct)
  case (1 d lst n)
  show ?case
  proof (cases "d \<le> lst \<and> n \<le> 3660")
    case True
    moreover have "d \<notin> dyDay ` set (dayLoop (d + 1) lst (Suc n))" using dayLoop_from [of _ "d + 1" lst "Suc n"] by fastforce
    ultimately show ?thesis using "1.IH" [OF True] by (subst dayLoop.simps) simp
  qed (auto simp: dayLoop.simps [of d lst n])
qed

lemma BumpDay_days [simp]: "map dyDay (BumpDay bs at) = map dyDay bs"
  by (induction bs) auto

lemma BumpDay_perDay: "distinct (map dyDay bs) \<Longrightarrow> BumpDay bs at = map (\<lambda>b. b\<lparr>dyCount := dyCount b + (if dayOf at = dyDay b then 1 else 0)\<rparr>) bs"
proof (induction bs)
  case (Cons b bs)
  then show ?case by (cases "dyDay b = dayOf at") (auto intro!: map_idI [symmetric])
qed simp

lemma perDay_Nil [simp]: "perDay since [] bs = bs"
  by (simp add: perDay_def)

lemma perDay_days [simp]: "map dyDay (perDay since ts bs) = map dyDay bs"
  by (simp add: perDay_def comp_def)

lemma perDay_bump:
  "distinct (map dyDay bs) \<Longrightarrow> perDay since ts (if since \<le> t then BumpDay bs t else bs) = perDay since (t # ts) bs"
  by (auto simp: perDay_def BumpDay_perDay comp_def)

definition mine :: "string \<Rightarrow> (ticket \<Rightarrow> bool) \<Rightarrow> ticket \<Rightarrow> bool" where
  "mine tn P t \<longleftrightarrow> tkTenantID t = tn \<and> P t"

definition workload :: "string \<Rightarrow> assignee_count table \<Rightarrow> int" where
  "workload a tb = (case map_of tb a of None \<Rightarrow> 0 | Some ac \<Rightarrow> asCount ac)"

definition loads_ok :: "assignee_count table \<Rightarrow> bool" where
  "loads_ok tb \<longleftrightarrow> distinct (map fst tb) \<and> (\<forall>(k, ac) \<in> set tb. asID ac = k \<and> 0 < asCount ac)"

lemma loads_ok_bump: "loads_ok tb \<Longrightarrow> loads_ok (bumpAssignee t tb)"
  by (auto simp: loads_ok_def bumpAssignee_def Let_def distinct_update set_update_table split: option.splits dest!: map_of_SomeD)

lemma workload_bump: "workload a (bumpAssignee t tb) = workload a tb + (if tkAssigneeID t = a then 1 else 0)"
  by (simp add: workload_def bumpAssignee_def Let_def update_conv split: option.splits)

text \<open>What the loop over the tickets adds to the aggregates.\<close>

lemma countTicket_fold:
  assumes "fold (countTicket tn since) ts (st, tb) = (st', tb')" "distinct (map dyDay (ssCreatedPerDay st))" "loads_ok tb"
  shows "ssTotal st' = ssTotal st + howMany (mine tn (\<lambda>_. True)) ts \<and>
    numOf k (ssByStatus st') = numOf k (ssByStatus st) + howMany (mine tn (\<lambda>t. tkStatus t = k)) ts \<and>
    numOf k (ssByPriority st') = numOf k (ssByPriority st) + howMany (mine tn (\<lambda>t. tkPriority t = k)) ts \<and>
    ssUnassignedOpen st' = ssUnassignedOpen st + howMany (mine tn (\<lambda>t. Active (tkStatus t) \<and> tkAssigneeID t = [])) ts \<and>
    workload a tb' = workload a tb + howMany (mine tn (\<lambda>t. Active (tkStatus t) \<and> tkAssigneeID t \<noteq> [] \<and> tkAssigneeID t = a)) ts \<and>
    ssCreatedPerDay st' = perDay since (map tkCreatedAt (filter (mine tn (\<lambda>_. True)) ts)) (ssCreatedPerDay st) \<and>
    ssResolvedPerDay st' = ssResolvedPerDay st \<and> loads_ok tb'"
  using assms
proof (induction ts arbitrary: st tb)
  case (Cons t ts)
  obtain st1 tb1 where c: "countTicket tn since t (st, tb) = (st1, tb1)" by fastforce
  show ?case
  proof (cases "tkTenantID t = tn")
    case False
    then have "st1 = st" "tb1 = tb" using c by (simp_all add: countTicket_def)
    with Cons c False show ?thesis by (simp add: mine_def)
  next
    case True
    have e: "ssTotal st1 = ssTotal st + 1" "ssByStatus st1 = bump (tkStatus t) (ssByStatus st)" "ssByPriority st1 = bump (tkPriority t) (ssByPriority st)"
      "ssUnassignedOpen st1 = ssUnassignedOpen st + (if Active (tkStatus t) \<and> tkAssigneeID t = [] then 1 else 0)"
      "tb1 = (if Active (tkStatus t) \<and> tkAssigneeID t \<noteq> [] then bumpAssignee t tb else tb)"
      "ssCreatedPerDay st1 = (if since \<le> tkCreatedAt t then BumpDay (ssCreatedPerDay st) (tkCreatedAt t) else ssCreatedPerDay st)"
      "ssResolvedPerDay st1 = ssResolvedPerDay st"
      using c True by (auto simp: countTicket_def Let_def)
    have d: "distinct (map dyDay (ssCreatedPerDay st1))" using Cons.prems(2) e(6) by simp
    have l: "loads_ok tb1" using Cons.prems(3) e(5) by (simp add: loads_ok_bump)
    have f: "fold (countTicket tn since) ts (st1, tb1) = (st', tb')" using Cons.prems(1) c by simp
    have p: "perDay since (map tkCreatedAt (filter (mine tn (\<lambda>_. True)) ts)) (ssCreatedPerDay st1) =
        perDay since (map tkCreatedAt (filter (mine tn (\<lambda>_. True)) (t # ts))) (ssCreatedPerDay st)"
      using perDay_bump [OF Cons.prems(2)] True e(6) by (simp add: mine_def [abs_def])
    show ?thesis
      using Cons.IH [OF f d l] True unfolding p by (auto simp: e(1-5,7) numOf_bump workload_bump mine_def [abs_def])
  qed
qed simp

lemma countHistory_fold:
  assumes "distinct (map dyDay (ssResolvedPerDay st))"
  shows "ssResolvedPerDay (fold (countHistory tn since) hs st) =
      perDay since (map hiCreatedAt (filter (\<lambda>h. hiTenantID h = tn \<and> hiField h = FieldStatus \<and> hiNewValue h = StatusResolved) hs)) (ssResolvedPerDay st) \<and>
    (fold (countHistory tn since) hs st)\<lparr>ssResolvedPerDay := []\<rparr> = st\<lparr>ssResolvedPerDay := []\<rparr>"
  using assms
proof (induction hs arbitrary: st)
  case (Cons h hs)
  have "distinct (map dyDay (ssResolvedPerDay (countHistory tn since h st)))" using Cons.prems by (simp add: countHistory_def)
  from Cons.IH [OF this] show ?case
    using perDay_bump [OF Cons.prems, of since _ "hiCreatedAt h"] by (auto simp: countHistory_def)
qed simp

lemma numOf_zero: "numOf k (map (\<lambda>s. (s, 0)) xs) = 0"
  by (induction xs) (auto simp: numOf_def split: option.splits)

lemma howMany_filter: "howMany P (filter Q xs) = howMany (\<lambda>x. Q x \<and> P x) xs"
  by (simp add: howMany_def conj_commute)

lemma loads_sum: "loads_ok tb \<Longrightarrow> sum_list (map asCount (filter (\<lambda>ac. asID ac = a) (rows tb))) = workload a tb"
proof (induction tb)
  case (Cons p tb)
  obtain k ac where p: "p = (k, ac)" by fastforce
  have "loads_ok tb" "asID ac = k" "k \<notin> fst ` set tb" using Cons.prems p by (auto simp: loads_ok_def)
  moreover have "filter (\<lambda>ac. asID ac = k) (rows tb) = []" using Cons.prems p by (force simp: loads_ok_def set_rows filter_empty_conv)
  ultimately show ?case using Cons.IH p by (auto simp: workload_def)
qed (simp add: workload_def)

lemma loads_ids: "loads_ok tb \<Longrightarrow> map asID (rows tb) = map fst tb"
  by (auto simp: loads_ok_def rows_def)

lemma sort_key_sum: "sum_list (map f (sort_key g xs)) = sum_list (map f xs)" for f :: "'x \<Rightarrow> int"
proof -
  have "sum_mset (mset (map f (sort_key g xs))) = sum_mset (mset (map f xs))" by simp
  then show ?thesis by (simp only: sum_mset_sum_list)
qed

lemma sort_key_distinct: "distinct (map f (sort_key g xs)) = distinct (map f xs)"
  by (metis mset_eq_imp_distinct_iff mset_map mset_sort)

lemma sort_key_first: "sorted (map f (sort_key (\<lambda>x. (f x, g x)) xs))" for f :: "'x \<Rightarrow> 'a :: linorder" and g :: "'x \<Rightarrow> 'b :: linorder"
proof -
  have "sorted (map (\<lambda>x. (f x, g x)) (sort_key (\<lambda>x. (f x, g x)) xs))" by (rule sorted_sort_key)
  then show ?thesis unfolding sorted_map by (rule sorted_wrt_mono_rel [rotated]) (auto simp: less_eq_prod_def)
qed

text \<open>
  C18: the dashboard of a tenant counts its tickets and nothing else: the total, each status, each
  priority, the open work without an assignee, the open work of each assignee (every assignee with some is listed once, the
  busiest first), and per day of the window the tickets created and the resolutions recorded.
\<close>

theorem stats_exact:
  assumes "TicketStats tn since w = (Inr st, w')"
  shows "db w' = db w \<and> ssTotal st = int (length (ofTenant tn (db w))) \<and>
    numOf k (ssByStatus st) = howMany (\<lambda>t. tkStatus t = k) (ofTenant tn (db w)) \<and>
    numOf k (ssByPriority st) = howMany (\<lambda>t. tkPriority t = k) (ofTenant tn (db w)) \<and>
    ssUnassignedOpen st = howMany (\<lambda>t. Active (tkStatus t) \<and> tkAssigneeID t = []) (ofTenant tn (db w)) \<and>
    (a \<noteq> [] \<longrightarrow> sum_list (map asCount (filter (\<lambda>ac. asID ac = a) (ssByAssignee st))) =
       howMany (\<lambda>t. Active (tkStatus t) \<and> tkAssigneeID t = a) (ofTenant tn (db w))) \<and>
    distinct (map asID (ssByAssignee st)) \<and> sorted (map (\<lambda>ac. - asCount ac) (ssByAssignee st)) \<and>
    ssCreatedPerDay st = perDay since (map tkCreatedAt (ofTenant tn (db w))) (DaySeries since (clock w (ticks w))) \<and>
    ssResolvedPerDay st = perDay since (map hiCreatedAt (resolutions tn (db w))) (DaySeries since (clock w (ticks w)))"
proof -
  let ?now = "clock w (ticks w)"
  obtain st1 tb where f: "fold (countTicket tn since) (rows (tickets (db w))) (emptyStats since ?now, []) = (st1, tb)" by fastforce
  let ?st2 = "fold (countHistory tn since) (history (db w)) st1"
  have r: "st = ?st2\<lparr>ssByAssignee := sort_key (\<lambda>ac. (- asCount ac, asID ac)) (rows tb)\<rparr>" and db: "db w' = db w"
    using assms f by (auto simp: TicketStats_def run split: if_splits)
  have d: "distinct (map dyDay (DaySeries since ?now))" by (simp add: DaySeries_def dayLoop_distinct)
  have l0: "loads_ok []" by (simp add: loads_ok_def)
  note c = countTicket_fold [OF f _ l0, of k a, simplified emptyStats_def, simplified, OF d]
  have h: "ssResolvedPerDay ?st2 = perDay since (map hiCreatedAt (resolutions tn (db w))) (DaySeries since ?now)"
    "?st2\<lparr>ssResolvedPerDay := []\<rparr> = st1\<lparr>ssResolvedPerDay := []\<rparr>"
    using countHistory_fold [of st1 tn since "history (db w)"] c d by (simp_all add: resolutions_def)
  have s: "ssTotal ?st2 = ssTotal st1" "ssByStatus ?st2 = ssByStatus st1" "ssByPriority ?st2 = ssByPriority st1" "ssUnassignedOpen ?st2 = ssUnassignedOpen st1"
    "ssCreatedPerDay ?st2 = ssCreatedPerDay st1"
    using h(2) by (metis stats.select_convs stats.surjective stats.update_convs)+
  have tb: "loads_ok tb" using c by blast
  have a1: "sum_list (map asCount (filter (\<lambda>ac. asID ac = a) (sort_key (\<lambda>ac. (- asCount ac, asID ac)) (rows tb)))) = workload a tb"
    by (simp add: filter_sort sort_key_sum loads_sum [OF tb])
  have a2: "distinct (map asID (sort_key (\<lambda>ac. (- asCount ac, asID ac)) (rows tb)))"
    using tb by (simp add: sort_key_distinct loads_ids) (simp add: loads_ok_def)
  have e: "a \<noteq> [] \<Longrightarrow> mine tn (\<lambda>t. Active (tkStatus t) \<and> tkAssigneeID t \<noteq> [] \<and> tkAssigneeID t = a) = mine tn (\<lambda>t. Active (tkStatus t) \<and> tkAssigneeID t = a)"
    by (auto simp: mine_def)
  have o: "howMany P (ofTenant tn (db w)) = howMany (mine tn P) (rows (tickets (db w)))" for P
    by (simp add: ofTenant_def howMany_filter mine_def [abs_def])
  have t: "int (length (ofTenant tn (db w))) = howMany (mine tn (\<lambda>_. True)) (rows (tickets (db w)))"
    "map tkCreatedAt (ofTenant tn (db w)) = map tkCreatedAt (filter (mine tn (\<lambda>_. True)) (rows (tickets (db w))))"
    by (simp_all add: ofTenant_def howMany_def mine_def [abs_def])
  show ?thesis unfolding o t r using c a1 a2 h(1) db e
    by (simp add: s numOf_zero workload_def [of _ "[]"] sort_key_first)
qed

theorem stats_exact_witness:
  "\<exists>st w'. TicketStats ''acme'' 0 demo_store = (Inr st, w') \<and> ssTotal st = 1 \<and> numOf StatusOpen (ssByStatus st) = 1 \<and>
     numOf StatusClosed (ssByStatus st) = 0"
proof -
  obtain st w' where t: "TicketStats ''acme'' 0 demo_store = (Inr st, w')"
    by (auto simp: TicketStats_def run demo_store_eq case_prod_beta)
  have o: "map tkStatus (ofTenant ''acme'' (db demo_store)) = [StatusOpen]"
    by (simp add: ofTenant_def demo_store_eq demo_tables_def demo_ticket_def store_consts)
  then obtain x where x: "ofTenant ''acme'' (db demo_store) = [x]" "tkStatus x = StatusOpen" by auto
  show ?thesis
    using t stats_exact [OF t, of StatusOpen "[]"] stats_exact [OF t, of StatusClosed "[]"] x by (auto simp: store_consts)
qed

end
