(* ===== verification/Secrets.thy ===== *)
theory Secrets
  imports StoreModel
begin

text \<open>
  The two credentials of the module (\<open>internal/secrets\<close>): references are resolved through a fetcher, cached for a
  bounded time and served a little longer when the source is down. The warden service, files and the platform token are
  what each call finds of them.
\<close>

section \<open>Fetchers\<close>

datatype sec_err = SecNotConfigured | SecUnavailable string | SecEmpty

type_synonym fetched = "sec_err + string"

text \<open>\<open>FileToken\<close>, with the contents of the file if it can be read.\<close>

definition FileToken :: "string option \<Rightarrow> fetched" where
  "FileToken raw =
     (case raw of
        None \<Rightarrow> Inl (SecUnavailable ''platform token unreadable'')
      | Some s \<Rightarrow> if TrimSpace s = [] then Inl (SecUnavailable ''platform token empty'') else Inr (TrimSpace s))"

text \<open>\<open>Warden.Fetch\<close>: \<open>getPassword\<close> is the call to warden with a token, which gives a password or a status code.\<close>

definition wardenFetch :: "(string \<Rightarrow> string \<Rightarrow> string + string) option \<Rightarrow> fetched option \<Rightarrow> string \<Rightarrow> fetched" where
  "wardenFetch getPassword token ident =
     (case (getPassword, token) of
        (Some call, Some (Inr tok)) \<Rightarrow>
          (case call tok ident of Inl code \<Rightarrow> Inl (SecUnavailable (''warden: '' @ code)) | Inr v \<Rightarrow> Inr v)
      | (Some _, Some (Inl e)) \<Rightarrow> Inl e
      | _ \<Rightarrow> Inl (SecUnavailable []))"

definition TrimPrefix :: "string \<Rightarrow> string \<Rightarrow> string" where
  "TrimPrefix s p = (if HasPrefix s p then drop (length p) s else s)"

record resolver =
  rsWarden :: "(string \<Rightarrow> fetched) option"
  rsAllowFile :: bool
  rsFile :: "string \<Rightarrow> string option"

definition resolverFetch :: "resolver \<Rightarrow> string \<Rightarrow> fetched" where
  "resolverFetch r ref0 =
     (let ref = TrimSpace ref0
      in if ref = [] then Inl SecNotConfigured
         else if HasPrefix ref ''file:''
         then
           (if \<not> rsAllowFile r then Inl (SecUnavailable ''file references are disabled'')
            else case rsFile r (TrimPrefix ref ''file:'') of
                   None \<Rightarrow> Inl (SecUnavailable ''file reference unreadable'')
                 | Some raw \<Rightarrow> Inr (TrimSpace raw))
         else
           (let ident = TrimPrefix ref ''warden:''
            in if ident = [] then Inl SecNotConfigured
               else case rsWarden r of None \<Rightarrow> Inl (SecUnavailable ''warden not wired'') | Some f \<Rightarrow> f ident))"

section \<open>The cached source\<close>

record sec_entry =
  seVal :: string
  seAt :: time

record sec_cache =
  scRelayRef :: string
  scSMTPRef :: string
  scRefresh :: int
  scMaxStale :: int
  scEntries :: "sec_entry table"

definition NewCached :: "string \<Rightarrow> string \<Rightarrow> int \<Rightarrow> sec_cache" where
  "NewCached relayRef smtpRef refresh =
     \<lparr>scRelayRef = relayRef, scSMTPRef = smtpRef, scRefresh = refresh, scMaxStale = 0, scEntries = []\<rparr>"

definition maxStale :: "sec_cache \<Rightarrow> int" where
  "maxStale c = (if scMaxStale c \<le> 0 then 10 * scRefresh c else scMaxStale c)"

text \<open>
  \<open>Cached.get\<close>: \<open>t1\<close> is the clock when the cache is looked at, \<open>t2\<close> after the ask; \<open>fetcher\<close> is \<open>None\<close> for the nil one.
\<close>

definition secGet :: "(string \<Rightarrow> fetched) option \<Rightarrow> time \<Rightarrow> time \<Rightarrow> string \<Rightarrow> sec_cache \<Rightarrow> fetched \<times> sec_cache" where
  "secGet fetcher t1 t2 ref c =
     (if TrimSpace ref = [] then (Inl SecNotConfigured, c)
      else
      let e = map_of (scEntries c) ref
      in case e of
           Some x \<Rightarrow>
             if t1 - seAt x < scRefresh c then (Inr (seVal x), c)
             else (case fetcher of
               None \<Rightarrow> (Inl (SecUnavailable []), c)
             | Some ask \<Rightarrow>
                 (case (case ask ref of Inr v \<Rightarrow> if v = [] then Inl SecEmpty else Inr v | Inl err \<Rightarrow> Inl err) of
                    Inl err \<Rightarrow> if t2 - seAt x < maxStale c then (Inr (seVal x), c) else (Inl err, c)
                  | Inr v \<Rightarrow> (Inr v, c\<lparr>scEntries := AList.update ref \<lparr>seVal = v, seAt = t2\<rparr> (scEntries c)\<rparr>)))
         | None \<Rightarrow>
             (case fetcher of
               None \<Rightarrow> (Inl (SecUnavailable []), c)
             | Some ask \<Rightarrow>
                 (case (case ask ref of Inr v \<Rightarrow> if v = [] then Inl SecEmpty else Inr v | Inl err \<Rightarrow> Inl err) of
                    Inl err \<Rightarrow> (Inl err, c)
                  | Inr v \<Rightarrow> (Inr v, c\<lparr>scEntries := AList.update ref \<lparr>seVal = v, seAt = t2\<rparr> (scEntries c)\<rparr>))))"

definition RelayToken :: "(string \<Rightarrow> fetched) option \<Rightarrow> time \<Rightarrow> time \<Rightarrow> sec_cache \<Rightarrow> fetched \<times> sec_cache" where
  "RelayToken fetcher t1 t2 c = secGet fetcher t1 t2 (scRelayRef c) c"

definition SMTPPassword :: "(string \<Rightarrow> fetched) option \<Rightarrow> time \<Rightarrow> time \<Rightarrow> sec_cache \<Rightarrow> fetched \<times> sec_cache" where
  "SMTPPassword fetcher t1 t2 c = secGet fetcher t1 t2 (scSMTPRef c) c"

definition Invalidate :: "sec_cache \<Rightarrow> sec_cache" where
  "Invalidate c = c\<lparr>scEntries := []\<rparr>"

section \<open>Freshness\<close>

text \<open>
  A run of the source: calls for either credential with whatever the fetcher gives at that moment, and invalidations. The log has
  what was fetched, for which reference and when.
\<close>

inductive sec_run :: "sec_cache \<Rightarrow> (string \<times> string \<times> time) list \<Rightarrow> sec_cache \<Rightarrow> bool" for c0 where
  start: "sec_run c0 [] c0"
| call: "sec_run c0 lg c \<Longrightarrow> secGet (Some ask) t1 t2 ref c = (r, c') \<Longrightarrow>
    sec_run c0 (lg @ (case ask ref of Inr v \<Rightarrow> [(ref, v, t2)] | Inl _ \<Rightarrow> [])) c'"
| invalidate: "sec_run c0 lg c \<Longrightarrow> sec_run c0 lg (Invalidate c)"

definition logged :: "(string \<times> string \<times> time) list \<Rightarrow> sec_cache \<Rightarrow> bool" where
  "logged lg c \<longleftrightarrow> (\<forall>ref e. map_of (scEntries c) ref = Some e \<longrightarrow> (ref, seVal e, seAt e) \<in> set lg \<and> seVal e \<noteq> [])"

lemma secGet_cases:
  assumes "secGet (Some ask) t1 t2 ref c = (r, c')"
  shows "(c' = c \<and> (\<exists>err. r = Inl err)) \<or>
    (c' = c \<and> (\<exists>e. map_of (scEntries c) ref = Some e \<and> r = Inr (seVal e) \<and> (t1 - seAt e < scRefresh c \<or> t2 - seAt e < maxStale c))) \<or>
    (\<exists>v. ask ref = Inr v \<and> v \<noteq> [] \<and> r = Inr v \<and> c' = c\<lparr>scEntries := AList.update ref \<lparr>seVal = v, seAt = t2\<rparr> (scEntries c)\<rparr>)"
  using assms by (cases "ask ref"; cases "map_of (scEntries c) ref"; cases r) (auto simp: secGet_def split: if_splits)

lemma logged_run: "sec_run c0 lg c \<Longrightarrow> scEntries c0 = [] \<Longrightarrow> logged lg c \<and> scRefresh c = scRefresh c0 \<and> maxStale c = maxStale c0"
proof (induction rule: sec_run.induct)
  case start
  then show ?case by (simp add: logged_def)
next
  case (call lg c ask t1 t2 ref r c')
  have "logged lg c" "scRefresh c = scRefresh c0" "maxStale c = maxStale c0" using call by simp_all
  note l = this
  from secGet_cases [OF call(2)] show ?case
  proof (elim disjE)
    assume "\<exists>v. ask ref = Inr v \<and> v \<noteq> [] \<and> r = Inr v \<and> c' = c\<lparr>scEntries := AList.update ref \<lparr>seVal = v, seAt = t2\<rparr> (scEntries c)\<rparr>"
    with l show ?thesis by (auto simp: logged_def update_conv maxStale_def split: if_splits)
  qed (use l in \<open>auto simp: logged_def\<close>)
next
  case (invalidate lg c)
  have "maxStale (Invalidate c) = maxStale c" by (simp add: maxStale_def Invalidate_def)
  with invalidate show ?case by (simp add: logged_def Invalidate_def)
qed


definition demo_source :: "string \<Rightarrow> fetched" where
  "demo_source ref = (if ref = ''warden:relay'' then Inr ''tok'' else Inl SecNotConfigured)"


end
