(* ===== verification/Spec2Isabelle.thy ===== *)
theory Spec2Isabelle
  imports MemIso MemSpec CommentProps MailboxSvc InboundLive StreamSse BackupProps Sealed Stats Secrets
begin

text \<open>
  A verification library for the ticket (helpdesk) service.
\<close>

end
